theory Spec2Isabelle
  imports Complex_Main
begin

section \<open>Numbers\<close>

text \<open>
  The program computes with C++ \<open>double\<close>. The embedding reads every \<open>double\<close> as a
  real number: comparisons are exact, and \<open>+\<close>, \<open>-\<close>, \<open>*\<close>, \<open>/\<close>, \<open>sqrt\<close> are the exact
  operations, without rounding, infinities or NaN. HOL's division and square root are
  total (\<open>x / 0 = 0\<close>, \<open>sqrt\<close> of a negative number is negative) where the C++
  operations give an infinity or NaN, so every theorem below that speaks about a quotient
  or a root computed by the program carries the hypothesis that the divisor is not zero
  and the radicand is not negative, unless the code tests for it itself.
  Container sizes and bin numbers are natural numbers; \<open>findBin\<close> returns an \<open>int\<close>
  because the source uses \<open>-1\<close> as its marker.
\<close>

section \<open>Bin edges and the search for a bin\<close>

text \<open>
  A member \<open>x_\<close> of a class of the source is the field \<open>x_m\<close> of its record: a name
  may not end in an underscore here.
\<close>

record BinManager =
  q2_bins_m :: "real list"
  t_bins_m :: "real list"
  xb_bins_m :: "real list"

text \<open>The default constructor of \<open>BinManager\<close>.\<close>

definition BinManager_default :: BinManager where
  "BinManager_default =
     \<lparr>q2_bins_m = [1.0, 2.0, 4.0, 6.0],
      t_bins_m = [0.1, 0.3, 0.6, 1.0],
      xb_bins_m = [0.1, 0.2, 0.4, 0.6]\<rparr>"

text \<open>
  \<open>std::upper_bound(first, last, val)\<close>: the position of the first element that is
  greater than \<open>val\<close>, or the length when there is none. The standard library
  specifies it for ranges that are partitioned by \<open>\<not> val < e\<close> (every sorted range is);
  there the scan from the left below finds the same position as the library's bisection.
\<close>

definition upper_bound :: "real list \<Rightarrow> real \<Rightarrow> nat" where
  "upper_bound edges val = length (takeWhile (\<lambda>e. \<not> val < e) edges)"

text \<open>
  The lambda \<open>findBin\<close> of \<open>ComputeDVCS_CrossSection\<close>. The iterator \<open>it\<close> is its
  offset from \<open>edges.begin()\<close>; the cast of the offset to \<open>int\<close> is exact for every
  vector of fewer than \<open>2^31\<close> edges.
\<close>

definition findBin :: "real \<Rightarrow> real list \<Rightarrow> int" where
  "findBin val edges =
     (let it = upper_bound edges val
      in if it = 0 \<or> it = length edges then - 1 else int it - 1)"

section \<open>The histogram classes of ROOT that the program uses\<close>

text \<open>
  \<open>TAxis\<close>, \<open>TH1D\<close> and \<open>THnSparseD\<close> belong to the ROOT library, not to this
  repository. They are modelled by the state the program can observe through the calls
  it makes: bin contents and the sums of squared weights \<open>fSumw2\<close>, whose root is the
  bin error. Names, titles, entry counts and statistics are not modelled.
\<close>

record TAxis =
  fNbins :: nat
  fXmin :: real
  fXmax :: real
  fXbins :: "real list"

text \<open>
  \<open>TAxis::FindBin\<close>: bin 0 is the underflow, bin \<open>fNbins + 1\<close> the overflow. An axis with
  equal bins has no \<open>fXbins\<close>; an axis with variable bins keeps its increasing edges
  there and the bin is the number of edges not above \<open>x\<close>.
\<close>

definition TAxis_FindBin :: "TAxis \<Rightarrow> real \<Rightarrow> nat" where
  "TAxis_FindBin ax x =
     (if x < fXmin ax then 0
      else if \<not> x < fXmax ax then fNbins ax + 1
      else if fXbins ax = []
        then 1 + nat \<lfloor>real (fNbins ax) * (x - fXmin ax) / (fXmax ax - fXmin ax)\<rfloor>
        else length (takeWhile (\<lambda>e. e \<le> x) (fXbins ax)))"

record TH1D =
  fXaxis :: TAxis
  fArray :: "real list"
  fSumw2 :: "real list"

text \<open>
  \<open>new TH1D(name, title, nbins, xlow, xup)\<close>: \<open>nbins + 2\<close> cells, all empty. ROOT
  creates \<open>fSumw2\<close> only when a weight other than 1 is filled or an error is set, and
  copies the contents into it at that moment; a histogram filled with weights 1 only
  reports \<open>sqrt\<close> of the content as its error. Keeping \<open>fSumw2\<close> from the start, as is
  done here, gives the same contents and errors in every call sequence of this program.
\<close>

definition TH1D_new :: "nat \<Rightarrow> real \<Rightarrow> real \<Rightarrow> TH1D" where
  "TH1D_new nbins xlow xup =
     \<lparr>fXaxis = \<lparr>fNbins = nbins, fXmin = xlow, fXmax = xup, fXbins = []\<rparr>,
      fArray = replicate (nbins + 2) 0,
      fSumw2 = replicate (nbins + 2) 0\<rparr>"

definition GetNbinsX :: "TH1D \<Rightarrow> nat" where
  "GetNbinsX h = fNbins (fXaxis h)"

text \<open>\<open>TH1::Fill(x, w)\<close> adds \<open>w\<close> to the content and \<open>w * w\<close> to \<open>fSumw2\<close> of the bin of \<open>x\<close>.\<close>

definition Fill :: "TH1D \<Rightarrow> real \<Rightarrow> real \<Rightarrow> TH1D" where
  "Fill h x w =
     (let bin = TAxis_FindBin (fXaxis h) x
      in h\<lparr>fArray := (fArray h)[bin := fArray h ! bin + w],
           fSumw2 := (fSumw2 h)[bin := fSumw2 h ! bin + w * w]\<rparr>)"

text \<open>
  The getters clamp a bin number beyond the last cell to the overflow cell; the setters
  ignore it. \<open>SetBinError\<close> stores the square of the error and \<open>GetBinError\<close> returns
  the root of what is stored.
\<close>

definition GetBinContent :: "TH1D \<Rightarrow> nat \<Rightarrow> real" where
  "GetBinContent h bin = fArray h ! min bin (length (fArray h) - 1)"

definition GetBinError :: "TH1D \<Rightarrow> nat \<Rightarrow> real" where
  "GetBinError h bin = sqrt (fSumw2 h ! min bin (length (fSumw2 h) - 1))"

definition SetBinContent :: "TH1D \<Rightarrow> nat \<Rightarrow> real \<Rightarrow> TH1D" where
  "SetBinContent h bin content = h\<lparr>fArray := (fArray h)[bin := content]\<rparr>"

definition SetBinError :: "TH1D \<Rightarrow> nat \<Rightarrow> real \<Rightarrow> TH1D" where
  "SetBinError h bin error = h\<lparr>fSumw2 := (fSumw2 h)[bin := error * error]\<rparr>"

text \<open>\<open>Clone\<close> copies the object; \<open>Reset\<close> empties every cell and keeps the axis.\<close>

definition Clone :: "TH1D \<Rightarrow> TH1D" where
  "Clone h = h"

definition Reset :: "TH1D \<Rightarrow> TH1D" where
  "Reset h = h\<lparr>fArray := map (\<lambda>_. 0) (fArray h), fSumw2 := map (\<lambda>_. 0) (fSumw2 h)\<rparr>"

text \<open>
  \<open>this->Divide(h1, h2)\<close> and \<open>this->Multiply(h1, h2)\<close> on histograms with the same
  cells, cell by cell: the quotient of a cell whose divisor is 0 is set to 0, with error
  0. Each cell of \<open>h1\<close> and \<open>h2\<close> is read before the same cell of \<open>this\<close> is written, so
  that \<open>this\<close> may be \<open>h1\<close> itself.
\<close>

definition Divide :: "TH1D \<Rightarrow> TH1D \<Rightarrow> TH1D \<Rightarrow> TH1D" where
  "Divide this h1 h2 =
     this\<lparr>fArray := map (\<lambda>i. let b1 = fArray h1 ! i; b2 = fArray h2 ! i
                            in if b2 \<noteq> 0 then b1 / b2 else 0) [0..<length (fArray this)],
          fSumw2 := map (\<lambda>i. let b1 = fArray h1 ! i; b2 = fArray h2 ! i;
                                e1sq = fSumw2 h1 ! i; e2sq = fSumw2 h2 ! i
                            in if b2 = 0 then 0
                               else (e1sq * (b2 * b2) + e2sq * (b1 * b1)) / ((b2 * b2) * (b2 * b2)))
                        [0..<length (fSumw2 this)]\<rparr>"

definition Multiply :: "TH1D \<Rightarrow> TH1D \<Rightarrow> TH1D \<Rightarrow> TH1D" where
  "Multiply this h1 h2 =
     this\<lparr>fArray := map (\<lambda>i. fArray h1 ! i * fArray h2 ! i) [0..<length (fArray this)],
          fSumw2 := map (\<lambda>i. let b1 = fArray h1 ! i; b2 = fArray h2 ! i;
                                e1sq = fSumw2 h1 ! i; e2sq = fSumw2 h2 ! i
                            in e1sq * (b2 * b2) + e2sq * (b1 * b1))
                        [0..<length (fSumw2 this)]\<rparr>"

text \<open>
  A \<open>THnSparseD\<close> with four axes. Only the filled cells are stored, under their four bin
  numbers; \<open>GetBinContent\<close> of a cell that is not stored is 0.
\<close>

record THnSparseD =
  axis0 :: TAxis
  axis1 :: TAxis
  axis2 :: TAxis
  axis3 :: TAxis
  fFilled :: "(nat list \<times> real) list"

definition THnSparse_GetBinContent :: "THnSparseD \<Rightarrow> nat list \<Rightarrow> real" where
  "THnSparse_GetBinContent hist bins =
     (case map_of (fFilled hist) bins of None \<Rightarrow> 0 | Some c \<Rightarrow> c)"

section \<open>DISANAMath: kinematics\<close>

record TVector3 =
  fX :: real
  fY :: real
  fZ :: real

record TLorentzVector =
  fP :: TVector3
  fE :: real

definition vec3 :: "real \<Rightarrow> real \<Rightarrow> real \<Rightarrow> TVector3" where
  "vec3 x y z = \<lparr>fX = x, fY = y, fZ = z\<rparr>"

definition lorentz :: "real \<Rightarrow> real \<Rightarrow> real \<Rightarrow> real \<Rightarrow> TLorentzVector" where
  "lorentz x y z t = \<lparr>fP = vec3 x y z, fE = t\<rparr>"

definition Cross :: "TVector3 \<Rightarrow> TVector3 \<Rightarrow> TVector3" where
  "Cross a b = vec3 (fY a * fZ b - fY b * fZ a) (fZ a * fX b - fZ b * fX a)
                    (fX a * fY b - fX b * fY a)"

definition Dot3 :: "TVector3 \<Rightarrow> TVector3 \<Rightarrow> real" where
  "Dot3 a b = fX a * fX b + fY a * fY b + fZ a * fZ b"

definition Mag2_3 :: "TVector3 \<Rightarrow> real" where
  "Mag2_3 a = fX a * fX a + fY a * fY a + fZ a * fZ a"

text \<open>\<open>TVector3::Unit\<close> returns the vector itself when its length is 0.\<close>

definition Unit :: "TVector3 \<Rightarrow> TVector3" where
  "Unit a =
     (let tot2 = Mag2_3 a; tot = (if 0 < tot2 then 1 / sqrt tot2 else 1)
      in vec3 (fX a * tot) (fY a * tot) (fZ a * tot))"

definition lv_sub :: "TLorentzVector \<Rightarrow> TLorentzVector \<Rightarrow> TLorentzVector" where
  "lv_sub a b = \<lparr>fP = vec3 (fX (fP a) - fX (fP b)) (fY (fP a) - fY (fP b)) (fZ (fP a) - fZ (fP b)),
                fE = fE a - fE b\<rparr>"

definition lv_add :: "TLorentzVector \<Rightarrow> TLorentzVector \<Rightarrow> TLorentzVector" where
  "lv_add a b = \<lparr>fP = vec3 (fX (fP a) + fX (fP b)) (fY (fP a) + fY (fP b)) (fZ (fP a) + fZ (fP b)),
                fE = fE a + fE b\<rparr>"

definition Mag2 :: "TLorentzVector \<Rightarrow> real" where
  "Mag2 a = fE a * fE a - Mag2_3 (fP a)"

text \<open>\<open>TLorentzVector::Mag\<close> is the signed root: \<open>- sqrt (- m2)\<close> for a negative \<open>m2\<close>.\<close>

definition Mag :: "TLorentzVector \<Rightarrow> real" where
  "Mag a = (let mm = Mag2 a in if mm < 0 then - sqrt (- mm) else sqrt mm)"

definition Dot4 :: "TLorentzVector \<Rightarrow> TLorentzVector \<Rightarrow> real" where
  "Dot4 a b = fE a * fE b - Dot3 (fP a) (fP b)"

text \<open>
  \<open>std::atan2(y, x)\<close> on real numbers: the angle of the point \<open>(x, y)\<close> in \<open>(-pi, pi]\<close>,
  and 0 at the origin.
\<close>

definition atan2 :: "real \<Rightarrow> real \<Rightarrow> real" where
  "atan2 y x =
     (if 0 < x then arctan (y / x)
      else if x < 0 then (if 0 \<le> y then arctan (y / x) + pi else arctan (y / x) - pi)
      else if 0 < y then pi / 2
      else if y < 0 then - (pi / 2)
      else 0)"

definition m_e :: real where "m_e = 0.000511"
definition m_p :: real where "m_p = 0.938272"

definition SphericalToCartesian :: "real \<Rightarrow> real \<Rightarrow> real \<Rightarrow> TVector3" where
  "SphericalToCartesian p theta phi =
     vec3 (p * sin theta * cos phi) (p * sin theta * sin phi) (p * cos theta)"

definition Build4Vector :: "real \<Rightarrow> real \<Rightarrow> real \<Rightarrow> real \<Rightarrow> TLorentzVector" where
  "Build4Vector p theta phi mass =
     (let vec = SphericalToCartesian p theta phi
      in \<lparr>fP = vec, fE = sqrt (Mag2_3 vec + mass * mass)\<rparr>)"

text \<open>
  The members of \<open>DISANAMath\<close> that the first block of \<open>ComputeKinematics\<close> writes,
  and the two members of the correction. The exclusivity variables, which the second
  block of \<open>ComputeKinematics\<close> writes, are left out.
\<close>

record DISANAMath =
  Q2_m :: real
  xB_m :: real
  t_m :: real
  phi_deg_m :: real
  W_m :: real
  nu_m :: real
  y_m :: real
  applyCorrection :: bool
  correctionHist :: "THnSparseD option"

text \<open>\<open>DISANAMath() = default\<close>, with the members that have no initialiser set to 0.\<close>

definition DISANAMath_default :: DISANAMath where
  "DISANAMath_default =
     \<lparr>Q2_m = 0, xB_m = 0, t_m = 0, phi_deg_m = 0, W_m = 0, nu_m = 0, y_m = 0,
      applyCorrection = False, correctionHist = None\<rparr>"

definition SetApplyCorrPi0BKG :: "bool \<Rightarrow> DISANAMath \<Rightarrow> DISANAMath" where
  "SetApplyCorrPi0BKG enable self = self\<lparr>applyCorrection := enable\<rparr>"

definition SetCorrHist :: "THnSparseD option \<Rightarrow> DISANAMath \<Rightarrow> DISANAMath" where
  "SetCorrHist hist self = self\<lparr>correctionHist := hist\<rparr>"

definition ComputeKinematics ::
  "TLorentzVector \<Rightarrow> TLorentzVector \<Rightarrow> TLorentzVector \<Rightarrow> TLorentzVector \<Rightarrow> TLorentzVector
     \<Rightarrow> DISANAMath \<Rightarrow> DISANAMath" where
  "ComputeKinematics electron_in electron_out proton_in proton_out photon self =
     (let q = lv_sub electron_in electron_out;
          Q2 = - Mag2 q;
          nu = fE q;
          y = nu / fE electron_in;
          W = Mag (lv_add proton_in q);
          xB = Q2 / (2.0 * Dot4 proton_in q);
          t = \<bar>Mag2 (lv_sub proton_in proton_out)\<bar>;
          n_L = Unit (Cross (fP electron_in) (fP electron_out));
          n_H = Unit (Cross (fP q) (fP proton_out));
          cos_phi = Dot3 n_L n_H;
          sin_phi = Dot3 (Cross n_L n_H) (Unit (fP q));
          phi = atan2 sin_phi cos_phi + pi
      in self\<lparr>Q2_m := Q2, xB_m := xB, t_m := t, phi_deg_m := phi * 180.0 / pi,
              W_m := W, nu_m := nu, y_m := y\<rparr>)"

text \<open>The constructor from the measured momenta and angles.\<close>

definition DISANAMath_measured ::
  "real \<Rightarrow> real \<Rightarrow> real \<Rightarrow> real \<Rightarrow> real \<Rightarrow> real \<Rightarrow> real \<Rightarrow> real \<Rightarrow> real \<Rightarrow> real \<Rightarrow> DISANAMath" where
  "DISANAMath_measured e_in_E e_out_p e_out_theta e_out_phi p_out_p p_out_theta p_out_phi
       g_p g_theta g_phi =
     (let electron_in = lorentz 0 0 e_in_E e_in_E;
          electron_out = Build4Vector e_out_p e_out_theta e_out_phi m_e;
          proton_in = lorentz 0 0 0 m_p;
          proton_out = Build4Vector p_out_p p_out_theta p_out_phi m_p;
          photon = Build4Vector g_p g_theta g_phi 0.0
      in ComputeKinematics electron_in electron_out proton_in proton_out photon
           DISANAMath_default)"

section \<open>DISANAMath: the correction factor\<close>

definition GetCorrectionFactor :: "DISANAMath \<Rightarrow> real \<Rightarrow> real \<Rightarrow> real \<Rightarrow> real \<Rightarrow> real" where
  "GetCorrectionFactor self Q2 t xB phi_deg =
     (if \<not> applyCorrection self then 1.0
      else case correctionHist self of
        None \<Rightarrow> 1.0
      | Some hist \<Rightarrow>
          THnSparse_GetBinContent hist
            [TAxis_FindBin (axis0 hist) Q2, TAxis_FindBin (axis1 hist) t,
             TAxis_FindBin (axis2 hist) xB, TAxis_FindBin (axis3 hist) phi_deg])"

section \<open>DISANAMath: the cross-section histograms\<close>

text \<open>
  \<open>ComputeDVCS_CrossSection\<close> creates all its histograms itself and shares none of them,
  so the grid \<open>histograms[ix][iq][it]\<close> is modelled by value: a cell is \<open>None\<close> for
  \<open>nullptr\<close> and the histogram otherwise. The data frame is the list of its rows
  \<open>(Q2, t, xB, phi)\<close>, visited in order by \<open>Foreach\<close>.
\<close>

type_synonym hist_grid = "TH1D option list list list"

type_synonym event = "real \<times> real \<times> real \<times> real"

datatype failure = length_error

definition update_cell :: "hist_grid \<Rightarrow> nat \<Rightarrow> nat \<Rightarrow> nat \<Rightarrow> (TH1D \<Rightarrow> TH1D) \<Rightarrow> hist_grid" where
  "update_cell g ix iq it f =
     g[ix := (g ! ix)[iq := (g ! ix ! iq)[it := map_option f (g ! ix ! iq ! it)]]]"

text \<open>The lambda \<open>filler\<close>, called once for each row.\<close>

definition filler :: "DISANAMath \<Rightarrow> BinManager \<Rightarrow> hist_grid \<Rightarrow> event \<Rightarrow> hist_grid" where
  "filler self bins histograms row =
     (case row of (Q2, t, xB, phi) \<Rightarrow>
        (let iq = findBin Q2 (q2_bins_m bins);
             it = findBin t (t_bins_m bins);
             ix = findBin xB (xb_bins_m bins)
         in if iq \<ge> 0 \<and> it \<ge> 0 \<and> ix \<ge> 0
            then (let factor = (if applyCorrection self \<and> correctionHist self \<noteq> None
                                then GetCorrectionFactor self Q2 t xB phi else 1.0);
                      q2xBtbin_size = 1
                  in update_cell histograms (nat ix) (nat iq) (nat it)
                       (\<lambda>h. Fill h phi (factor / q2xBtbin_size)))
            else histograms))"

definition Foreach :: "DISANAMath \<Rightarrow> BinManager \<Rightarrow> event list \<Rightarrow> hist_grid \<Rightarrow> hist_grid" where
  "Foreach self bins df histograms = fold (\<lambda>row g. filler self bins g row) df histograms"

text \<open>The body of the normalisation loop for bin \<open>b\<close>, and the loop over \<open>b = 1 .. GetNbinsX\<close>.\<close>

definition normalise_bin :: "real \<Rightarrow> real \<Rightarrow> nat \<Rightarrow> TH1D \<Rightarrow> TH1D" where
  "normalise_bin luminosity bin_width b h =
     (let raw = GetBinContent h b;
          norm = raw / (luminosity * bin_width);
          err = sqrt raw / (luminosity * bin_width)
      in SetBinError (SetBinContent h b norm) b err)"

definition normalise_hist :: "real \<Rightarrow> real \<Rightarrow> TH1D \<Rightarrow> TH1D" where
  "normalise_hist luminosity bin_width h =
     fold (normalise_bin luminosity bin_width) [1..<GetNbinsX h + 1] h"

definition phi_min :: real where "phi_min = 0.0"
definition phi_max :: real where "phi_max = 360.0"
definition n_phi_bins :: nat where "n_phi_bins = 18"

text \<open>
  \<open>size() - 1\<close> is computed in \<open>size_t\<close>: for an empty vector of edges it wraps around
  to the largest value and the construction of \<open>histograms\<close> throws.
\<close>

definition empty_grid :: "BinManager \<Rightarrow> hist_grid" where
  "empty_grid bins =
     (let n_q2 = length (q2_bins_m bins) - 1;
          n_t = length (t_bins_m bins) - 1;
          n_xb = length (xb_bins_m bins) - 1
      in replicate n_xb (replicate n_q2
           (replicate n_t (Some (TH1D_new n_phi_bins phi_min phi_max)))))"

definition normalise_grid :: "real \<Rightarrow> hist_grid \<Rightarrow> hist_grid" where
  "normalise_grid luminosity histograms =
     (let bin_width = (phi_max - phi_min) / real n_phi_bins
      in map (map (map (map_option (normalise_hist luminosity bin_width)))) histograms)"

definition ComputeDVCS_CrossSection ::
  "DISANAMath \<Rightarrow> event list \<Rightarrow> BinManager \<Rightarrow> real \<Rightarrow> failure + hist_grid" where
  "ComputeDVCS_CrossSection self df bins luminosity =
     (if q2_bins_m bins = [] \<or> t_bins_m bins = [] \<or> xb_bins_m bins = [] then Inl length_error
      else Inr (normalise_grid luminosity (Foreach self bins df (empty_grid bins))))"

section \<open>DISANAMath: the background correction\<close>

text \<open>The body of the innermost loop of \<open>CalcPi0Corr\<close> for one cell of the four grids.\<close>

definition pi0_cell :: "TH1D option \<Rightarrow> TH1D option \<Rightarrow> TH1D option \<Rightarrow> TH1D option \<Rightarrow> TH1D option" where
  "pi0_cell h_dvcs_mc h_pi0_mc h_dvcs_data h_pi0_data =
     (case (h_dvcs_mc, h_pi0_mc, h_dvcs_data, h_pi0_data) of
        (Some dvcs_mc, Some pi0_mc, Some dvcs_data, Some pi0_data) \<Rightarrow>
          (let hRatio0 = Reset (Clone dvcs_mc);
               hRatio1 = Divide hRatio0 dvcs_mc pi0_mc;
               hRatio2 = Multiply hRatio1 hRatio1 pi0_data;
               hRatio3 = Divide hRatio2 hRatio2 dvcs_data
           in Some hRatio3)
      | _ \<Rightarrow> None)"

text \<open>
  The three loops of \<open>CalcPi0Corr\<close> over four grids. Every cell of \<open>hCorr\<close> is written
  at most once, from the cells with the same indices, so the order of the loops (\<open>t\<close>
  outermost in the source) does not show in the result.
\<close>

definition pi0_grid ::
  "nat \<Rightarrow> nat \<Rightarrow> nat \<Rightarrow> hist_grid \<Rightarrow> hist_grid \<Rightarrow> hist_grid \<Rightarrow> hist_grid \<Rightarrow> hist_grid" where
  "pi0_grid n_xb n_q2 n_t mc_dvcs mc_pi0 data_dvcs data_pi0 =
     map (\<lambda>xb_bin. map (\<lambda>q2_bin. map (\<lambda>t_bin.
            pi0_cell (mc_dvcs ! xb_bin ! q2_bin ! t_bin) (mc_pi0 ! xb_bin ! q2_bin ! t_bin)
                     (data_dvcs ! xb_bin ! q2_bin ! t_bin) (data_pi0 ! xb_bin ! q2_bin ! t_bin))
          [0..<n_t]) [0..<n_q2]) [0..<n_xb]"

definition CalcPi0Corr ::
  "event list \<Rightarrow> event list \<Rightarrow> event list \<Rightarrow> event list \<Rightarrow> BinManager \<Rightarrow> failure + hist_grid" where
  "CalcPi0Corr df_dvcs_mc df_pi0_mc df_dvcs_data df_pi0_data xBins =
     (let n_t = length (t_bins_m xBins) - 1;
          n_q2 = length (q2_bins_m xBins) - 1;
          n_xb = length (xb_bins_m xBins) - 1;
          pi0Corr = DISANAMath_default
      in case ComputeDVCS_CrossSection pi0Corr df_dvcs_mc xBins 1 of Inl e \<Rightarrow> Inl e
         | Inr mc_dvcs \<Rightarrow>
        (case ComputeDVCS_CrossSection pi0Corr df_pi0_mc xBins 1 of Inl e \<Rightarrow> Inl e
         | Inr mc_pi0 \<Rightarrow>
        (case ComputeDVCS_CrossSection pi0Corr df_dvcs_data xBins 1 of Inl e \<Rightarrow> Inl e
         | Inr data_dvcs \<Rightarrow>
        (case ComputeDVCS_CrossSection pi0Corr df_pi0_data xBins 1 of Inl e \<Rightarrow> Inl e
         | Inr data_pi0 \<Rightarrow>
            Inr (pi0_grid n_xb n_q2 n_t mc_dvcs mc_pi0 data_dvcs data_pi0)))))"

section \<open>DISANAMath: the beam-spin asymmetry\<close>

text \<open>
  \<open>ComputeBeamSpinAsymmetry\<close> receives grids of pointers to histograms that its caller
  owns, and allocates the histograms of its result. The store \<open>heap\<close> holds every
  histogram object; a pointer is \<open>None\<close> for \<open>nullptr\<close> or the position of the object
  in the store, and an allocation appends to the store. \<open>cerr\<close> and \<open>cout\<close> are the
  lines written to the two streams. The function is \<open>None\<close> when the program
  dereferences a pointer that is neither null nor in the store.
\<close>

type_synonym hist_ptr = "nat option"

type_synonym ptr_grid = "hist_ptr list list list"

datatype diagnostic =
    xB_dim_mismatch
  | Q2_dim_mismatch nat
  | t_dim_mismatch nat nat
  | null_hist nat nat nat

record world =
  heap :: "TH1D list"
  cerr :: "diagnostic list"
  cout :: "string list"

datatype 'a progress = Returned_empty | Completed 'a

definition deref :: "TH1D list \<Rightarrow> nat \<Rightarrow> TH1D option" where
  "deref hp a = (if a < length hp then Some (hp ! a) else None)"

text \<open>The body of the loop over the bins \<open>b\<close> of one pair of histograms, and the loop.\<close>

definition bsa_bin :: "TH1D \<Rightarrow> TH1D \<Rightarrow> real \<Rightarrow> nat \<Rightarrow> TH1D \<Rightarrow> TH1D" where
  "bsa_bin hp hm pol b ha =
     (let Np = GetBinContent hp b; Nm = GetBinContent hm b;
          Ep = GetBinError hp b; Em = GetBinError hm b;
          den = Np + Nm; num = Np - Nm;
          A = (if den \<noteq> 0 then num / den else 0.0);
          E = (if den \<noteq> 0
               then 2.0 / (den * den) * sqrt ((Nm * Ep)\<^sup>2 + (Np * Em)\<^sup>2) else 0.0)
      in SetBinError (SetBinContent ha b (A / pol)) b (E / pol))"

definition bsa_hist :: "TH1D \<Rightarrow> TH1D \<Rightarrow> real \<Rightarrow> TH1D" where
  "bsa_hist hp hm pol = fold (bsa_bin hp hm pol) [1..<GetNbinsX hp + 1] (Reset (Clone hp))"

text \<open>The body of the loop over \<open>it\<close>: one cell of the two grids.\<close>

definition bsa_cell ::
  "nat \<Rightarrow> nat \<Rightarrow> nat \<Rightarrow> hist_ptr \<Rightarrow> hist_ptr \<Rightarrow> real \<Rightarrow> world \<Rightarrow> (world \<times> hist_ptr) option" where
  "bsa_cell ix iq it hp hm pol w =
     (case (hp, hm) of
        (Some ap, Some am) \<Rightarrow>
          (case (deref (heap w) ap, deref (heap w) am) of
             (Some hpos, Some hneg) \<Rightarrow>
               Some (w\<lparr>heap := heap w @ [bsa_hist hpos hneg pol]\<rparr>, Some (length (heap w)))
           | _ \<Rightarrow> None)
      | _ \<Rightarrow> Some (w\<lparr>cerr := cerr w @ [null_hist ix iq it]\<rparr>, None))"

text \<open>
  The loops over \<open>it\<close>, \<open>iq\<close> and \<open>ix\<close>. Each runs over the two vectors side by side,
  after the test that they have the same size, and counts the index. A size mismatch
  writes its line and leaves the whole function with \<open>return {}\<close>.
\<close>

fun bsa_loop_t ::
  "nat \<Rightarrow> nat \<Rightarrow> nat \<Rightarrow> (hist_ptr \<times> hist_ptr) list \<Rightarrow> real \<Rightarrow> world
     \<Rightarrow> (world \<times> hist_ptr list) option" where
  "bsa_loop_t ix iq it [] pol w = Some (w, [])"
| "bsa_loop_t ix iq it ((hp, hm) # rest) pol w =
     (case bsa_cell ix iq it hp hm pol w of
        None \<Rightarrow> None
      | Some (w1, ha) \<Rightarrow>
          (case bsa_loop_t ix iq (Suc it) rest pol w1 of
             None \<Rightarrow> None
           | Some (w2, has) \<Rightarrow> Some (w2, ha # has)))"

fun bsa_loop_q ::
  "nat \<Rightarrow> nat \<Rightarrow> (hist_ptr list \<times> hist_ptr list) list \<Rightarrow> real \<Rightarrow> world
     \<Rightarrow> (world \<times> hist_ptr list list progress) option" where
  "bsa_loop_q ix iq [] pol w = Some (w, Completed [])"
| "bsa_loop_q ix iq ((pos, neg) # rest) pol w =
     (if length pos \<noteq> length neg
      then Some (w\<lparr>cerr := cerr w @ [t_dim_mismatch ix iq]\<rparr>, Returned_empty)
      else case bsa_loop_t ix iq 0 (zip pos neg) pol w of
             None \<Rightarrow> None
           | Some (w1, row) \<Rightarrow>
               (case bsa_loop_q ix (Suc iq) rest pol w1 of
                  None \<Rightarrow> None
                | Some (w2, Returned_empty) \<Rightarrow> Some (w2, Returned_empty)
                | Some (w2, Completed rows) \<Rightarrow> Some (w2, Completed (row # rows))))"

fun bsa_loop_x ::
  "nat \<Rightarrow> (hist_ptr list list \<times> hist_ptr list list) list \<Rightarrow> real \<Rightarrow> world
     \<Rightarrow> (world \<times> ptr_grid progress) option" where
  "bsa_loop_x ix [] pol w = Some (w, Completed [])"
| "bsa_loop_x ix ((pos, neg) # rest) pol w =
     (if length pos \<noteq> length neg
      then Some (w\<lparr>cerr := cerr w @ [Q2_dim_mismatch ix]\<rparr>, Returned_empty)
      else case bsa_loop_q ix 0 (zip pos neg) pol w of
             None \<Rightarrow> None
           | Some (w1, Returned_empty) \<Rightarrow> Some (w1, Returned_empty)
           | Some (w1, Completed plane) \<Rightarrow>
               (case bsa_loop_x (Suc ix) rest pol w1 of
                  None \<Rightarrow> None
                | Some (w2, Returned_empty) \<Rightarrow> Some (w2, Returned_empty)
                | Some (w2, Completed planes) \<Rightarrow> Some (w2, Completed (plane # planes))))"

definition ComputeBeamSpinAsymmetry ::
  "ptr_grid \<Rightarrow> ptr_grid \<Rightarrow> real \<Rightarrow> world \<Rightarrow> (world \<times> ptr_grid) option" where
  "ComputeBeamSpinAsymmetry sigma_pos sigma_neg pol w =
     (if length sigma_pos \<noteq> length sigma_neg
      then Some (w\<lparr>cerr := cerr w @ [xB_dim_mismatch]\<rparr>, [])
      else case bsa_loop_x 0 (zip sigma_pos sigma_neg) pol w of
             None \<Rightarrow> None
           | Some (w1, Returned_empty) \<Rightarrow> Some (w1, [])
           | Some (w1, Completed asym_grid) \<Rightarrow>
               Some (w1\<lparr>cout := cout w1 @ [''Beam-Spin Asymmetries (3D) computed.'']\<rparr>, asym_grid))"

text \<open>
  The pointers of a grid that are not null point into the store; the histograms of a grid
  that is passed in satisfy this when the call starts.
\<close>

definition ptr_ok :: "TH1D list \<Rightarrow> hist_ptr \<Rightarrow> bool" where
  "ptr_ok hp p = (case p of None \<Rightarrow> True | Some a \<Rightarrow> a < length hp)"

definition grid_ok :: "TH1D list \<Rightarrow> ptr_grid \<Rightarrow> bool" where
  "grid_ok hp g = list_all (list_all (list_all (ptr_ok hp))) g"

definition shape :: "'a list list list \<Rightarrow> nat list list" where
  "shape g = map (map length) g"

section \<open>Notions used in the statements about the histograms\<close>

text \<open>A histogram has a content and a squared-weight cell for each bin, plus two.\<close>

definition hist_inv :: "TH1D \<Rightarrow> bool" where
  "hist_inv h \<longleftrightarrow> length (fArray h) = GetNbinsX h + 2 \<and> length (fSumw2 h) = GetNbinsX h + 2"

text \<open>The axis of every histogram that \<open>ComputeDVCS_CrossSection\<close> creates.\<close>

definition phi_axis :: TAxis where
  "phi_axis = \<lparr>fNbins = n_phi_bins, fXmin = phi_min, fXmax = phi_max, fXbins = []\<rparr>"

text \<open>
  The weight with which \<open>filler\<close> fills an event: the event weight of the source is 1,
  times the correction factor.
\<close>

definition event_weight :: "DISANAMath \<Rightarrow> event \<Rightarrow> real" where
  "event_weight self e = (case e of (Q2, t, xB, phi) \<Rightarrow> GetCorrectionFactor self Q2 t xB phi)"

text \<open>
  The event falls into grid cell \<open>[ix][iq][it]\<close>, as \<open>findBin\<close> decides for its three
  classifier values, and into bin \<open>b\<close> of the axis of the angle.
\<close>

definition in_cell :: "BinManager \<Rightarrow> nat \<Rightarrow> nat \<Rightarrow> nat \<Rightarrow> event \<Rightarrow> bool" where
  "in_cell bins ix iq it e =
     (case e of (Q2, t, xB, phi) \<Rightarrow>
        findBin Q2 (q2_bins_m bins) = int iq \<and> findBin t (t_bins_m bins) = int it \<and>
        findBin xB (xb_bins_m bins) = int ix)"

definition in_bin :: "nat \<Rightarrow> event \<Rightarrow> bool" where
  "in_bin b e = (case e of (Q2, t, xB, phi) \<Rightarrow> TAxis_FindBin phi_axis phi = b)"

text \<open>The sums of the weights and of their squares over the events of one bin of one cell.\<close>

definition sum_weights :: "DISANAMath \<Rightarrow> BinManager \<Rightarrow> nat \<Rightarrow> nat \<Rightarrow> nat \<Rightarrow> nat \<Rightarrow> event list \<Rightarrow> real" where
  "sum_weights self bins ix iq it b df =
     sum_list (map (event_weight self) (filter (\<lambda>e. in_cell bins ix iq it e \<and> in_bin b e) df))"

definition sum_squared_weights ::
  "DISANAMath \<Rightarrow> BinManager \<Rightarrow> nat \<Rightarrow> nat \<Rightarrow> nat \<Rightarrow> nat \<Rightarrow> event list \<Rightarrow> real" where
  "sum_squared_weights self bins ix iq it b df =
     sum_list (map (\<lambda>e. event_weight self e * event_weight self e)
                 (filter (\<lambda>e. in_cell bins ix iq it e \<and> in_bin b e) df))"

text \<open>What one call of \<open>filler\<close> does to the histogram of cell \<open>[ix][iq][it]\<close>.\<close>

definition cell_step :: "DISANAMath \<Rightarrow> BinManager \<Rightarrow> nat \<Rightarrow> nat \<Rightarrow> nat \<Rightarrow> event \<Rightarrow> TH1D \<Rightarrow> TH1D" where
  "cell_step self bins ix iq it e h =
     (if in_cell bins ix iq it e then Fill h (snd (snd (snd e))) (event_weight self e) else h)"

text \<open>The three sizes of a grid.\<close>

definition dims :: "'a list list list \<Rightarrow> nat \<Rightarrow> nat \<Rightarrow> nat \<Rightarrow> bool" where
  "dims g nx nq nt \<longleftrightarrow>
     length g = nx \<and> (\<forall>i<nx. length (g ! i) = nq \<and> (\<forall>j<nq. length (g ! i ! j) = nt))"

text \<open>
  Reading a returned grid: \<open>grid[ix][iq][it]\<close>, and \<open>GetBinContent(b)\<close> and
  \<open>GetBinError(b)\<close> of that histogram; \<open>None\<close> when there is no such histogram.
\<close>

definition cell_at :: "failure + hist_grid \<Rightarrow> nat \<Rightarrow> nat \<Rightarrow> nat \<Rightarrow> TH1D option" where
  "cell_at r ix iq it =
     (case r of
        Inl _ \<Rightarrow> None
      | Inr g \<Rightarrow> if ix < length g \<and> iq < length (g ! ix) \<and> it < length (g ! ix ! iq)
                 then g ! ix ! iq ! it else None)"

definition bin_content_at :: "failure + hist_grid \<Rightarrow> nat \<Rightarrow> nat \<Rightarrow> nat \<Rightarrow> nat \<Rightarrow> real option" where
  "bin_content_at r ix iq it b = map_option (\<lambda>h. GetBinContent h b) (cell_at r ix iq it)"

definition bin_error_at :: "failure + hist_grid \<Rightarrow> nat \<Rightarrow> nat \<Rightarrow> nat \<Rightarrow> nat \<Rightarrow> real option" where
  "bin_error_at r ix iq it b = map_option (\<lambda>h. GetBinError h b) (cell_at r ix iq it)"

text \<open>
  An example of a correction: a table of one cell over \<open>[0, 10) \<times> [0, 1) \<times> [0, 1) \<times>
  [0, 360)\<close> that holds the factor 4, switched on.
\<close>

definition one_bin_axis :: "real \<Rightarrow> TAxis" where
  "one_bin_axis hi = \<lparr>fNbins = 1, fXmin = 0, fXmax = hi, fXbins = []\<rparr>"

definition factor_four :: DISANAMath where
  "factor_four = SetCorrHist (Some \<lparr>axis0 = one_bin_axis 10, axis1 = one_bin_axis 1,
       axis2 = one_bin_axis 1, axis3 = one_bin_axis 360, fFilled = [([1, 1, 1, 1], 4)]\<rparr>)
     (SetApplyCorrPi0BKG True DISANAMath_default)"

text \<open>An example of a correction that is switched on with a table that has no filled cell.\<close>

definition empty_table_correction :: DISANAMath where
  "empty_table_correction = SetCorrHist (Some \<lparr>axis0 = one_bin_axis 10, axis1 = one_bin_axis 1,
       axis2 = one_bin_axis 1, axis3 = one_bin_axis 360, fFilled = []\<rparr>)
     (SetApplyCorrPi0BKG True DISANAMath_default)"

section \<open>Notions used in the statements about the asymmetry\<close>

text \<open>
  The asymmetry and its propagated uncertainty as the specification writes them, from
  the two contents \<open>Np\<close>, \<open>Nm\<close> and the two uncertainties \<open>Ep\<close>, \<open>Em\<close> of a bin.
\<close>

definition asymmetry :: "real \<Rightarrow> real \<Rightarrow> real" where
  "asymmetry Np Nm = (if Np + Nm = 0 then 0 else (Np - Nm) / (Np + Nm))"

definition asymmetry_error :: "real \<Rightarrow> real \<Rightarrow> real \<Rightarrow> real \<Rightarrow> real" where
  "asymmetry_error Np Nm Ep Em =
     (if Np + Nm = 0 then 0
      else 2 / (Np + Nm)\<^sup>2 * sqrt ((Nm * Ep)\<^sup>2 + (Np * Em)\<^sup>2))"

text \<open>
  The pointer \<open>ha\<close> that the cell of \<open>hp\<close> and \<open>hm\<close> receives, read against the store
  \<open>h0\<close> of the caller and the store \<open>h'\<close> after the call: null when one of the two is
  null, and otherwise an object outside \<open>h0\<close> that holds the asymmetry histogram of the
  two objects.
\<close>

definition cell_result ::
  "TH1D list \<Rightarrow> TH1D list \<Rightarrow> real \<Rightarrow> hist_ptr \<Rightarrow> hist_ptr \<Rightarrow> hist_ptr \<Rightarrow> bool" where
  "cell_result h0 h' pol hp hm ha =
     (case (hp, hm) of
        (Some ap, Some am) \<Rightarrow>
          (\<exists>a. ha = Some a \<and> length h0 \<le> a \<and> a < length h' \<and>
               h' ! a = bsa_hist (h0 ! ap) (h0 ! am) pol)
      | _ \<Rightarrow> ha = None)"

text \<open>The same for a row, a plane and a grid of cells, which must have the same sizes.\<close>

definition row_result ::
  "TH1D list \<Rightarrow> TH1D list \<Rightarrow> real \<Rightarrow> hist_ptr list \<Rightarrow> hist_ptr list \<Rightarrow> hist_ptr list
     \<Rightarrow> bool" where
  "row_result h0 h' pol pos neg row \<longleftrightarrow>
     length pos = length neg \<and> length row = length pos \<and>
     (\<forall>i<length pos. cell_result h0 h' pol (pos ! i) (neg ! i) (row ! i))"

definition plane_result ::
  "TH1D list \<Rightarrow> TH1D list \<Rightarrow> real \<Rightarrow> hist_ptr list list \<Rightarrow> hist_ptr list list
     \<Rightarrow> hist_ptr list list \<Rightarrow> bool" where
  "plane_result h0 h' pol pos neg plane \<longleftrightarrow>
     length pos = length neg \<and> length plane = length pos \<and>
     (\<forall>j<length pos. row_result h0 h' pol (pos ! j) (neg ! j) (plane ! j))"

definition grid_result ::
  "TH1D list \<Rightarrow> TH1D list \<Rightarrow> real \<Rightarrow> ptr_grid \<Rightarrow> ptr_grid \<Rightarrow> ptr_grid \<Rightarrow> bool" where
  "grid_result h0 h' pol pos neg g \<longleftrightarrow>
     length pos = length neg \<and> length g = length pos \<and>
     (\<forall>k<length pos. plane_result h0 h' pol (pos ! k) (neg ! k) (g ! k))"

text \<open>
  The error line names a place where the two grids differ in size: the outer size for
  \<open>xB\<close>, the size of plane \<open>ix\<close> for \<open>Q2\<close>, the size of row \<open>iq\<close> of plane \<open>ix\<close>
  for \<open>t\<close>.
\<close>

definition reports_mismatch :: "ptr_grid \<Rightarrow> ptr_grid \<Rightarrow> diagnostic \<Rightarrow> bool" where
  "reports_mismatch pos neg e =
     (case e of
        xB_dim_mismatch \<Rightarrow> length pos \<noteq> length neg
      | Q2_dim_mismatch ix \<Rightarrow>
          length pos = length neg \<and> ix < length pos \<and> length (pos ! ix) \<noteq> length (neg ! ix)
      | t_dim_mismatch ix iq \<Rightarrow>
          length pos = length neg \<and> ix < length pos \<and>
          length (pos ! ix) = length (neg ! ix) \<and> iq < length (pos ! ix) \<and>
          length (pos ! ix ! iq) \<noteq> length (neg ! ix ! iq)
      | null_hist _ _ _ \<Rightarrow> False)"

text \<open>A line of \<open>cerr\<close> that is a warning about a null histogram, not an error.\<close>

definition is_warning :: "diagnostic \<Rightarrow> bool" where
  "is_warning d = (case d of null_hist _ _ _ \<Rightarrow> True | _ \<Rightarrow> False)"

text \<open>
  Reading the result of \<open>ComputeBeamSpinAsymmetry\<close>: \<open>GetBinError(b)\<close> of the histogram
  that cell \<open>[ix][iq][it]\<close> of the returned grid points to; \<open>None\<close> when there is none.
\<close>

definition asym_bin_error ::
  "(world \<times> ptr_grid) option \<Rightarrow> nat \<Rightarrow> nat \<Rightarrow> nat \<Rightarrow> nat \<Rightarrow> real option" where
  "asym_bin_error r ix iq it b =
     (case r of
        None \<Rightarrow> None
      | Some (w', g) \<Rightarrow>
          if ix < length g \<and> iq < length (g ! ix) \<and> it < length (g ! ix ! iq)
          then (case g ! ix ! iq ! it of
                  None \<Rightarrow> None
                | Some a \<Rightarrow> if a < length (heap w') then Some (GetBinError (heap w' ! a) b)
                            else None)
          else None)"

text \<open>
  An example of a store: a histogram of two bins over \<open>[0, 360)\<close> with one entry of
  weight 1 in its first bin, and an empty one.
\<close>

definition example_world :: world where
  "example_world =
     \<lparr>heap = [Fill (TH1D_new 2 0 360) 10 1, TH1D_new 2 0 360], cerr = [], cout = []\<rparr>"

section \<open>The search for a bin\<close>

lemma upper_bound_le: "upper_bound edges v \<le> length edges"
  by (simp add: upper_bound_def length_takeWhile_le)

lemma upper_bound_below: "i < upper_bound edges v \<Longrightarrow> edges ! i \<le> v"
  unfolding upper_bound_def
  using nth_length_takeWhile takeWhile_nth nth_mem set_takeWhileD
  by (metis (no_types, lifting) not_le)

lemma upper_bound_at: "upper_bound edges v < length edges \<Longrightarrow> v < edges ! upper_bound edges v"
  unfolding upper_bound_def using nth_length_takeWhile by blast

lemma upper_bound_above:
  assumes "sorted_wrt (<) edges" "upper_bound edges v \<le> j" "j < length edges"
  shows "v < edges ! j"
proof -
  have k: "upper_bound edges v < length edges" using assms by simp
  show ?thesis
  proof (cases "upper_bound edges v = j")
    case True then show ?thesis using upper_bound_at [OF k] by simp
  next
    case False
    then have "upper_bound edges v < j" using assms by simp
    then have "edges ! upper_bound edges v < edges ! j"
      using assms sorted_wrt_nth_less by blast
    then show ?thesis using upper_bound_at [OF k] by simp
  qed
qed

lemma findBin_range: "findBin v edges = - 1 \<or> (0 \<le> findBin v edges \<and> findBin v edges < int (length edges) - 1)"
  using upper_bound_le [of edges v] by (auto simp: findBin_def Let_def)

text \<open>
  Claim C1. For strictly increasing edges with at least two values and every real
  \<open>v\<close>, \<open>findBin v edges\<close> is the marker \<open>-1\<close> exactly when \<open>v\<close> is below the first
  edge or not below the last one; otherwise it is the one index \<open>i\<close> with
  \<open>edges ! i \<le> v < edges ! (i + 1)\<close>. An event with the marker for one of its three
  classifier values leaves every histogram as it was: it is not put into a bin at the
  border.
\<close>

theorem findBin_locates:
  assumes "sorted_wrt (<) edges" and "2 \<le> length edges"
  shows "(findBin v edges = - 1 \<longleftrightarrow> v < edges ! 0 \<or> edges ! (length edges - 1) \<le> v) \<and>
         (findBin v edges \<noteq> - 1 \<longrightarrow>
            (\<exists>i. findBin v edges = int i \<and> i + 1 < length edges \<and>
                 edges ! i \<le> v \<and> v < edges ! (i + 1) \<and>
                 (\<forall>j. j + 1 < length edges \<and> edges ! j \<le> v \<and> v < edges ! (j + 1) \<longrightarrow> j = i))) \<and>
         (findBin v edges = - 1 \<longrightarrow>
            filler self (bins\<lparr>q2_bins_m := edges\<rparr>) g (v, t, xB, phi) = g \<and>
            filler self (bins\<lparr>t_bins_m := edges\<rparr>) g (Q2, v, xB, phi) = g \<and>
            filler self (bins\<lparr>xb_bins_m := edges\<rparr>) g (Q2, t, v, phi) = g)"
proof -
  define k where "k = upper_bound edges v"
  have kle: "k \<le> length edges" unfolding k_def by (rule upper_bound_le)
  have below: "\<And>i. i < k \<Longrightarrow> edges ! i \<le> v" unfolding k_def by (rule upper_bound_below)
  have above: "\<And>j. k \<le> j \<Longrightarrow> j < length edges \<Longrightarrow> v < edges ! j"
    unfolding k_def using upper_bound_above [OF assms(1)] by blast
  have fb: "findBin v edges = (if k = 0 \<or> k = length edges then - 1 else int k - 1)"
    by (simp add: findBin_def k_def)
  have m1: "findBin v edges = - 1 \<longleftrightarrow> k = 0 \<or> k = length edges"
    using fb by auto
  have a: "k = 0 \<longleftrightarrow> v < edges ! 0"
  proof
    assume "k = 0"
    moreover have "0 < length edges" using assms(2) by (cases edges) auto
    ultimately show "v < edges ! 0" using above [of 0] by simp
  next
    assume "v < edges ! 0" then show "k = 0" using below [of 0] by fastforce
  qed
  have b: "k = length edges \<longleftrightarrow> edges ! (length edges - 1) \<le> v"
  proof
    assume "k = length edges" then show "edges ! (length edges - 1) \<le> v"
      using below [of "length edges - 1"] assms(2) by simp
  next
    assume h: "edges ! (length edges - 1) \<le> v"
    show "k = length edges"
    proof (rule ccontr)
      assume "k \<noteq> length edges"
      then have "v < edges ! (length edges - 1)"
        using above [of "length edges - 1"] kle assms(2) by simp
      with h show False by simp
    qed
  qed
  have part1: "findBin v edges = - 1 \<longleftrightarrow> v < edges ! 0 \<or> edges ! (length edges - 1) \<le> v"
    using m1 a b by simp
  have part2: "\<exists>i. findBin v edges = int i \<and> i + 1 < length edges \<and>
                 edges ! i \<le> v \<and> v < edges ! (i + 1) \<and>
                 (\<forall>j. j + 1 < length edges \<and> edges ! j \<le> v \<and> v < edges ! (j + 1) \<longrightarrow> j = i)"
    if nm: "findBin v edges \<noteq> - 1"
  proof -
    from nm m1 have k0: "k \<noteq> 0" and kl: "k \<noteq> length edges" by auto
    then have kpos: "0 < k" and klt: "k < length edges" using kle by auto
    have v1: "findBin v edges = int (k - 1)" using fb k0 kl kpos by (simp add: of_nat_diff)
    have v2: "(k - 1) + 1 < length edges" using kpos klt by simp
    have v3: "edges ! (k - 1) \<le> v" using below [of "k - 1"] kpos by simp
    have v4: "v < edges ! ((k - 1) + 1)" using above [of k] klt kpos by simp
    have v5: "j = k - 1" if "j + 1 < length edges \<and> edges ! j \<le> v \<and> v < edges ! (j + 1)" for j
    proof -
      have "j < k"
      proof (rule ccontr)
        assume "\<not> j < k"
        then have "v < edges ! j" using above [of j] that by simp
        with that show False by simp
      qed
      moreover have "k \<le> j + 1"
      proof (rule ccontr)
        assume "\<not> k \<le> j + 1"
        then have "edges ! (j + 1) \<le> v" using below [of "j + 1"] by simp
        with that show False by simp
      qed
      ultimately show ?thesis by simp
    qed
    show ?thesis using v1 v2 v3 v4 v5 by blast
  qed
  have part3: "filler self (bins\<lparr>q2_bins_m := edges\<rparr>) g (v, t, xB, phi) = g \<and>
            filler self (bins\<lparr>t_bins_m := edges\<rparr>) g (Q2, v, xB, phi) = g \<and>
            filler self (bins\<lparr>xb_bins_m := edges\<rparr>) g (Q2, t, v, phi) = g"
    if "findBin v edges = - 1"
    using that by (simp add: filler_def Let_def)
  show ?thesis using part1 part2 part3 by blast
qed

theorem findBin_locates_witness:
  "sorted_wrt (<) [1, 2, 4, 6 :: real] \<and> 2 \<le> length [1, 2, 4, 6 :: real] \<and>
   findBin 6 [1, 2, 4, 6] = - 1 \<and> findBin (1 / 2) [1, 2, 4, 6] = - 1 \<and>
   (\<exists>i. findBin 3 [1, 2, 4, 6] = int i \<and> i + 1 < length [1, 2, 4, 6 :: real] \<and>
        [1, 2, 4, 6] ! i \<le> (3 :: real) \<and> (3 :: real) < [1, 2, 4, 6] ! (i + 1))"
proof -
  have s: "sorted_wrt (<) [1, 2, 4, 6 :: real]" by simp
  have l: "2 \<le> length [1, 2, 4, 6 :: real]" by simp
  have a: "findBin 6 [1, 2, 4, 6] = - 1"
    using findBin_locates [OF s l, of 6] by simp
  have b: "findBin (1 / 2) [1, 2, 4, 6] = - 1"
    using findBin_locates [OF s l, of "1 / 2"] by simp
  have "findBin 3 [1, 2, 4, 6] \<noteq> - 1"
    using findBin_locates [OF s l, of 3] by simp
  then have c: "\<exists>i. findBin 3 [1, 2, 4, 6] = int i \<and> i + 1 < length [1, 2, 4, 6 :: real] \<and>
        [1, 2, 4, 6] ! i \<le> (3 :: real) \<and> (3 :: real) < [1, 2, 4, 6] ! (i + 1)"
    using findBin_locates [OF s l, of 3] by blast
  show ?thesis using s l a b c by blast
qed

section \<open>Accumulation and normalisation\<close>

lemma hist_inv_new: "hist_inv (TH1D_new n lo hi)"
  by (simp add: hist_inv_def TH1D_new_def GetNbinsX_def)

lemma Fill_axis: "fXaxis (Fill h x w) = fXaxis h"
  by (simp add: Fill_def Let_def)

lemma Fill_inv: "hist_inv h \<Longrightarrow> hist_inv (Fill h x w)"
  by (simp add: hist_inv_def Fill_def Let_def GetNbinsX_def)

lemma Fill_content:
  "b < length (fArray h) \<Longrightarrow>
   fArray (Fill h x w) ! b = fArray h ! b + (if TAxis_FindBin (fXaxis h) x = b then w else 0)"
  by (simp add: Fill_def Let_def nth_list_update)

lemma Fill_sumw2:
  "b < length (fSumw2 h) \<Longrightarrow>
   fSumw2 (Fill h x w) ! b = fSumw2 h ! b + (if TAxis_FindBin (fXaxis h) x = b then w * w else 0)"
  by (simp add: Fill_def Let_def nth_list_update)

lemma GetBinContent_in: "b < length (fArray h) \<Longrightarrow> GetBinContent h b = fArray h ! b"
proof -
  assume "b < length (fArray h)"
  then have "min b (length (fArray h) - 1) = b" by arith
  then show ?thesis by (simp add: GetBinContent_def)
qed

lemma GetBinError_in: "b < length (fSumw2 h) \<Longrightarrow> GetBinError h b = sqrt (fSumw2 h ! b)"
proof -
  assume "b < length (fSumw2 h)"
  then have "min b (length (fSumw2 h) - 1) = b" by arith
  then show ?thesis by (simp add: GetBinError_def)
qed

lemma normalise_bin_axis: "fXaxis (normalise_bin L bw b h) = fXaxis h"
  by (simp add: normalise_bin_def Let_def SetBinError_def SetBinContent_def)

lemma normalise_bin_len:
  "length (fArray (normalise_bin L bw b h)) = length (fArray h)"
  "length (fSumw2 (normalise_bin L bw b h)) = length (fSumw2 h)"
  by (simp_all add: normalise_bin_def Let_def SetBinError_def SetBinContent_def)

lemma normalise_bin_content:
  "b < length (fArray h) \<Longrightarrow> j < length (fArray h) \<Longrightarrow>
   fArray (normalise_bin L bw b h) ! j = (if j = b then fArray h ! j / (L * bw) else fArray h ! j)"
  by (simp add: normalise_bin_def Let_def SetBinError_def SetBinContent_def GetBinContent_in
      nth_list_update)

lemma normalise_bin_sumw2:
  "b < length (fArray h) \<Longrightarrow> j < length (fSumw2 h) \<Longrightarrow>
   fSumw2 (normalise_bin L bw b h) ! j =
     (if j = b then (sqrt (fArray h ! j) / (L * bw)) * (sqrt (fArray h ! j) / (L * bw))
      else fSumw2 h ! j)"
  by (simp add: normalise_bin_def Let_def SetBinError_def SetBinContent_def GetBinContent_in
      nth_list_update)

lemma fold_normalise_bin:
  "distinct bs \<Longrightarrow> \<forall>b\<in>set bs. b < length (fArray h) \<Longrightarrow>
   length (fSumw2 h) = length (fArray h) \<Longrightarrow>
   fXaxis (fold (normalise_bin L bw) bs h) = fXaxis h \<and>
   length (fArray (fold (normalise_bin L bw) bs h)) = length (fArray h) \<and>
   length (fSumw2 (fold (normalise_bin L bw) bs h)) = length (fArray h) \<and>
   (\<forall>j < length (fArray h).
      fArray (fold (normalise_bin L bw) bs h) ! j =
        (if j \<in> set bs then fArray h ! j / (L * bw) else fArray h ! j) \<and>
      fSumw2 (fold (normalise_bin L bw) bs h) ! j =
        (if j \<in> set bs then (sqrt (fArray h ! j) / (L * bw)) * (sqrt (fArray h ! j) / (L * bw))
         else fSumw2 h ! j))"
proof (induction bs arbitrary: h)
  case Nil
  then show ?case by simp
next
  case (Cons b bs)
  let ?h1 = "normalise_bin L bw b h"
  have b: "b < length (fArray h)" using Cons.prems by simp
  have l1: "length (fArray ?h1) = length (fArray h)" "length (fSumw2 ?h1) = length (fArray h)"
    using Cons.prems by (simp_all add: normalise_bin_len)
  have d: "distinct bs" and nb: "b \<notin> set bs" using Cons.prems by simp_all
  have r: "\<forall>b\<in>set bs. b < length (fArray ?h1)" using Cons.prems l1 by simp
  have s: "length (fSumw2 ?h1) = length (fArray ?h1)" using l1 by simp
  note IH = Cons.IH [OF d r s]
  show ?case
  proof (intro conjI allI impI)
    show "fXaxis (fold (normalise_bin L bw) (b # bs) h) = fXaxis h"
      using IH by (simp add: normalise_bin_axis)
    show "length (fArray (fold (normalise_bin L bw) (b # bs) h)) = length (fArray h)"
      using IH l1 by simp
    show "length (fSumw2 (fold (normalise_bin L bw) (b # bs) h)) = length (fArray h)"
      using IH l1 by simp
  next
    fix j assume j: "j < length (fArray h)"
    then have j1: "j < length (fArray ?h1)" using l1 by simp
    have c: "fArray ?h1 ! j = (if j = b then fArray h ! j / (L * bw) else fArray h ! j)"
      using normalise_bin_content [OF b j] .
    from IH j1 have
      "fArray (fold (normalise_bin L bw) bs ?h1) ! j =
        (if j \<in> set bs then fArray ?h1 ! j / (L * bw) else fArray ?h1 ! j)" by blast
    then show "fArray (fold (normalise_bin L bw) (b # bs) h) ! j =
        (if j \<in> set (b # bs) then fArray h ! j / (L * bw) else fArray h ! j)"
      using c nb by auto
    have js: "j < length (fSumw2 h)" using j Cons.prems by simp
    have e: "fSumw2 ?h1 ! j =
      (if j = b then (sqrt (fArray h ! j) / (L * bw)) * (sqrt (fArray h ! j) / (L * bw))
       else fSumw2 h ! j)"
      using normalise_bin_sumw2 [OF b js] .
    from IH j1 have
      "fSumw2 (fold (normalise_bin L bw) bs ?h1) ! j =
        (if j \<in> set bs then (sqrt (fArray ?h1 ! j) / (L * bw)) * (sqrt (fArray ?h1 ! j) / (L * bw))
         else fSumw2 ?h1 ! j)" by blast
    then show "fSumw2 (fold (normalise_bin L bw) (b # bs) h) ! j =
        (if j \<in> set (b # bs)
         then (sqrt (fArray h ! j) / (L * bw)) * (sqrt (fArray h ! j) / (L * bw))
         else fSumw2 h ! j)"
      using c e nb by auto
  qed
qed

lemma normalise_hist_bins:
  assumes "hist_inv h" and "1 \<le> b" and "b \<le> GetNbinsX h"
  shows "fArray (normalise_hist L bw h) ! b = fArray h ! b / (L * bw)"
    and "fSumw2 (normalise_hist L bw h) ! b =
           (sqrt (fArray h ! b) / (L * bw)) * (sqrt (fArray h ! b) / (L * bw))"
    and "hist_inv (normalise_hist L bw h)"
    and "fXaxis (normalise_hist L bw h) = fXaxis h"
proof -
  have d: "distinct [1..<GetNbinsX h + 1]" by simp
  have r: "\<forall>b\<in>set [1..<GetNbinsX h + 1]. b < length (fArray h)"
    using assms(1) by (auto simp add: hist_inv_def)
  have s: "length (fSumw2 h) = length (fArray h)" using assms(1) by (simp add: hist_inv_def)
  note F = fold_normalise_bin [OF d r s, of L bw, folded normalise_hist_def]
  have bl: "b < length (fArray h)" using assms by (simp add: hist_inv_def)
  have bm: "b \<in> set [1..<GetNbinsX h + 1]" using assms by auto
  show "fArray (normalise_hist L bw h) ! b = fArray h ! b / (L * bw)"
    using F bl bm by presburger
  show "fSumw2 (normalise_hist L bw h) ! b =
           (sqrt (fArray h ! b) / (L * bw)) * (sqrt (fArray h ! b) / (L * bw))"
    using F bl bm by presburger
  show "fXaxis (normalise_hist L bw h) = fXaxis h" using F by blast
  then show "hist_inv (normalise_hist L bw h)"
    using F assms(1) by (simp add: hist_inv_def GetNbinsX_def)
qed

lemma update_cell_dims:
  assumes "dims g nx nq nt"
  shows "dims (update_cell g a b c f) nx nq nt"
proof -
  let ?row = "(g ! a ! b)[c := map_option f (g ! a ! b ! c)]"
  let ?plane = "(g ! a)[b := ?row]"
  have l: "length g = nx" using assms by (simp add: dims_def)
  have p: "length (g[a := ?plane] ! i) = nq" if "i < nx" for i
  proof (cases "a = i")
    case True
    then show ?thesis using that l assms by (simp add: dims_def)
  next
    case False
    then show ?thesis using that l assms by (simp add: dims_def)
  qed
  have r: "length (g[a := ?plane] ! i ! j) = nt" if "i < nx" "j < nq" for i j
  proof (cases "a = i")
    case False
    then show ?thesis using that l assms by (simp add: dims_def)
  next
    case a: True
    have lp: "length (g ! i) = nq" using that assms by (simp add: dims_def)
    show ?thesis
    proof (cases "b = j")
      case True
      then show ?thesis using a that l lp assms by (simp add: dims_def)
    next
      case False
      then show ?thesis using a that l lp assms by (simp add: dims_def)
    qed
  qed
  show ?thesis unfolding dims_def update_cell_def using l p r by simp
qed

lemma update_cell_nth:
  assumes "dims g nx nq nt" "ix < nx" "iq < nq" "it < nt"
  shows "update_cell g a b c f ! ix ! iq ! it =
           (if a = ix \<and> b = iq \<and> c = it then map_option f (g ! ix ! iq ! it)
            else g ! ix ! iq ! it)"
proof -
  have l0: "ix < length g" and l1: "iq < length (g ! ix)" and l2: "it < length (g ! ix ! iq)"
    using assms by (auto simp: dims_def)
  show ?thesis
  proof (cases "a = ix")
    case False
    then show ?thesis by (simp add: update_cell_def)
  next
    case a: True
    show ?thesis
    proof (cases "b = iq")
      case False
      then show ?thesis using a l0 by (simp add: update_cell_def)
    next
      case b: True
      show ?thesis using a b l0 l1 l2 by (simp add: update_cell_def nth_list_update)
    qed
  qed
qed

lemma factor_eq:
  "(if applyCorrection self \<and> correctionHist self \<noteq> None
    then GetCorrectionFactor self Q2 t xB phi else 1) = GetCorrectionFactor self Q2 t xB phi"
  by (auto simp: GetCorrectionFactor_def)

lemma filler_dims: "dims g nx nq nt \<Longrightarrow> dims (filler self bins g e) nx nq nt"
  by (cases e) (simp add: filler_def Let_def update_cell_dims)

lemma filler_cell:
  assumes "dims g nx nq nt" "ix < nx" "iq < nq" "it < nt"
  shows "filler self bins g e ! ix ! iq ! it =
           map_option (cell_step self bins ix iq it e) (g ! ix ! iq ! it)"
proof -
  obtain Q2 t xB phi where e: "e = (Q2, t, xB, phi)" by (cases e) auto
  let ?iq = "findBin Q2 (q2_bins_m bins)"
  let ?it = "findBin t (t_bins_m bins)"
  let ?ix = "findBin xB (xb_bins_m bins)"
  show ?thesis
  proof (cases "?iq \<ge> 0 \<and> ?it \<ge> 0 \<and> ?ix \<ge> 0")
    case False
    then have "\<not> in_cell bins ix iq it e" by (auto simp: in_cell_def e)
    moreover have "filler self bins g e = g" using False by (auto simp: filler_def e Let_def)
    ultimately show ?thesis by (cases "g ! ix ! iq ! it") (simp_all add: cell_step_def)
  next
    case True
    then have f: "filler self bins g e =
        update_cell g (nat ?ix) (nat ?iq) (nat ?it)
          (\<lambda>h. Fill h phi (GetCorrectionFactor self Q2 t xB phi))"
      by (cases "applyCorrection self \<and> correctionHist self \<noteq> None")
         (auto simp: filler_def e Let_def GetCorrectionFactor_def)
    have c: "in_cell bins ix iq it e \<longleftrightarrow> nat ?ix = ix \<and> nat ?iq = iq \<and> nat ?it = it"
      using True by (auto simp: in_cell_def e)
    show ?thesis
    proof (cases "in_cell bins ix iq it e")
      case True
      then show ?thesis
        using c f update_cell_nth [OF assms]
        by (cases "g ! ix ! iq ! it") (simp_all add: cell_step_def event_weight_def e)
    next
      case False
      then show ?thesis
        using c f update_cell_nth [OF assms]
        by (cases "g ! ix ! iq ! it") (auto simp add: cell_step_def)
    qed
  qed
qed

lemma Foreach_dims: "dims g nx nq nt \<Longrightarrow> dims (Foreach self bins df g) nx nq nt"
  unfolding Foreach_def
  by (induction df arbitrary: g) (simp_all add: filler_dims)

lemma Foreach_cell:
  "dims g nx nq nt \<Longrightarrow> ix < nx \<Longrightarrow> iq < nq \<Longrightarrow> it < nt \<Longrightarrow>
   Foreach self bins df g ! ix ! iq ! it =
     map_option (fold (cell_step self bins ix iq it) df) (g ! ix ! iq ! it)"
  unfolding Foreach_def
proof (induction df arbitrary: g)
  case Nil
  then show ?case by (simp add: option.map_ident)
next
  case (Cons e df)
  have d: "dims (filler self bins g e) nx nq nt" using Cons.prems(1) by (rule filler_dims)
  show ?case
    using Cons.IH [OF d Cons.prems(2-4)] filler_cell [OF Cons.prems, of self bins e]
    by (simp add: option.map_comp comp_def)
qed

lemma fold_cell_step:
  "fXaxis h = phi_axis \<Longrightarrow> hist_inv h \<Longrightarrow>
   fXaxis (fold (cell_step self bins ix iq it) df h) = phi_axis \<and>
   hist_inv (fold (cell_step self bins ix iq it) df h) \<and>
   (\<forall>b < length (fArray h).
      fArray (fold (cell_step self bins ix iq it) df h) ! b =
        fArray h ! b + sum_weights self bins ix iq it b df \<and>
      fSumw2 (fold (cell_step self bins ix iq it) df h) ! b =
        fSumw2 h ! b + sum_squared_weights self bins ix iq it b df)"
proof (induction df arbitrary: h)
  case Nil
  then show ?case by (simp add: sum_weights_def sum_squared_weights_def)
next
  case (Cons e df)
  obtain Q2 t xB phi where e: "e = (Q2, t, xB, phi)" by (cases e) auto
  let ?h1 = "cell_step self bins ix iq it e h"
  have a1: "fXaxis ?h1 = phi_axis" using Cons.prems by (simp add: cell_step_def Fill_axis)
  have i1: "hist_inv ?h1" using Cons.prems by (simp add: cell_step_def Fill_inv)
  have len: "length (fArray ?h1) = length (fArray h)" "length (fSumw2 h) = length (fArray h)"
    using Cons.prems i1 a1 by (simp_all add: hist_inv_def GetNbinsX_def)
  note IH = Cons.IH [OF a1 i1]
  have step: "fArray ?h1 ! b = fArray h ! b +
                (if in_cell bins ix iq it e \<and> in_bin b e then event_weight self e else 0) \<and>
              fSumw2 ?h1 ! b = fSumw2 h ! b +
                (if in_cell bins ix iq it e \<and> in_bin b e
                 then event_weight self e * event_weight self e else 0)"
    if "b < length (fArray h)" for b
    using that len Cons.prems(1)
    by (simp add: cell_step_def Fill_content Fill_sumw2 in_bin_def e)
  show ?case
  proof (intro conjI allI impI)
    show "fXaxis (fold (cell_step self bins ix iq it) (e # df) h) = phi_axis" using IH by simp
    show "hist_inv (fold (cell_step self bins ix iq it) (e # df) h)" using IH by simp
  next
    fix b assume b: "b < length (fArray h)"
    then have b1: "b < length (fArray ?h1)" using len by simp
    show "fArray (fold (cell_step self bins ix iq it) (e # df) h) ! b =
          fArray h ! b + sum_weights self bins ix iq it b (e # df)"
      using IH b1 step [OF b] by (simp add: sum_weights_def)
    show "fSumw2 (fold (cell_step self bins ix iq it) (e # df) h) ! b =
          fSumw2 h ! b + sum_squared_weights self bins ix iq it b (e # df)"
      using IH b1 step [OF b] by (simp add: sum_squared_weights_def)
  qed
qed

lemma empty_grid_dims:
  "dims (empty_grid bins) (length (xb_bins_m bins) - 1) (length (q2_bins_m bins) - 1)
        (length (t_bins_m bins) - 1)"
  by (simp add: dims_def empty_grid_def Let_def)

lemma empty_grid_cell:
  "ix < length (xb_bins_m bins) - 1 \<Longrightarrow> iq < length (q2_bins_m bins) - 1 \<Longrightarrow>
   it < length (t_bins_m bins) - 1 \<Longrightarrow>
   empty_grid bins ! ix ! iq ! it = Some (TH1D_new n_phi_bins phi_min phi_max)"
  by (simp add: empty_grid_def Let_def)

lemma normalise_grid_cell:
  "dims g nx nq nt \<Longrightarrow> ix < nx \<Longrightarrow> iq < nq \<Longrightarrow> it < nt \<Longrightarrow>
   normalise_grid L g ! ix ! iq ! it =
     map_option (normalise_hist L ((phi_max - phi_min) / real n_phi_bins)) (g ! ix ! iq ! it)"
  by (simp add: normalise_grid_def dims_def Let_def)

lemma normalise_grid_dims: "dims g nx nq nt \<Longrightarrow> dims (normalise_grid L g) nx nq nt"
  by (simp add: normalise_grid_def dims_def Let_def)

lemma new_hist_facts:
  "fXaxis (TH1D_new n_phi_bins phi_min phi_max) = phi_axis"
  "hist_inv (TH1D_new n_phi_bins phi_min phi_max)"
  "length (fArray (TH1D_new n_phi_bins phi_min phi_max)) = n_phi_bins + 2"
  "b < n_phi_bins + 2 \<Longrightarrow> fArray (TH1D_new n_phi_bins phi_min phi_max) ! b = 0"
  "b < n_phi_bins + 2 \<Longrightarrow> fSumw2 (TH1D_new n_phi_bins phi_min phi_max) ! b = 0"
  by (simp_all add: TH1D_new_def phi_axis_def hist_inv_def GetNbinsX_def
      del: replicate.simps add_2_eq_Suc add_2_eq_Suc')

lemma bin_width_value: "(phi_max - phi_min) / real n_phi_bins = 20"
  by (simp add: phi_max_def phi_min_def n_phi_bins_def)

lemma accumulated_cell:
  assumes "ix < length (xb_bins_m bins) - 1" "iq < length (q2_bins_m bins) - 1"
    "it < length (t_bins_m bins) - 1" "b < n_phi_bins + 2"
  shows "\<exists>h0. Foreach self bins df (empty_grid bins) ! ix ! iq ! it = Some h0 \<and>
              fXaxis h0 = phi_axis \<and> hist_inv h0 \<and>
              fArray h0 ! b = sum_weights self bins ix iq it b df \<and>
              fSumw2 h0 ! b = sum_squared_weights self bins ix iq it b df"
proof -
  let ?new = "TH1D_new n_phi_bins phi_min phi_max"
  let ?h0 = "fold (cell_step self bins ix iq it) df ?new"
  have c: "Foreach self bins df (empty_grid bins) ! ix ! iq ! it = Some ?h0"
    using Foreach_cell [OF empty_grid_dims assms(1-3)] empty_grid_cell [OF assms(1-3)]
    by simp
  have bl: "b < length (fArray ?new)" using assms(4) by (simp add: new_hist_facts)
  from fold_cell_step [OF new_hist_facts(1) new_hist_facts(2), of self bins ix iq it df] bl
  have "fXaxis ?h0 = phi_axis" "hist_inv ?h0"
    "fArray ?h0 ! b = fArray ?new ! b + sum_weights self bins ix iq it b df"
    "fSumw2 ?h0 ! b = fSumw2 ?new ! b + sum_squared_weights self bins ix iq it b df"
    by blast+
  then show ?thesis using c assms(4) by (simp add: new_hist_facts)
qed

lemma cross_section_cell:
  assumes "ix < length (xb_bins_m bins) - 1" "iq < length (q2_bins_m bins) - 1"
    "it < length (t_bins_m bins) - 1" "1 \<le> b" "b \<le> n_phi_bins"
  shows "\<exists>g h. ComputeDVCS_CrossSection self df bins L = Inr g \<and>
           dims g (length (xb_bins_m bins) - 1) (length (q2_bins_m bins) - 1)
                  (length (t_bins_m bins) - 1) \<and>
           g ! ix ! iq ! it = Some h \<and> fXaxis h = phi_axis \<and> hist_inv h \<and>
           fArray h ! b = sum_weights self bins ix iq it b df / (L * 20) \<and>
           fSumw2 h ! b = (sqrt (sum_weights self bins ix iq it b df) / (L * 20)) *
                          (sqrt (sum_weights self bins ix iq it b df) / (L * 20))"
proof -
  have ne: "\<not> (q2_bins_m bins = [] \<or> t_bins_m bins = [] \<or> xb_bins_m bins = [])"
    using assms(1-3) by auto
  let ?acc = "Foreach self bins df (empty_grid bins)"
  have r: "ComputeDVCS_CrossSection self df bins L = Inr (normalise_grid L ?acc)"
    using ne by (simp add: ComputeDVCS_CrossSection_def)
  have d: "dims ?acc (length (xb_bins_m bins) - 1) (length (q2_bins_m bins) - 1)
                  (length (t_bins_m bins) - 1)"
    by (rule Foreach_dims [OF empty_grid_dims])
  have b2: "b < n_phi_bins + 2" using assms(5) by simp
  obtain h0 where h0: "?acc ! ix ! iq ! it = Some h0" "fXaxis h0 = phi_axis" "hist_inv h0"
      "fArray h0 ! b = sum_weights self bins ix iq it b df"
    using accumulated_cell [OF assms(1-3) b2, of self df] by blast
  have nb: "b \<le> GetNbinsX h0" using assms(5) h0(2) by (simp add: GetNbinsX_def phi_axis_def)
  let ?h = "normalise_hist L 20 h0"
  have c: "normalise_grid L ?acc ! ix ! iq ! it = Some ?h"
    using normalise_grid_cell [OF d assms(1-3), of L] h0(1) by (simp add: bin_width_value)
  note N = normalise_hist_bins [OF h0(3) assms(4) nb, of L 20]
  show ?thesis
    using r c N h0(2,4) normalise_grid_dims [OF d, of L] by simp
qed

lemma default_findBins:
  "findBin (3 / 2) (q2_bins_m BinManager_default) = 0"
  "findBin (1 / 5) (t_bins_m BinManager_default) = 0"
  "findBin (3 / 20) (xb_bins_m BinManager_default) = 0"
  by (simp_all add: BinManager_default_def findBin_def upper_bound_def)

lemma phi_190: "TAxis_FindBin phi_axis 190 = 10"
  by (simp add: TAxis_FindBin_def phi_axis_def n_phi_bins_def phi_min_def phi_max_def)

lemma w4: "event_weight factor_four (3 / 2, 1 / 5, 3 / 20, 190) = 4"
  by (simp add: event_weight_def GetCorrectionFactor_def SetCorrHist_def SetApplyCorrPi0BKG_def
      DISANAMath_default_def THnSparse_GetBinContent_def TAxis_FindBin_def factor_four_def
      one_bin_axis_def)

lemma w1: "event_weight DISANAMath_default e = 1"
  by (cases e) (simp add: event_weight_def GetCorrectionFactor_def DISANAMath_default_def)

lemma one_event_sum:
  "sum_weights self BinManager_default ix iq it b [(3 / 2, 1 / 5, 3 / 20, 190)] =
     (if ix = 0 \<and> iq = 0 \<and> it = 0 \<and> b = 10
      then event_weight self (3 / 2, 1 / 5, 3 / 20, 190) else 0)"
  by (auto simp add: sum_weights_def in_cell_def in_bin_def default_findBins phi_190)

lemma one_event_sum_squares:
  "sum_squared_weights self BinManager_default ix iq it b [(3 / 2, 1 / 5, 3 / 20, 190)] =
     (if ix = 0 \<and> iq = 0 \<and> it = 0 \<and> b = 10
      then event_weight self (3 / 2, 1 / 5, 3 / 20, 190) *
           event_weight self (3 / 2, 1 / 5, 3 / 20, 190) else 0)"
  by (auto simp add: sum_squared_weights_def in_cell_def in_bin_def default_findBins phi_190)

lemma default_sizes:
  "length (xb_bins_m BinManager_default) - 1 = 3"
  "length (q2_bins_m BinManager_default) - 1 = 3"
  "length (t_bins_m BinManager_default) - 1 = 3"
  by (simp_all add: BinManager_default_def)

lemma cell_at_Inr:
  "dims g nx nq nt \<Longrightarrow> ix < nx \<Longrightarrow> iq < nq \<Longrightarrow> it < nt \<Longrightarrow>
   cell_at (Inr g) ix iq it = g ! ix ! iq ! it"
  by (simp add: cell_at_def dims_def)

text \<open>
  Claim C2, as amended. For every list of events, every cell of the grid and every bin
  \<open>b\<close> of the angle (\<open>1 \<le> b \<le> 18\<close>): after the loop over the events the content of
  the bin is the sum of the weights \<open>w\<close> of the events of that bin and its \<open>fSumw2\<close> is the
  sum of their squares \<open>w * w\<close>; after the normalisation with a luminosity \<open>L > 0\<close> the
  content is (sum of the weights) / (L * 20) and the error is
  sqrt (sum of the weights) / (L * 20), the sum of the weights not being negative. The
  error is computed from the content, not from the sum of the squared weights.
\<close>

theorem cross_section_content_and_error:
  assumes "ix < length (xb_bins_m bins) - 1" and "iq < length (q2_bins_m bins) - 1"
    and "it < length (t_bins_m bins) - 1" and "1 \<le> b" and "b \<le> n_phi_bins"
    and "0 < L" and "0 \<le> sum_weights self bins ix iq it b df"
  shows "\<exists>h0 g h.
           Foreach self bins df (empty_grid bins) ! ix ! iq ! it = Some h0 \<and>
           GetBinContent h0 b = sum_weights self bins ix iq it b df \<and>
           fSumw2 h0 ! b = sum_squared_weights self bins ix iq it b df \<and>
           ComputeDVCS_CrossSection self df bins L = Inr g \<and>
           g ! ix ! iq ! it = Some h \<and>
           GetBinContent h b = sum_weights self bins ix iq it b df / (L * 20) \<and>
           GetBinError h b = sqrt (sum_weights self bins ix iq it b df) / (L * 20)"
proof -
  have b2: "b < n_phi_bins + 2" using assms(5) by simp
  obtain h0 where h0: "Foreach self bins df (empty_grid bins) ! ix ! iq ! it = Some h0"
      "fXaxis h0 = phi_axis" "hist_inv h0"
      "fArray h0 ! b = sum_weights self bins ix iq it b df"
      "fSumw2 h0 ! b = sum_squared_weights self bins ix iq it b df"
    using accumulated_cell [OF assms(1-3) b2, of self df] by blast
  have l0: "b < length (fArray h0)"
    using h0(2,3) b2 by (simp add: hist_inv_def GetNbinsX_def phi_axis_def)
  obtain g h where g: "ComputeDVCS_CrossSection self df bins L = Inr g"
      "g ! ix ! iq ! it = Some h" "fXaxis h = phi_axis" "hist_inv h"
      "fArray h ! b = sum_weights self bins ix iq it b df / (L * 20)"
      "fSumw2 h ! b = (sqrt (sum_weights self bins ix iq it b df) / (L * 20)) *
                      (sqrt (sum_weights self bins ix iq it b df) / (L * 20))"
    using cross_section_cell [OF assms(1-5), of self df L] by blast
  have l: "b < length (fArray h)" "b < length (fSumw2 h)"
    using g(3,4) b2 by (simp_all add: hist_inv_def GetNbinsX_def phi_axis_def)
  have nn: "0 \<le> sqrt (sum_weights self bins ix iq it b df) / (L * 20)"
    using assms(6,7) by simp
  have "GetBinError h b = sqrt (fSumw2 h ! b)" by (rule GetBinError_in [OF l(2)])
  also have "\<dots> = \<bar>sqrt (sum_weights self bins ix iq it b df) / (L * 20)\<bar>"
    by (simp only: g(6) real_sqrt_abs2)
  also have "\<dots> = sqrt (sum_weights self bins ix iq it b df) / (L * 20)"
    using nn by (simp only: abs_of_nonneg)
  finally have e: "GetBinError h b = sqrt (sum_weights self bins ix iq it b df) / (L * 20)" .
  show ?thesis
    using h0(1,4,5) g(1,2,5) e GetBinContent_in [OF l0] GetBinContent_in [OF l(1)] by auto
qed

lemma weighted_error:
  "bin_error_at (ComputeDVCS_CrossSection factor_four [(3 / 2, 1 / 5, 3 / 20, 190)]
                   BinManager_default 1) 0 0 0 10 = Some (1 / 10)"
proof -
  have s: "(0::nat) < length (xb_bins_m BinManager_default) - 1"
       "(0::nat) < length (q2_bins_m BinManager_default) - 1"
       "(0::nat) < length (t_bins_m BinManager_default) - 1"
    by (simp_all add: BinManager_default_def)
  have b: "(1::nat) \<le> 10" "(10::nat) \<le> n_phi_bins" by (simp_all add: n_phi_bins_def)
  obtain g h where g:
      "ComputeDVCS_CrossSection factor_four [(3 / 2, 1 / 5, 3 / 20, 190)] BinManager_default 1 = Inr g"
      "dims g (length (xb_bins_m BinManager_default) - 1) (length (q2_bins_m BinManager_default) - 1)
            (length (t_bins_m BinManager_default) - 1)"
      "g ! 0 ! 0 ! 0 = Some h" "fXaxis h = phi_axis" "hist_inv h"
      "fSumw2 h ! 10 =
         (sqrt (sum_weights factor_four BinManager_default 0 0 0 10 [(3 / 2, 1 / 5, 3 / 20, 190)]) / (1 * 20)) *
         (sqrt (sum_weights factor_four BinManager_default 0 0 0 10 [(3 / 2, 1 / 5, 3 / 20, 190)]) / (1 * 20))"
    using cross_section_cell [OF s b, of factor_four "[(3 / 2, 1 / 5, 3 / 20, 190)]" 1] by blast
  have l: "10 < length (fSumw2 h)"
    using g(4,5) by (simp add: hist_inv_def GetNbinsX_def phi_axis_def n_phi_bins_def)
  have v: "fSumw2 h ! 10 = (1 / 10) * (1 / 10)"
    using g(6) by (simp add: one_event_sum w4)
  have "GetBinError h 10 = sqrt ((1 / 10) * (1 / 10))"
    by (simp only: GetBinError_in [OF l] v)
  then have "GetBinError h 10 = 1 / 10"
    by (simp only: real_sqrt_abs2)
  then show ?thesis
    using g(1,3) cell_at_Inr [OF g(2) s] by (simp add: bin_error_at_def)
qed

theorem cross_section_content_and_error_witness:
  "0 < length (xb_bins_m BinManager_default) - 1 \<and>
   0 < length (q2_bins_m BinManager_default) - 1 \<and>
   0 < length (t_bins_m BinManager_default) - 1 \<and> (1::nat) \<le> 10 \<and> 10 \<le> n_phi_bins \<and>
   (0::real) < 2 \<and>
   0 \<le> sum_weights factor_four BinManager_default 0 0 0 10 [(3 / 2, 1 / 5, 3 / 20, 190)] \<and>
   (\<exists>h0 g h.
      Foreach factor_four BinManager_default [(3 / 2, 1 / 5, 3 / 20, 190)]
        (empty_grid BinManager_default) ! 0 ! 0 ! 0 = Some h0 \<and>
      GetBinContent h0 10 = 4 \<and> fSumw2 h0 ! 10 = 16 \<and>
      ComputeDVCS_CrossSection factor_four [(3 / 2, 1 / 5, 3 / 20, 190)] BinManager_default 2
        = Inr g \<and>
      g ! 0 ! 0 ! 0 = Some h \<and> GetBinContent h 10 = 1 / 10 \<and> GetBinError h 10 = 1 / 20)"
proof -
  have s: "(0::nat) < length (xb_bins_m BinManager_default) - 1"
       "(0::nat) < length (q2_bins_m BinManager_default) - 1"
       "(0::nat) < length (t_bins_m BinManager_default) - 1"
    by (simp_all add: BinManager_default_def)
  have b: "(1::nat) \<le> 10" "(10::nat) \<le> n_phi_bins" by (simp_all add: n_phi_bins_def)
  have L: "(0::real) < 2" by simp
  have sw: "sum_weights factor_four BinManager_default 0 0 0 10 [(3 / 2, 1 / 5, 3 / 20, 190)] = 4"
    by (simp add: one_event_sum w4)
  have sq: "sum_squared_weights factor_four BinManager_default 0 0 0 10
              [(3 / 2, 1 / 5, 3 / 20, 190)] = 16"
    by (simp add: one_event_sum_squares w4)
  have n: "0 \<le> sum_weights factor_four BinManager_default 0 0 0 10 [(3 / 2, 1 / 5, 3 / 20, 190)]"
    by (simp add: sw)
  show ?thesis
    using cross_section_content_and_error [OF s b L n] s b n
    by (simp add: sw sq)
qed

text \<open>
  With the correction factor 4 for its single event, the error of the bin after the
  normalisation with luminosity 1 is \<open>sqrt 4 / 20 = 1 / 10\<close>, not
  \<open>sqrt (4 * 4) / 20 = 1 / 5\<close>.
\<close>

theorem weighted_error_counterexample:
  "bin_error_at (ComputeDVCS_CrossSection factor_four [(3 / 2, 1 / 5, 3 / 20, 190)]
                   BinManager_default 1) 0 0 0 10 = Some (1 / 10) \<and>
   sqrt (sum_squared_weights factor_four BinManager_default 0 0 0 10
           [(3 / 2, 1 / 5, 3 / 20, 190)]) / (1 * 20) = 1 / 5"
proof -
  have "sum_squared_weights factor_four BinManager_default 0 0 0 10
          [(3 / 2, 1 / 5, 3 / 20, 190)] = 4 * 4"
    by (simp add: one_event_sum_squares w4)
  then have "sqrt (sum_squared_weights factor_four BinManager_default 0 0 0 10
          [(3 / 2, 1 / 5, 3 / 20, 190)]) = 4"
    by (simp only: real_sqrt_abs2)
  then show ?thesis using weighted_error by simp
qed

text \<open>
  Claim C5. With the edges of the default \<open>BinManager\<close>, which are \<open>[1, 2, 4, 6]\<close>,
  \<open>[0.1, 0.3, 0.6, 1.0]\<close> and \<open>[0.1, 0.2, 0.4, 0.6]\<close>, and 18 bins of 20 degrees, the
  single event \<open>(1.5, 0.2, 0.15)\<close> at 190 degrees with weight 1 and luminosity 1 gives a
  grid of \<open>3 \<times> 3 \<times> 3\<close> histograms with content \<open>0.05\<close> in the bin of index 9 of cell
  \<open>(0, 0, 0)\<close> and 0 in every other bin of every cell. The bin of index \<open>k\<close>, counted
  from 0, is ROOT's bin \<open>k + 1\<close>.
\<close>

theorem one_event_scenario:
  "\<exists>g. ComputeDVCS_CrossSection DISANAMath_default [(1.5, 0.2, 0.15, 190)] BinManager_default 1
          = Inr g \<and>
        dims g 3 3 3 \<and>
        (\<forall>ix<3. \<forall>iq<3. \<forall>it<3. \<exists>h. g ! ix ! iq ! it = Some h \<and>
           (\<forall>k<18. GetBinContent h (k + 1) =
                      (if ix = 0 \<and> iq = 0 \<and> it = 0 \<and> k = 9 then 0.05 else 0)))"
proof -
  let ?df = "[(3 / 2, 1 / 5, 3 / 20, 190)] :: event list"
  let ?g = "normalise_grid 1 (Foreach DISANAMath_default BinManager_default ?df
              (empty_grid BinManager_default))"
  have r: "ComputeDVCS_CrossSection DISANAMath_default ?df BinManager_default 1 = Inr ?g"
    by (simp add: ComputeDVCS_CrossSection_def BinManager_default_def)
  have d: "dims ?g 3 3 3"
    using normalise_grid_dims [OF Foreach_dims [OF empty_grid_dims],
        of 1 DISANAMath_default BinManager_default ?df BinManager_default]
    by (simp only: default_sizes)
  have cell: "\<exists>h. ?g ! ix ! iq ! it = Some h \<and>
           (\<forall>k<18. GetBinContent h (k + 1) =
                      (if ix = 0 \<and> iq = 0 \<and> it = 0 \<and> k = 9 then 0.05 else 0))"
    if i: "ix < 3" "iq < 3" "it < 3" for ix iq it
  proof -
    have s: "ix < length (xb_bins_m BinManager_default) - 1"
       "iq < length (q2_bins_m BinManager_default) - 1"
       "it < length (t_bins_m BinManager_default) - 1"
      using i by (simp_all only: default_sizes)
    have b: "(1::nat) \<le> 1" "(1::nat) \<le> n_phi_bins" by (simp_all add: n_phi_bins_def)
    obtain g h where g:
      "ComputeDVCS_CrossSection DISANAMath_default ?df BinManager_default 1 = Inr g"
      "g ! ix ! iq ! it = Some h" "fXaxis h = phi_axis" "hist_inv h"
      using cross_section_cell [OF s b, of DISANAMath_default ?df 1] by blast
    have gg: "g = ?g" using g(1) r by simp
    have bins: "GetBinContent h (k + 1) =
                  (if ix = 0 \<and> iq = 0 \<and> it = 0 \<and> k = 9 then 0.05 else 0)"
      if k: "k < 18" for k
    proof -
      have kb: "1 \<le> k + 1" "k + 1 \<le> n_phi_bins" using k by (simp_all add: n_phi_bins_def)
      obtain g' h' where g':
        "ComputeDVCS_CrossSection DISANAMath_default ?df BinManager_default 1 = Inr g'"
        "g' ! ix ! iq ! it = Some h'" "fXaxis h' = phi_axis" "hist_inv h'"
        "fArray h' ! (k + 1) =
           sum_weights DISANAMath_default BinManager_default ix iq it (k + 1) ?df / (1 * 20)"
        using cross_section_cell [OF s kb, of DISANAMath_default ?df 1] by blast
      have hh: "h' = h" using g'(1,2) g(1,2) by simp
      have l: "k + 1 < length (fArray h)"
        using g(3,4) k by (simp add: hist_inv_def GetNbinsX_def phi_axis_def n_phi_bins_def)
      have ct: "GetBinContent h (k + 1) = fArray h ! (k + 1)" by (rule GetBinContent_in [OF l])
      have sv: "sum_weights DISANAMath_default BinManager_default ix iq it (k + 1) ?df =
                  (if ix = 0 \<and> iq = 0 \<and> it = 0 \<and> k = 9 then 1 else 0)"
        by (simp add: one_event_sum w1)
      have "fArray h ! (k + 1) = (if ix = 0 \<and> iq = 0 \<and> it = 0 \<and> k = 9 then 1 else 0) / (1 * 20)"
        using g'(5) hh by (simp only: sv)
      then show ?thesis unfolding ct by auto
    qed
    show ?thesis using g(2) gg bins by blast
  qed
  show ?thesis using r d cell by auto
qed

theorem one_event_scenario_witness:
  "bin_content_at (ComputeDVCS_CrossSection DISANAMath_default [(1.5, 0.2, 0.15, 190)]
                     BinManager_default 1) 0 0 0 (9 + 1) = Some 0.05 \<and>
   bin_content_at (ComputeDVCS_CrossSection DISANAMath_default [(1.5, 0.2, 0.15, 190)]
                     BinManager_default 1) 0 0 0 (8 + 1) = Some 0 \<and>
   bin_content_at (ComputeDVCS_CrossSection DISANAMath_default [(1.5, 0.2, 0.15, 190)]
                     BinManager_default 1) 2 0 1 (9 + 1) = Some 0"
proof -
  obtain g where g:
    "ComputeDVCS_CrossSection DISANAMath_default [(1.5, 0.2, 0.15, 190)] BinManager_default 1
       = Inr g" "dims g 3 3 3"
    and c: "\<forall>ix<3. \<forall>iq<3. \<forall>it<3. \<exists>h. g ! ix ! iq ! it = Some h \<and>
           (\<forall>k<18. GetBinContent h (k + 1) =
                      (if ix = 0 \<and> iq = 0 \<and> it = 0 \<and> k = 9 then 0.05 else 0))"
    using one_event_scenario by blast
  have z: "(0::nat) < 3" "(1::nat) < 3" "(2::nat) < 3" "(9::nat) < 18" "(8::nat) < 18"
    by simp_all
  from c z obtain h where h: "g ! 0 ! 0 ! 0 = Some h"
    and hk: "\<forall>k<18. GetBinContent h (k + 1) =
               (if (0::nat) = 0 \<and> (0::nat) = 0 \<and> (0::nat) = 0 \<and> k = 9 then 0.05 else 0)"
    by blast
  from c z obtain h' where h': "g ! 2 ! 0 ! 1 = Some h'"
    and hk': "\<forall>k<18. GetBinContent h' (k + 1) =
               (if (2::nat) = 0 \<and> (0::nat) = 0 \<and> (1::nat) = 0 \<and> k = 9 then 0.05 else 0)"
    by blast
  have a: "GetBinContent h (9 + 1) = 0.05" using hk [rule_format, OF z(4)] by simp
  have b: "GetBinContent h (8 + 1) = 0" using hk [rule_format, OF z(5)] by simp
  have c': "GetBinContent h' (9 + 1) = 0" using hk' [rule_format, OF z(4)] by simp
  have i: "cell_at (Inr g) 0 0 0 = Some h" "cell_at (Inr g) 2 0 1 = Some h'"
    using cell_at_Inr [OF g(2)] h h' by simp_all
  show ?thesis
    unfolding g(1) bin_content_at_def i using a b c' by simp
qed

section \<open>The correction factor\<close>

text \<open>
  Claim C7, as amended. The factor is 1 when the correction is switched off or no table is
  set. Otherwise it is the content of the cell of the table that the four bin numbers of
  the point select, underflow and overflow bins included: the stored factor when the cell
  is filled, and 0 when it is not.
\<close>

theorem correction_factor_lookup:
  "(\<not> applyCorrection self \<or> correctionHist self = None \<longrightarrow>
      GetCorrectionFactor self Q2 t xB phi = 1) \<and>
   (\<forall>hist. applyCorrection self \<and> correctionHist self = Some hist \<longrightarrow>
      (\<forall>c. map_of (fFilled hist)
             [TAxis_FindBin (axis0 hist) Q2, TAxis_FindBin (axis1 hist) t,
              TAxis_FindBin (axis2 hist) xB, TAxis_FindBin (axis3 hist) phi] = Some c \<longrightarrow>
           GetCorrectionFactor self Q2 t xB phi = c) \<and>
      (map_of (fFilled hist)
             [TAxis_FindBin (axis0 hist) Q2, TAxis_FindBin (axis1 hist) t,
              TAxis_FindBin (axis2 hist) xB, TAxis_FindBin (axis3 hist) phi] = None \<longrightarrow>
           GetCorrectionFactor self Q2 t xB phi = 0))"
  by (auto simp: GetCorrectionFactor_def THnSparse_GetBinContent_def)

theorem correction_factor_lookup_witness:
  "GetCorrectionFactor DISANAMath_default (3 / 2) (1 / 5) (3 / 20) 190 = 1 \<and>
   GetCorrectionFactor factor_four (3 / 2) (1 / 5) (3 / 20) 190 = 4 \<and>
   GetCorrectionFactor factor_four 11 (1 / 5) (3 / 20) 190 = 0"
proof -
  have a: "\<not> applyCorrection DISANAMath_default \<or> correctionHist DISANAMath_default = None"
    by (simp add: DISANAMath_default_def)
  have 1: "GetCorrectionFactor DISANAMath_default (3 / 2) (1 / 5) (3 / 20) 190 = 1"
    using correction_factor_lookup [of DISANAMath_default "3 / 2" "1 / 5" "3 / 20" 190] a
    by blast
  let ?tab = "\<lparr>axis0 = one_bin_axis 10, axis1 = one_bin_axis 1,
       axis2 = one_bin_axis 1, axis3 = one_bin_axis 360, fFilled = [([1, 1, 1, 1], 4)]\<rparr>"
  have b: "applyCorrection factor_four \<and> correctionHist factor_four = Some ?tab"
    by (simp add: factor_four_def SetCorrHist_def SetApplyCorrPi0BKG_def)
  have c: "map_of (fFilled ?tab)
             [TAxis_FindBin (axis0 ?tab) (3 / 2), TAxis_FindBin (axis1 ?tab) (1 / 5),
              TAxis_FindBin (axis2 ?tab) (3 / 20), TAxis_FindBin (axis3 ?tab) 190] = Some 4"
    by (simp add: TAxis_FindBin_def one_bin_axis_def)
  have d: "map_of (fFilled ?tab)
             [TAxis_FindBin (axis0 ?tab) 11, TAxis_FindBin (axis1 ?tab) (1 / 5),
              TAxis_FindBin (axis2 ?tab) (3 / 20), TAxis_FindBin (axis3 ?tab) 190] = None"
    by (simp add: TAxis_FindBin_def one_bin_axis_def)
  have 2: "GetCorrectionFactor factor_four (3 / 2) (1 / 5) (3 / 20) 190 = 4"
    using correction_factor_lookup [of factor_four "3 / 2" "1 / 5" "3 / 20" 190] b c
    by blast
  have 3: "GetCorrectionFactor factor_four 11 (1 / 5) (3 / 20) 190 = 0"
    using correction_factor_lookup [of factor_four 11 "1 / 5" "3 / 20" 190] b d
    by blast
  show ?thesis using 1 2 3 by blast
qed

text \<open>
  With the correction switched on and a table without any filled cell, the factor of a point
  inside the axes of the table is 0, not 1.
\<close>

theorem absent_entry_counterexample:
  "applyCorrection empty_table_correction \<and>
   correctionHist empty_table_correction \<noteq> None \<and>
   GetCorrectionFactor empty_table_correction (3 / 2) (1 / 5) (3 / 20) 190 = 0 \<and>
   GetCorrectionFactor empty_table_correction (3 / 2) (1 / 5) (3 / 20) 190 \<noteq> 1"
  by (simp add: empty_table_correction_def SetCorrHist_def SetApplyCorrPi0BKG_def
      GetCorrectionFactor_def THnSparse_GetBinContent_def)

section \<open>Kinematics\<close>

lemma atan2_bounds: "- pi < atan2 y x \<and> atan2 y x \<le> pi"
proof -
  have l: "- (pi / 2) < arctan (y / x)" by (rule arctan_lbound)
  have u: "arctan (y / x) < pi / 2" by (rule arctan_ubound)
  have p: "0 < pi" by (rule pi_gt_zero)
  consider "0 < x" | "x < 0" "0 \<le> y" | "x < 0" "y < 0" | "x = 0"
    by linarith
  then show ?thesis
  proof cases
    case 1
    then have "atan2 y x = arctan (y / x)" by (simp add: atan2_def)
    then show ?thesis using l u p by linarith
  next
    case 2
    then have "y / x \<le> 0" by (simp add: divide_nonneg_neg)
    then have a: "arctan (y / x) \<le> 0" by (simp add: arctan_le_zero_iff)
    have "atan2 y x = arctan (y / x) + pi" using 2 by (simp add: atan2_def)
    then show ?thesis using a l p by linarith
  next
    case 3
    then have "0 < y / x" by (simp add: divide_neg_neg)
    then have a: "0 < arctan (y / x)" by (simp add: zero_less_arctan_iff)
    have "atan2 y x = arctan (y / x) - pi" using 3 by (simp add: atan2_def)
    then show ?thesis using a u p by linarith
  next
    case 4
    then have "atan2 y x = pi / 2 \<or> atan2 y x = - (pi / 2) \<or> atan2 y x = 0"
      by (simp add: atan2_def)
    then show ?thesis using p by linarith
  qed
qed

text \<open>
  Claim C8, as amended. For every input the angle \<open>phi_deg_\<close> that \<open>ComputeKinematics\<close>
  stores lies in the closed range from 0 to 360 degrees: \<open>atan2\<close> returns \<open>pi\<close> when
  the sine is 0 and the cosine negative, and the angle is then 360.
\<close>

theorem phi_deg_closed_range:
  "0 \<le> phi_deg_m (ComputeKinematics electron_in electron_out proton_in proton_out photon self) \<and>
   phi_deg_m (ComputeKinematics electron_in electron_out proton_in proton_out photon self) \<le> 360"
proof -
  define s where "s = Dot3 (Cross (Unit (Cross (fP electron_in) (fP electron_out)))
      (Unit (Cross (fP (lv_sub electron_in electron_out)) (fP proton_out))))
      (Unit (fP (lv_sub electron_in electron_out)))"
  define c where "c = Dot3 (Unit (Cross (fP electron_in) (fP electron_out)))
      (Unit (Cross (fP (lv_sub electron_in electron_out)) (fP proton_out)))"
  have v: "phi_deg_m (ComputeKinematics electron_in electron_out proton_in proton_out photon self)
             = (atan2 s c + pi) * 180 / pi"
    by (simp add: ComputeKinematics_def Let_def s_def c_def)
  have p: "0 < pi" by (rule pi_gt_zero)
  have b: "0 \<le> atan2 s c + pi" "atan2 s c + pi \<le> 2 * pi"
    using atan2_bounds [of s c] by simp_all
  have lo: "0 \<le> (atan2 s c + pi) * 180 / pi" using b(1) p by simp
  have "(atan2 s c + pi) * 180 \<le> 360 * pi" using b(2) by simp
  then have hi: "(atan2 s c + pi) * 180 / pi \<le> 360" using p by (simp add: pos_divide_le_eq)
  show ?thesis unfolding v using lo hi by simp
qed

text \<open>
  An event in which the scattered electron and the recoil proton leave in the plane of the
  beam on opposite sides: beam energy 1 along \<open>z\<close>, electron of momentum 1 along \<open>x\<close>,
  proton of momentum 1 along \<open>-x\<close>. Both plane normals have length 1, and the angle is
  360 degrees, which is not below 360.
\<close>

theorem phi_deg_counterexample:
  "Cross (fP (lorentz 0 0 1 1)) (fP (Build4Vector 1 (pi / 2) 0 m_e)) = vec3 0 1 0 \<and>
   Cross (fP (lv_sub (lorentz 0 0 1 1) (Build4Vector 1 (pi / 2) 0 m_e)))
         (fP (Build4Vector 1 (pi / 2) pi m_p)) = vec3 0 (- 1) 0 \<and>
   phi_deg_m (DISANAMath_measured 1 1 (pi / 2) 0 1 (pi / 2) pi 1 0 0) = 360"
proof -
  have n: "Cross (fP (lorentz 0 0 1 1)) (fP (Build4Vector 1 (pi / 2) 0 m_e)) = vec3 0 1 0"
    "Cross (fP (lv_sub (lorentz 0 0 1 1) (Build4Vector 1 (pi / 2) 0 m_e)))
         (fP (Build4Vector 1 (pi / 2) pi m_p)) = vec3 0 (- 1) 0"
    by (simp_all add: Build4Vector_def SphericalToCartesian_def lorentz_def vec3_def lv_sub_def
        Cross_def Let_def)
  have "atan2 0 (- 1) = pi" by (simp add: atan2_def)
  then have "phi_deg_m (DISANAMath_measured 1 1 (pi / 2) 0 1 (pi / 2) pi 1 0 0) = 360"
    by (simp add: DISANAMath_measured_def ComputeKinematics_def Build4Vector_def
        SphericalToCartesian_def lorentz_def vec3_def lv_sub_def Cross_def Dot3_def Unit_def
        Mag2_3_def Let_def)
  then show ?thesis using n by simp
qed

text \<open>
  Claim C9, as amended. When the incoming and the outgoing electron have the same energy,
  not 0, the energy transfer \<open>nu_\<close> and the inelasticity \<open>y_\<close> are 0, and \<open>Q2_\<close> is the
  square of the difference of the two momenta: it is 0 exactly when the two momenta are
  the same as well.
\<close>

theorem equal_energies_kinematics:
  assumes "fE electron_in = fE electron_out" and "fE electron_in \<noteq> 0"
  shows "nu_m (ComputeKinematics electron_in electron_out proton_in proton_out photon self) = 0 \<and>
         y_m (ComputeKinematics electron_in electron_out proton_in proton_out photon self) = 0 \<and>
         Q2_m (ComputeKinematics electron_in electron_out proton_in proton_out photon self)
           = Mag2_3 (fP (lv_sub electron_in electron_out)) \<and>
         (Q2_m (ComputeKinematics electron_in electron_out proton_in proton_out photon self) = 0
            \<longleftrightarrow> fP electron_in = fP electron_out)"
proof -
  let ?r = "ComputeKinematics electron_in electron_out proton_in proton_out photon self"
  let ?d = "fP (lv_sub electron_in electron_out)"
  have nu: "nu_m ?r = 0" using assms(1) by (simp add: ComputeKinematics_def Let_def lv_sub_def)
  have y: "y_m ?r = 0" using assms(1) by (simp add: ComputeKinematics_def Let_def lv_sub_def)
  have q: "Q2_m ?r = Mag2_3 ?d"
    using assms(1) by (simp add: ComputeKinematics_def Let_def lv_sub_def Mag2_def)
  have z: "Mag2_3 ?d = 0 \<longleftrightarrow> fP electron_in = fP electron_out"
  proof
    assume "Mag2_3 ?d = 0"
    then have "fX (fP electron_in) = fX (fP electron_out) \<and>
               fY (fP electron_in) = fY (fP electron_out) \<and>
               fZ (fP electron_in) = fZ (fP electron_out)"
      by (simp add: Mag2_3_def lv_sub_def vec3_def add_nonneg_eq_0_iff)
    then show "fP electron_in = fP electron_out" by simp
  next
    assume "fP electron_in = fP electron_out"
    then show "Mag2_3 ?d = 0" by (simp add: Mag2_3_def lv_sub_def vec3_def)
  qed
  show ?thesis using nu y q z by simp
qed

theorem equal_energies_kinematics_witness:
  "fE (lorentz 0 0 1 1) = fE (lorentz 1 0 0 1) \<and> fE (lorentz 0 0 1 1) \<noteq> 0 \<and>
   y_m (ComputeKinematics (lorentz 0 0 1 1) (lorentz 1 0 0 1) (lorentz 0 0 0 m_p)
          (lorentz 0 0 0 m_p) (lorentz 0 0 0 0) DISANAMath_default) = 0 \<and>
   Q2_m (ComputeKinematics (lorentz 0 0 1 1) (lorentz 1 0 0 1) (lorentz 0 0 0 m_p)
          (lorentz 0 0 0 m_p) (lorentz 0 0 0 0) DISANAMath_default)
     = Mag2_3 (fP (lv_sub (lorentz 0 0 1 1) (lorentz 1 0 0 1)))"
proof -
  have a: "fE (lorentz 0 0 1 1) = fE (lorentz 1 0 0 1)" by (simp add: lorentz_def)
  have b: "fE (lorentz 0 0 1 1) \<noteq> 0" by (simp add: lorentz_def)
  show ?thesis
    using equal_energies_kinematics [OF a b, of "lorentz 0 0 0 m_p" "lorentz 0 0 0 m_p"
        "lorentz 0 0 0 0" DISANAMath_default] a b
    by blast
qed

text \<open>
  A beam electron of energy 1 along \<open>z\<close> that leaves with the same energy along \<open>x\<close>:
  the energies are identical and \<open>Q2_\<close> is 2.
\<close>

theorem equal_energies_counterexample:
  "fE (lorentz 0 0 1 1) = fE (lorentz 1 0 0 1) \<and>
   Q2_m (ComputeKinematics (lorentz 0 0 1 1) (lorentz 1 0 0 1) (lorentz 0 0 0 m_p)
          (lorentz 0 0 0 m_p) (lorentz 0 0 0 0) DISANAMath_default) = 2"
  by (simp add: ComputeKinematics_def Let_def lorentz_def vec3_def lv_sub_def Mag2_def Mag2_3_def)

section \<open>The background correction\<close>

lemma pi0_cell_content:
  assumes "length (fArray pi0_mc) = length (fArray dvcs_mc)"
    and "length (fArray dvcs_data) = length (fArray dvcs_mc)"
    and "length (fArray pi0_data) = length (fArray dvcs_mc)"
    and "i < length (fArray dvcs_mc)"
  shows "\<exists>hRatio. pi0_cell (Some dvcs_mc) (Some pi0_mc) (Some dvcs_data) (Some pi0_data)
                    = Some hRatio \<and>
           length (fArray hRatio) = length (fArray dvcs_mc) \<and>
           fArray hRatio ! i =
             (if fArray pi0_mc ! i = 0 \<or> fArray dvcs_data ! i = 0 then 0
              else (fArray dvcs_mc ! i / fArray pi0_mc ! i) *
                   (fArray pi0_data ! i / fArray dvcs_data ! i))"
  using assms(4)
  by (simp add: pi0_cell_def Let_def Divide_def Multiply_def Reset_def Clone_def)

lemma cross_section_cell_exists:
  assumes "ix < length (xb_bins_m bins) - 1" "iq < length (q2_bins_m bins) - 1"
    "it < length (t_bins_m bins) - 1"
  shows "\<exists>g h. ComputeDVCS_CrossSection self df bins L = Inr g \<and> g ! ix ! iq ! it = Some h \<and>
           length (fArray h) = n_phi_bins + 2"
proof -
  have b: "(1::nat) \<le> 1" "(1::nat) \<le> n_phi_bins" by (simp_all add: n_phi_bins_def)
  obtain g h where g: "ComputeDVCS_CrossSection self df bins L = Inr g"
      "g ! ix ! iq ! it = Some h" "fXaxis h = phi_axis" "hist_inv h"
    using cross_section_cell [OF assms b, of self df L] by blast
  have "length (fArray h) = n_phi_bins + 2"
    using g(3,4) by (simp add: hist_inv_def GetNbinsX_def phi_axis_def)
  then show ?thesis using g(1,2) by blast
qed

lemma pi0_grid_cell:
  "ix < n_xb \<Longrightarrow> iq < n_q2 \<Longrightarrow> it < n_t \<Longrightarrow>
   pi0_grid n_xb n_q2 n_t mc_dvcs mc_pi0 data_dvcs data_pi0 ! ix ! iq ! it =
     pi0_cell (mc_dvcs ! ix ! iq ! it) (mc_pi0 ! ix ! iq ! it)
              (data_dvcs ! ix ! iq ! it) (data_pi0 ! ix ! iq ! it)"
  by (simp add: pi0_grid_def)

lemma pi0_grid_dims: "dims (pi0_grid n_xb n_q2 n_t a b c d) n_xb n_q2 n_t"
  by (simp add: pi0_grid_def dims_def)

lemma background_correction_cell:
  assumes "ix < length (xb_bins_m xBins) - 1" and "iq < length (q2_bins_m xBins) - 1"
    and "it < length (t_bins_m xBins) - 1" and "b \<le> n_phi_bins + 1"
  shows "\<exists>mc_dvcs mc_pi0 data_dvcs data_pi0 hCorr h_dvcs_mc h_pi0_mc h_dvcs_data h_pi0_data hRatio.
           ComputeDVCS_CrossSection DISANAMath_default df_dvcs_mc xBins 1 = Inr mc_dvcs \<and>
           ComputeDVCS_CrossSection DISANAMath_default df_pi0_mc xBins 1 = Inr mc_pi0 \<and>
           ComputeDVCS_CrossSection DISANAMath_default df_dvcs_data xBins 1 = Inr data_dvcs \<and>
           ComputeDVCS_CrossSection DISANAMath_default df_pi0_data xBins 1 = Inr data_pi0 \<and>
           CalcPi0Corr df_dvcs_mc df_pi0_mc df_dvcs_data df_pi0_data xBins = Inr hCorr \<and>
           dims hCorr (length (xb_bins_m xBins) - 1) (length (q2_bins_m xBins) - 1)
                      (length (t_bins_m xBins) - 1) \<and>
           mc_dvcs ! ix ! iq ! it = Some h_dvcs_mc \<and> mc_pi0 ! ix ! iq ! it = Some h_pi0_mc \<and>
           data_dvcs ! ix ! iq ! it = Some h_dvcs_data \<and>
           data_pi0 ! ix ! iq ! it = Some h_pi0_data \<and>
           hCorr ! ix ! iq ! it = Some hRatio \<and>
           GetBinContent hRatio b =
             (if GetBinContent h_pi0_mc b = 0 \<or> GetBinContent h_dvcs_data b = 0 then 0
              else (GetBinContent h_dvcs_mc b / GetBinContent h_pi0_mc b) *
                   (GetBinContent h_pi0_data b / GetBinContent h_dvcs_data b))"
proof -
  obtain g1 h1 where g1: "ComputeDVCS_CrossSection DISANAMath_default df_dvcs_mc xBins 1 = Inr g1"
      "g1 ! ix ! iq ! it = Some h1" "length (fArray h1) = n_phi_bins + 2"
    using cross_section_cell_exists [OF assms(1-3)] by blast
  obtain g2 h2 where g2: "ComputeDVCS_CrossSection DISANAMath_default df_pi0_mc xBins 1 = Inr g2"
      "g2 ! ix ! iq ! it = Some h2" "length (fArray h2) = n_phi_bins + 2"
    using cross_section_cell_exists [OF assms(1-3)] by blast
  obtain g3 h3 where g3: "ComputeDVCS_CrossSection DISANAMath_default df_dvcs_data xBins 1 = Inr g3"
      "g3 ! ix ! iq ! it = Some h3" "length (fArray h3) = n_phi_bins + 2"
    using cross_section_cell_exists [OF assms(1-3)] by blast
  obtain g4 h4 where g4: "ComputeDVCS_CrossSection DISANAMath_default df_pi0_data xBins 1 = Inr g4"
      "g4 ! ix ! iq ! it = Some h4" "length (fArray h4) = n_phi_bins + 2"
    using cross_section_cell_exists [OF assms(1-3)] by blast
  let ?g = "pi0_grid (length (xb_bins_m xBins) - 1) (length (q2_bins_m xBins) - 1)
              (length (t_bins_m xBins) - 1) g1 g2 g3 g4"
  have r: "CalcPi0Corr df_dvcs_mc df_pi0_mc df_dvcs_data df_pi0_data xBins = Inr ?g"
    by (simp add: CalcPi0Corr_def Let_def g1(1) g2(1) g3(1) g4(1))
  have c: "?g ! ix ! iq ! it = pi0_cell (Some h1) (Some h2) (Some h3) (Some h4)"
    using pi0_grid_cell [OF assms(1-3)] g1(2) g2(2) g3(2) g4(2) by simp
  have bl: "b < length (fArray h1)" using assms(4) g1(3) by simp
  have l: "length (fArray h2) = length (fArray h1)" "length (fArray h3) = length (fArray h1)"
      "length (fArray h4) = length (fArray h1)"
    using g1(3) g2(3) g3(3) g4(3) by simp_all
  obtain hRatio where hr: "pi0_cell (Some h1) (Some h2) (Some h3) (Some h4) = Some hRatio"
      "length (fArray hRatio) = length (fArray h1)"
      "fArray hRatio ! b =
             (if fArray h2 ! b = 0 \<or> fArray h3 ! b = 0 then 0
              else (fArray h1 ! b / fArray h2 ! b) * (fArray h4 ! b / fArray h3 ! b))"
    using pi0_cell_content [OF l bl] by blast
  have gb: "GetBinContent hRatio b = fArray hRatio ! b" "GetBinContent h1 b = fArray h1 ! b"
      "GetBinContent h2 b = fArray h2 ! b" "GetBinContent h3 b = fArray h3 ! b"
      "GetBinContent h4 b = fArray h4 ! b"
    using bl l hr(2) by (simp_all add: GetBinContent_in)
  have "GetBinContent hRatio b =
             (if GetBinContent h2 b = 0 \<or> GetBinContent h3 b = 0 then 0
              else (GetBinContent h1 b / GetBinContent h2 b) *
                   (GetBinContent h4 b / GetBinContent h3 b))"
    unfolding gb by (rule hr(3))
  then have "ComputeDVCS_CrossSection DISANAMath_default df_dvcs_mc xBins 1 = Inr g1 \<and>
           ComputeDVCS_CrossSection DISANAMath_default df_pi0_mc xBins 1 = Inr g2 \<and>
           ComputeDVCS_CrossSection DISANAMath_default df_dvcs_data xBins 1 = Inr g3 \<and>
           ComputeDVCS_CrossSection DISANAMath_default df_pi0_data xBins 1 = Inr g4 \<and>
           CalcPi0Corr df_dvcs_mc df_pi0_mc df_dvcs_data df_pi0_data xBins = Inr ?g \<and>
           dims ?g (length (xb_bins_m xBins) - 1) (length (q2_bins_m xBins) - 1)
                      (length (t_bins_m xBins) - 1) \<and>
           g1 ! ix ! iq ! it = Some h1 \<and> g2 ! ix ! iq ! it = Some h2 \<and>
           g3 ! ix ! iq ! it = Some h3 \<and> g4 ! ix ! iq ! it = Some h4 \<and>
           ?g ! ix ! iq ! it = Some hRatio \<and>
           GetBinContent hRatio b =
             (if GetBinContent h2 b = 0 \<or> GetBinContent h3 b = 0 then 0
              else (GetBinContent h1 b / GetBinContent h2 b) *
                   (GetBinContent h4 b / GetBinContent h3 b))"
    using g1(1,2) g2(1,2) g3(1,2) g4(1,2) r c hr(1) pi0_grid_dims by simp
  then show ?thesis
    apply (rule_tac x = g1 in exI)
    apply (rule_tac x = g2 in exI)
    apply (rule_tac x = g3 in exI)
    apply (rule_tac x = g4 in exI)
    apply (rule_tac x = "?g" in exI)
    apply (rule_tac x = h1 in exI)
    apply (rule_tac x = h2 in exI)
    apply (rule_tac x = h3 in exI)
    apply (rule_tac x = h4 in exI)
    apply (rule_tac x = hRatio in exI)
    apply assumption
    done
qed

text \<open>
  Claim C4, as amended. For the four samples binned on the same grid, every cell of the
  result and every bin \<open>b\<close> of its histogram (underflow and overflow included): the bin
  holds \<open>(signalSimulation / backgroundSimulation) * (backgroundData / signalData)\<close>
  when \<open>backgroundSimulation\<close> and \<open>signalData\<close> are not 0 in that bin, and 0 when one
  of them is 0. When the simulation histograms are equal to the data histograms, the bin
  holds 1 where signal and background are both not 0, and 0 elsewhere.
\<close>

theorem background_correction_bins:
  assumes "ix < length (xb_bins_m xBins) - 1" and "iq < length (q2_bins_m xBins) - 1"
    and "it < length (t_bins_m xBins) - 1" and "b \<le> n_phi_bins + 1"
  shows "\<exists>mc_dvcs mc_pi0 data_dvcs data_pi0 hCorr h_dvcs_mc h_pi0_mc h_dvcs_data h_pi0_data hRatio.
           ComputeDVCS_CrossSection DISANAMath_default df_dvcs_mc xBins 1 = Inr mc_dvcs \<and>
           ComputeDVCS_CrossSection DISANAMath_default df_pi0_mc xBins 1 = Inr mc_pi0 \<and>
           ComputeDVCS_CrossSection DISANAMath_default df_dvcs_data xBins 1 = Inr data_dvcs \<and>
           ComputeDVCS_CrossSection DISANAMath_default df_pi0_data xBins 1 = Inr data_pi0 \<and>
           CalcPi0Corr df_dvcs_mc df_pi0_mc df_dvcs_data df_pi0_data xBins = Inr hCorr \<and>
           mc_dvcs ! ix ! iq ! it = Some h_dvcs_mc \<and> mc_pi0 ! ix ! iq ! it = Some h_pi0_mc \<and>
           data_dvcs ! ix ! iq ! it = Some h_dvcs_data \<and>
           data_pi0 ! ix ! iq ! it = Some h_pi0_data \<and>
           hCorr ! ix ! iq ! it = Some hRatio \<and>
           GetBinContent hRatio b =
             (if GetBinContent h_pi0_mc b = 0 \<or> GetBinContent h_dvcs_data b = 0 then 0
              else (GetBinContent h_dvcs_mc b / GetBinContent h_pi0_mc b) *
                   (GetBinContent h_pi0_data b / GetBinContent h_dvcs_data b)) \<and>
           (h_dvcs_mc = h_dvcs_data \<and> h_pi0_mc = h_pi0_data \<longrightarrow>
              GetBinContent hRatio b =
                (if GetBinContent h_dvcs_mc b = 0 \<or> GetBinContent h_pi0_mc b = 0 then 0 else 1))"
proof -
  from background_correction_cell [OF assms, of df_dvcs_mc df_pi0_mc df_dvcs_data df_pi0_data]
  obtain mc_dvcs mc_pi0 data_dvcs data_pi0 hCorr h_dvcs_mc h_pi0_mc h_dvcs_data h_pi0_data hRatio
    where f:
      "ComputeDVCS_CrossSection DISANAMath_default df_dvcs_mc xBins 1 = Inr mc_dvcs"
      "ComputeDVCS_CrossSection DISANAMath_default df_pi0_mc xBins 1 = Inr mc_pi0"
      "ComputeDVCS_CrossSection DISANAMath_default df_dvcs_data xBins 1 = Inr data_dvcs"
      "ComputeDVCS_CrossSection DISANAMath_default df_pi0_data xBins 1 = Inr data_pi0"
      "CalcPi0Corr df_dvcs_mc df_pi0_mc df_dvcs_data df_pi0_data xBins = Inr hCorr"
      "mc_dvcs ! ix ! iq ! it = Some h_dvcs_mc" "mc_pi0 ! ix ! iq ! it = Some h_pi0_mc"
      "data_dvcs ! ix ! iq ! it = Some h_dvcs_data" "data_pi0 ! ix ! iq ! it = Some h_pi0_data"
      "hCorr ! ix ! iq ! it = Some hRatio"
    and v: "GetBinContent hRatio b =
             (if GetBinContent h_pi0_mc b = 0 \<or> GetBinContent h_dvcs_data b = 0 then 0
              else (GetBinContent h_dvcs_mc b / GetBinContent h_pi0_mc b) *
                   (GetBinContent h_pi0_data b / GetBinContent h_dvcs_data b))"
    by (elim exE conjE) blast
  have e: "GetBinContent hRatio b =
             (if GetBinContent h_dvcs_mc b = 0 \<or> GetBinContent h_pi0_mc b = 0 then 0 else 1)"
    if "h_dvcs_mc = h_dvcs_data \<and> h_pi0_mc = h_pi0_data"
    using v that by auto
  have "ComputeDVCS_CrossSection DISANAMath_default df_dvcs_mc xBins 1 = Inr mc_dvcs \<and>
           ComputeDVCS_CrossSection DISANAMath_default df_pi0_mc xBins 1 = Inr mc_pi0 \<and>
           ComputeDVCS_CrossSection DISANAMath_default df_dvcs_data xBins 1 = Inr data_dvcs \<and>
           ComputeDVCS_CrossSection DISANAMath_default df_pi0_data xBins 1 = Inr data_pi0 \<and>
           CalcPi0Corr df_dvcs_mc df_pi0_mc df_dvcs_data df_pi0_data xBins = Inr hCorr \<and>
           mc_dvcs ! ix ! iq ! it = Some h_dvcs_mc \<and> mc_pi0 ! ix ! iq ! it = Some h_pi0_mc \<and>
           data_dvcs ! ix ! iq ! it = Some h_dvcs_data \<and>
           data_pi0 ! ix ! iq ! it = Some h_pi0_data \<and>
           hCorr ! ix ! iq ! it = Some hRatio \<and>
           GetBinContent hRatio b =
             (if GetBinContent h_pi0_mc b = 0 \<or> GetBinContent h_dvcs_data b = 0 then 0
              else (GetBinContent h_dvcs_mc b / GetBinContent h_pi0_mc b) *
                   (GetBinContent h_pi0_data b / GetBinContent h_dvcs_data b)) \<and>
           (h_dvcs_mc = h_dvcs_data \<and> h_pi0_mc = h_pi0_data \<longrightarrow>
              GetBinContent hRatio b =
                (if GetBinContent h_dvcs_mc b = 0 \<or> GetBinContent h_pi0_mc b = 0 then 0 else 1))"
    using f v e by (intro conjI impI) assumption+
  then show ?thesis
    apply (rule_tac x = mc_dvcs in exI)
    apply (rule_tac x = mc_pi0 in exI)
    apply (rule_tac x = data_dvcs in exI)
    apply (rule_tac x = data_pi0 in exI)
    apply (rule_tac x = hCorr in exI)
    apply (rule_tac x = h_dvcs_mc in exI)
    apply (rule_tac x = h_pi0_mc in exI)
    apply (rule_tac x = h_dvcs_data in exI)
    apply (rule_tac x = h_pi0_data in exI)
    apply (rule_tac x = hRatio in exI)
    apply assumption
    done
qed

lemma one_event_cell000:
  "\<exists>g h. ComputeDVCS_CrossSection DISANAMath_default [(3 / 2, 1 / 5, 3 / 20, 190)]
            BinManager_default 1 = Inr g \<and>
         g ! 0 ! 0 ! 0 = Some h \<and> GetBinContent h 10 = 1 / 20 \<and> GetBinContent h 1 = 0"
proof -
  let ?df = "[(3 / 2, 1 / 5, 3 / 20, 190)] :: event list"
  have s: "(0::nat) < length (xb_bins_m BinManager_default) - 1"
       "(0::nat) < length (q2_bins_m BinManager_default) - 1"
       "(0::nat) < length (t_bins_m BinManager_default) - 1"
    by (simp_all add: BinManager_default_def)
  have b10: "(1::nat) \<le> 10" "(10::nat) \<le> n_phi_bins" by (simp_all add: n_phi_bins_def)
  have b1: "(1::nat) \<le> 1" "(1::nat) \<le> n_phi_bins" by (simp_all add: n_phi_bins_def)
  obtain g h where g:
      "ComputeDVCS_CrossSection DISANAMath_default ?df BinManager_default 1 = Inr g"
      "g ! 0 ! 0 ! 0 = Some h" "fXaxis h = phi_axis" "hist_inv h"
      "fArray h ! 10 =
         sum_weights DISANAMath_default BinManager_default 0 0 0 10 ?df / (1 * 20)"
    using cross_section_cell [OF s b10, of DISANAMath_default ?df 1] by blast
  obtain g' h' where g':
      "ComputeDVCS_CrossSection DISANAMath_default ?df BinManager_default 1 = Inr g'"
      "g' ! 0 ! 0 ! 0 = Some h'"
      "fArray h' ! 1 =
         sum_weights DISANAMath_default BinManager_default 0 0 0 1 ?df / (1 * 20)"
    using cross_section_cell [OF s b1, of DISANAMath_default ?df 1] by blast
  have hh: "h' = h" using g(1,2) g'(1,2) by simp
  have l: "10 < length (fArray h)" "1 < length (fArray h)"
    using g(3,4) by (simp_all add: hist_inv_def GetNbinsX_def phi_axis_def n_phi_bins_def)
  have a: "GetBinContent h 10 = 1 / 20"
    using g(5) by (simp add: GetBinContent_in [OF l(1)] one_event_sum w1)
  have z: "fArray h ! 1 = 0" using g'(3) hh by (simp add: one_event_sum w1)
  have c: "GetBinContent h 1 = 0" by (rule trans [OF GetBinContent_in [OF l(2)] z])
  show ?thesis using g(1,2) a c by blast
qed

theorem background_correction_bins_witness:
  "0 < length (xb_bins_m BinManager_default) - 1 \<and>
   0 < length (q2_bins_m BinManager_default) - 1 \<and>
   0 < length (t_bins_m BinManager_default) - 1 \<and> 10 \<le> n_phi_bins + 1 \<and>
   (\<exists>hCorr hRatio.
      CalcPi0Corr [(3 / 2, 1 / 5, 3 / 20, 190)] [(3 / 2, 1 / 5, 3 / 20, 190)]
        [(3 / 2, 1 / 5, 3 / 20, 190)] [(3 / 2, 1 / 5, 3 / 20, 190)] BinManager_default
        = Inr hCorr \<and>
      hCorr ! 0 ! 0 ! 0 = Some hRatio \<and> GetBinContent hRatio 10 = 1)"
proof -
  let ?df = "[(3 / 2, 1 / 5, 3 / 20, 190)] :: event list"
  have s: "(0::nat) < length (xb_bins_m BinManager_default) - 1"
       "(0::nat) < length (q2_bins_m BinManager_default) - 1"
       "(0::nat) < length (t_bins_m BinManager_default) - 1"
    by (simp_all add: BinManager_default_def)
  have b: "(10::nat) \<le> n_phi_bins + 1" by (simp add: n_phi_bins_def)
  obtain g h where g:
      "ComputeDVCS_CrossSection DISANAMath_default ?df BinManager_default 1 = Inr g"
      "g ! 0 ! 0 ! 0 = Some h" "GetBinContent h 10 = 1 / 20"
    using one_event_cell000 by blast
  from background_correction_bins [OF s b, of ?df ?df ?df ?df]
  obtain mc_dvcs mc_pi0 data_dvcs data_pi0 hCorr h_dvcs_mc h_pi0_mc h_dvcs_data h_pi0_data hRatio
    where f:
      "ComputeDVCS_CrossSection DISANAMath_default ?df BinManager_default 1 = Inr mc_dvcs"
      "ComputeDVCS_CrossSection DISANAMath_default ?df BinManager_default 1 = Inr mc_pi0"
      "ComputeDVCS_CrossSection DISANAMath_default ?df BinManager_default 1 = Inr data_dvcs"
      "ComputeDVCS_CrossSection DISANAMath_default ?df BinManager_default 1 = Inr data_pi0"
      "CalcPi0Corr ?df ?df ?df ?df BinManager_default = Inr hCorr"
      "mc_dvcs ! 0 ! 0 ! 0 = Some h_dvcs_mc" "mc_pi0 ! 0 ! 0 ! 0 = Some h_pi0_mc"
      "data_dvcs ! 0 ! 0 ! 0 = Some h_dvcs_data" "data_pi0 ! 0 ! 0 ! 0 = Some h_pi0_data"
      "hCorr ! 0 ! 0 ! 0 = Some hRatio"
    and e: "h_dvcs_mc = h_dvcs_data \<and> h_pi0_mc = h_pi0_data \<longrightarrow>
              GetBinContent hRatio 10 =
                (if GetBinContent h_dvcs_mc 10 = 0 \<or> GetBinContent h_pi0_mc 10 = 0 then 0 else 1)"
    by (elim exE conjE) blast
  have eqs: "h_dvcs_mc = h" "h_pi0_mc = h" "h_dvcs_data = h" "h_pi0_data = h"
    using f(1-4,6-9) g(1,2) by simp_all
  have "GetBinContent hRatio 10 = 1" using e eqs g(3) by simp
  then show ?thesis using s b f(5,10) by blast
qed

text \<open>
  The same single event in all four samples: the simulation and the data histograms are
  equal, and bin 1 of cell \<open>(0, 0, 0)\<close>, where all four are empty, holds 0, not 1.
\<close>

theorem background_correction_counterexample:
  "bin_content_at
     (CalcPi0Corr [(3 / 2, 1 / 5, 3 / 20, 190)] [(3 / 2, 1 / 5, 3 / 20, 190)]
        [(3 / 2, 1 / 5, 3 / 20, 190)] [(3 / 2, 1 / 5, 3 / 20, 190)] BinManager_default)
     0 0 0 1 = Some 0"
proof -
  let ?df = "[(3 / 2, 1 / 5, 3 / 20, 190)] :: event list"
  have s: "(0::nat) < length (xb_bins_m BinManager_default) - 1"
       "(0::nat) < length (q2_bins_m BinManager_default) - 1"
       "(0::nat) < length (t_bins_m BinManager_default) - 1"
    by (simp_all add: BinManager_default_def)
  have b: "(1::nat) \<le> n_phi_bins + 1" by (simp add: n_phi_bins_def)
  obtain g h where g:
      "ComputeDVCS_CrossSection DISANAMath_default ?df BinManager_default 1 = Inr g"
      "g ! 0 ! 0 ! 0 = Some h" "GetBinContent h 1 = 0"
    using one_event_cell000 by blast
  from background_correction_cell [OF s b, of ?df ?df ?df ?df]
  obtain mc_pi0 hCorr h_pi0_mc h_dvcs_data hRatio x1 x2
    where f:
      "ComputeDVCS_CrossSection DISANAMath_default ?df BinManager_default 1 = Inr mc_pi0"
      "CalcPi0Corr ?df ?df ?df ?df BinManager_default = Inr hCorr"
      "dims hCorr (length (xb_bins_m BinManager_default) - 1)
         (length (q2_bins_m BinManager_default) - 1) (length (t_bins_m BinManager_default) - 1)"
      "mc_pi0 ! 0 ! 0 ! 0 = Some h_pi0_mc"
      "hCorr ! 0 ! 0 ! 0 = Some hRatio"
    and v: "GetBinContent hRatio 1 =
             (if GetBinContent h_pi0_mc 1 = 0 \<or> GetBinContent h_dvcs_data 1 = 0 then 0
              else x1 * x2)"
    by (elim exE conjE) blast
  have "h_pi0_mc = h" using f(1,4) g(1,2) by simp
  then have z: "GetBinContent hRatio 1 = 0" using v g(3) by simp
  have "cell_at (Inr hCorr) 0 0 0 = Some hRatio"
    using cell_at_Inr [OF f(3) s] f(5) by simp
  then show ?thesis unfolding f(2) bin_content_at_def using z by simp
qed

section \<open>The beam-spin asymmetry\<close>

lemma bsa_bin_facts:
  "fXaxis (bsa_bin hp hm pol b ha) = fXaxis ha"
  "length (fArray (bsa_bin hp hm pol b ha)) = length (fArray ha)"
  "length (fSumw2 (bsa_bin hp hm pol b ha)) = length (fSumw2 ha)"
  by (simp_all add: bsa_bin_def Let_def SetBinError_def SetBinContent_def)

lemma bsa_bin_content:
  "b < length (fArray ha) \<Longrightarrow> j < length (fArray ha) \<Longrightarrow>
   fArray (bsa_bin hp hm pol b ha) ! j =
     (if j = b then asymmetry (GetBinContent hp b) (GetBinContent hm b) / pol
      else fArray ha ! j)"
  by (simp add: bsa_bin_def Let_def SetBinError_def SetBinContent_def nth_list_update
      asymmetry_def)

lemma bsa_bin_sumw2:
  "b < length (fSumw2 ha) \<Longrightarrow> j < length (fSumw2 ha) \<Longrightarrow>
   fSumw2 (bsa_bin hp hm pol b ha) ! j =
     (if j = b
      then (asymmetry_error (GetBinContent hp b) (GetBinContent hm b)
              (GetBinError hp b) (GetBinError hm b) / pol) *
           (asymmetry_error (GetBinContent hp b) (GetBinContent hm b)
              (GetBinError hp b) (GetBinError hm b) / pol)
      else fSumw2 ha ! j)"
  by (simp add: bsa_bin_def Let_def SetBinError_def SetBinContent_def nth_list_update
      asymmetry_error_def power2_eq_square)

lemma fold_bsa_bin:
  "\<forall>b\<in>set bs. b < length (fArray ha) \<Longrightarrow> length (fSumw2 ha) = length (fArray ha) \<Longrightarrow>
   fXaxis (fold (bsa_bin hp hm pol) bs ha) = fXaxis ha \<and>
   length (fArray (fold (bsa_bin hp hm pol) bs ha)) = length (fArray ha) \<and>
   length (fSumw2 (fold (bsa_bin hp hm pol) bs ha)) = length (fArray ha) \<and>
   (\<forall>j \<in> set bs.
      fArray (fold (bsa_bin hp hm pol) bs ha) ! j =
        asymmetry (GetBinContent hp j) (GetBinContent hm j) / pol \<and>
      fSumw2 (fold (bsa_bin hp hm pol) bs ha) ! j =
        (asymmetry_error (GetBinContent hp j) (GetBinContent hm j)
           (GetBinError hp j) (GetBinError hm j) / pol) *
        (asymmetry_error (GetBinContent hp j) (GetBinContent hm j)
           (GetBinError hp j) (GetBinError hm j) / pol)) \<and>
   (\<forall>j < length (fArray ha). j \<notin> set bs \<longrightarrow>
      fArray (fold (bsa_bin hp hm pol) bs ha) ! j = fArray ha ! j \<and>
      fSumw2 (fold (bsa_bin hp hm pol) bs ha) ! j = fSumw2 ha ! j)"
proof (induction bs arbitrary: ha rule: rev_induct)
  case Nil
  then show ?case by simp
next
  case (snoc b bs)
  let ?h1 = "fold (bsa_bin hp hm pol) bs ha"
  have r: "\<forall>b\<in>set bs. b < length (fArray ha)" using snoc.prems by simp
  note IH = snoc.IH [OF r snoc.prems(2)]
  have b: "b < length (fArray ?h1)" "b < length (fSumw2 ?h1)" using IH snoc.prems by simp_all
  have f: "fold (bsa_bin hp hm pol) (bs @ [b]) ha = bsa_bin hp hm pol b ?h1" by simp
  show ?case
    unfolding f
  proof (intro conjI ballI allI impI)
    show "fXaxis (bsa_bin hp hm pol b ?h1) = fXaxis ha" using IH by (simp add: bsa_bin_facts)
    show "length (fArray (bsa_bin hp hm pol b ?h1)) = length (fArray ha)"
      using IH by (simp add: bsa_bin_facts)
    show "length (fSumw2 (bsa_bin hp hm pol b ?h1)) = length (fArray ha)"
      using IH by (simp add: bsa_bin_facts)
  next
    fix j assume j: "j \<in> set (bs @ [b])"
    then have jl: "j < length (fArray ?h1)" "j < length (fSumw2 ?h1)"
      using IH snoc.prems by auto
    show "fArray (bsa_bin hp hm pol b ?h1) ! j =
            asymmetry (GetBinContent hp j) (GetBinContent hm j) / pol"
      using j IH by (auto simp: bsa_bin_content [OF b(1) jl(1)])
    show "fSumw2 (bsa_bin hp hm pol b ?h1) ! j =
        (asymmetry_error (GetBinContent hp j) (GetBinContent hm j)
           (GetBinError hp j) (GetBinError hm j) / pol) *
        (asymmetry_error (GetBinContent hp j) (GetBinContent hm j)
           (GetBinError hp j) (GetBinError hm j) / pol)"
      using j IH by (auto simp: bsa_bin_sumw2 [OF b(2) jl(2)])
  next
    fix j assume j: "j < length (fArray ha)" "j \<notin> set (bs @ [b])"
    then have jl: "j < length (fArray ?h1)" "j < length (fSumw2 ?h1)" using IH by simp_all
    show "fArray (bsa_bin hp hm pol b ?h1) ! j = fArray ha ! j"
      using j IH by (auto simp: bsa_bin_content [OF b(1) jl(1)])
    show "fSumw2 (bsa_bin hp hm pol b ?h1) ! j = fSumw2 ha ! j"
      using j IH by (auto simp: bsa_bin_sumw2 [OF b(2) jl(2)])
  qed
qed

lemma bsa_hist_bins:
  assumes "hist_inv hp" and "1 \<le> b" and "b \<le> GetNbinsX hp"
  shows "hist_inv (bsa_hist hp hm pol)"
    and "fXaxis (bsa_hist hp hm pol) = fXaxis hp"
    and "GetBinContent (bsa_hist hp hm pol) b =
           asymmetry (GetBinContent hp b) (GetBinContent hm b) / pol"
    and "GetBinError (bsa_hist hp hm pol) b =
           \<bar>asymmetry_error (GetBinContent hp b) (GetBinContent hm b)
              (GetBinError hp b) (GetBinError hm b) / pol\<bar>"
proof -
  let ?h0 = "Reset (Clone hp)"
  have l0: "length (fArray ?h0) = GetNbinsX hp + 2" "length (fSumw2 ?h0) = length (fArray ?h0)"
    "fXaxis ?h0 = fXaxis hp"
    using assms(1) by (simp_all add: Reset_def Clone_def hist_inv_def)
  have r: "\<forall>b\<in>set [1..<GetNbinsX hp + 1]. b < length (fArray ?h0)" using l0 by auto
  note F = fold_bsa_bin [OF r l0(2), of hp hm pol, folded bsa_hist_def]
  have bm: "b \<in> set [1..<GetNbinsX hp + 1]" using assms(2,3) by auto
  show ax: "fXaxis (bsa_hist hp hm pol) = fXaxis hp" using F l0(3) by simp
  show "hist_inv (bsa_hist hp hm pol)"
    using F l0 ax by (simp add: hist_inv_def GetNbinsX_def)
  have bl: "b < length (fArray (bsa_hist hp hm pol))" "b < length (fSumw2 (bsa_hist hp hm pol))"
    using F l0 assms(3) by simp_all
  have "fArray (bsa_hist hp hm pol) ! b =
           asymmetry (GetBinContent hp b) (GetBinContent hm b) / pol"
    using F bm by blast
  then show "GetBinContent (bsa_hist hp hm pol) b =
           asymmetry (GetBinContent hp b) (GetBinContent hm b) / pol"
    by (simp only: GetBinContent_in [OF bl(1)])
  have "fSumw2 (bsa_hist hp hm pol) ! b =
        (asymmetry_error (GetBinContent hp b) (GetBinContent hm b)
           (GetBinError hp b) (GetBinError hm b) / pol) *
        (asymmetry_error (GetBinContent hp b) (GetBinContent hm b)
           (GetBinError hp b) (GetBinError hm b) / pol)"
    using F bm by blast
  then show "GetBinError (bsa_hist hp hm pol) b =
           \<bar>asymmetry_error (GetBinContent hp b) (GetBinContent hm b)
              (GetBinError hp b) (GetBinError hm b) / pol\<bar>"
    by (simp only: GetBinError_in [OF bl(2)] real_sqrt_abs2)
qed

lemma cell_result_mono:
  "cell_result h0 h' pol hp hm ha \<Longrightarrow> cell_result h0 (h' @ new) pol hp hm ha"
  by (auto simp: cell_result_def nth_append split: option.splits)

lemma bsa_cell_step:
  assumes "ptr_ok h0 hp" and "ptr_ok h0 hm" and "heap w = h0 @ pre"
  shows "\<exists>w1 ha new warn. bsa_cell ix iq it hp hm pol w = Some (w1, ha) \<and>
           heap w1 = heap w @ new \<and> cout w1 = cout w \<and> cerr w1 = cerr w @ warn \<and>
           list_all is_warning warn \<and> cell_result h0 (heap w1) pol hp hm ha"
proof (cases "\<exists>ap am. hp = Some ap \<and> hm = Some am")
  case True
  then obtain ap am where p: "hp = Some ap" "hm = Some am" by blast
  have v: "ap < length h0" "am < length h0" using assms(1,2) p by (simp_all add: ptr_ok_def)
  have d: "deref (heap w) ap = Some (h0 ! ap)" "deref (heap w) am = Some (h0 ! am)"
    using v assms(3) by (simp_all add: deref_def nth_append)
  let ?w1 = "w\<lparr>heap := heap w @ [bsa_hist (h0 ! ap) (h0 ! am) pol]\<rparr>"
  have c: "bsa_cell ix iq it hp hm pol w = Some (?w1, Some (length (heap w)))"
    by (simp add: bsa_cell_def p d)
  have r: "cell_result h0 (heap ?w1) pol hp hm (Some (length (heap w)))"
    using assms(3) by (simp add: cell_result_def p)
  have "heap ?w1 = heap w @ [bsa_hist (h0 ! ap) (h0 ! am) pol] \<and> cout ?w1 = cout w \<and>
        cerr ?w1 = cerr w @ [] \<and> list_all is_warning []"
    by simp
  then show ?thesis using c r by blast
next
  case False
  let ?w1 = "w\<lparr>cerr := cerr w @ [null_hist ix iq it]\<rparr>"
  have c: "bsa_cell ix iq it hp hm pol w = Some (?w1, None)"
    using False by (cases hp; cases hm) (simp_all add: bsa_cell_def)
  have r: "cell_result h0 (heap ?w1) pol hp hm None"
    using False by (cases hp; cases hm) (simp_all add: cell_result_def)
  have "heap ?w1 = heap w @ [] \<and> cout ?w1 = cout w \<and>
        cerr ?w1 = cerr w @ [null_hist ix iq it] \<and> list_all is_warning [null_hist ix iq it]"
    by (simp add: is_warning_def)
  then show ?thesis using c r by blast
qed

lemma bsa_loop_t_char:
  assumes "\<forall>c\<in>set cells. ptr_ok h0 (fst c) \<and> ptr_ok h0 (snd c)" and "heap w = h0 @ pre"
  shows "\<exists>w' row new warn. bsa_loop_t ix iq it cells pol w = Some (w', row) \<and>
           heap w' = heap w @ new \<and> cout w' = cout w \<and> cerr w' = cerr w @ warn \<and>
           list_all is_warning warn \<and> length row = length cells \<and>
           (\<forall>i<length cells.
              cell_result h0 (heap w') pol (fst (cells ! i)) (snd (cells ! i)) (row ! i))"
  using assms
proof (induction cells arbitrary: w pre it)
  case Nil
  have "bsa_loop_t ix iq it [] pol w = Some (w, []) \<and> heap w = heap w @ [] \<and>
        cerr w = cerr w @ [] \<and> list_all is_warning []"
    by simp
  then show ?case by fastforce
next
  case (Cons c rest)
  obtain hp hm where c: "c = (hp, hm)" by (cases c) auto
  have ok: "ptr_ok h0 hp" "ptr_ok h0 hm" using Cons.prems(1) c by simp_all
  obtain w1 ha new1 warn1 where s1: "bsa_cell ix iq it hp hm pol w = Some (w1, ha)"
      "heap w1 = heap w @ new1" "cout w1 = cout w" "cerr w1 = cerr w @ warn1"
      "list_all is_warning warn1" "cell_result h0 (heap w1) pol hp hm ha"
    using bsa_cell_step [OF ok Cons.prems(2), of ix iq it pol] by blast
  have r: "\<forall>c\<in>set rest. ptr_ok h0 (fst c) \<and> ptr_ok h0 (snd c)" using Cons.prems(1) by simp
  have h1: "heap w1 = h0 @ (pre @ new1)" using s1(2) Cons.prems(2) by simp
  obtain w2 has new2 warn2 where s2: "bsa_loop_t ix iq (Suc it) rest pol w1 = Some (w2, has)"
      "heap w2 = heap w1 @ new2" "cout w2 = cout w1" "cerr w2 = cerr w1 @ warn2"
      "list_all is_warning warn2" "length has = length rest"
      "\<forall>i<length rest.
         cell_result h0 (heap w2) pol (fst (rest ! i)) (snd (rest ! i)) (has ! i)"
    using Cons.IH [OF r h1, of "Suc it"] by blast
  have f: "bsa_loop_t ix iq it (c # rest) pol w = Some (w2, ha # has)"
    by (simp add: c s1(1) s2(1))
  have first: "cell_result h0 (heap w2) pol hp hm ha"
    using cell_result_mono [OF s1(6), of new2] s2(2) by simp
  have cells: "cell_result h0 (heap w2) pol (fst ((c # rest) ! i)) (snd ((c # rest) ! i))
                 ((ha # has) ! i)" if "i < length (c # rest)" for i
  proof (cases i)
    case 0
    then show ?thesis using first c by simp
  next
    case (Suc k)
    then show ?thesis using that s2(7) by simp
  qed
  have "heap w2 = heap w @ (new1 @ new2) \<and> cout w2 = cout w \<and>
        cerr w2 = cerr w @ (warn1 @ warn2) \<and> list_all is_warning (warn1 @ warn2) \<and>
        length (ha # has) = length (c # rest)"
    using s1 s2 by simp
  then show ?case using f cells by blast
qed

lemma row_result_mono:
  "row_result h0 h' pol pos neg row \<Longrightarrow> row_result h0 (h' @ new) pol pos neg row"
  by (simp add: row_result_def cell_result_mono)

lemma plane_result_mono:
  "plane_result h0 h' pol pos neg plane \<Longrightarrow> plane_result h0 (h' @ new) pol pos neg plane"
  by (simp add: plane_result_def row_result_mono)

lemma bsa_loop_t_row:
  assumes "list_all (ptr_ok h0) pos" and "list_all (ptr_ok h0) neg"
    and "length pos = length neg" and "heap w = h0 @ pre"
  shows "\<exists>w' row new warn. bsa_loop_t ix iq 0 (zip pos neg) pol w = Some (w', row) \<and>
           heap w' = heap w @ new \<and> cout w' = cout w \<and> cerr w' = cerr w @ warn \<and>
           list_all is_warning warn \<and> row_result h0 (heap w') pol pos neg row"
proof -
  have ok: "\<forall>c\<in>set (zip pos neg). ptr_ok h0 (fst c) \<and> ptr_ok h0 (snd c)"
    using assms(1,2) by (auto simp: list_all_iff dest: set_zip_leftD set_zip_rightD)
  obtain w' row new warn where t: "bsa_loop_t ix iq 0 (zip pos neg) pol w = Some (w', row)"
      "heap w' = heap w @ new" "cout w' = cout w" "cerr w' = cerr w @ warn"
      "list_all is_warning warn" "length row = length (zip pos neg)"
      "\<forall>i<length (zip pos neg).
          cell_result h0 (heap w') pol (fst (zip pos neg ! i)) (snd (zip pos neg ! i)) (row ! i)"
    using bsa_loop_t_char [OF ok assms(4), of ix iq 0 pol] by blast
  have "row_result h0 (heap w') pol pos neg row"
    using t(6,7) assms(3) by (simp add: row_result_def)
  then show ?thesis using t(1-5) by blast
qed

lemma bsa_loop_q_char:
  assumes "\<forall>r\<in>set rows. list_all (ptr_ok h0) (fst r) \<and> list_all (ptr_ok h0) (snd r)"
    and "heap w = h0 @ pre"
  shows "\<exists>w' res new warn. bsa_loop_q ix iq rows pol w = Some (w', res) \<and>
           heap w' = heap w @ new \<and> cout w' = cout w \<and> list_all is_warning warn \<and>
           (\<forall>plane. res = Completed plane \<longrightarrow>
              cerr w' = cerr w @ warn \<and> length plane = length rows \<and>
              (\<forall>j<length rows.
                 row_result h0 (heap w') pol (fst (rows ! j)) (snd (rows ! j)) (plane ! j))) \<and>
           (res = Returned_empty \<longrightarrow>
              (\<exists>j<length rows. cerr w' = cerr w @ warn @ [t_dim_mismatch ix (iq + j)] \<and>
                 length (fst (rows ! j)) \<noteq> length (snd (rows ! j))))"
  using assms
proof (induction rows arbitrary: w pre iq)
  case Nil
  have "bsa_loop_q ix iq [] pol w = Some (w, Completed []) \<and> heap w = heap w @ [] \<and>
        cerr w = cerr w @ [] \<and> list_all is_warning []"
    by simp
  then show ?case by fastforce
next
  case (Cons r rest)
  obtain pos neg where r: "r = (pos, neg)" by (cases r) auto
  show ?case
  proof (cases "length pos = length neg")
    case False
    let ?w1 = "w\<lparr>cerr := cerr w @ [t_dim_mismatch ix iq]\<rparr>"
    have f: "bsa_loop_q ix iq (r # rest) pol w = Some (?w1, Returned_empty)"
      using False by (simp add: r)
    have "heap ?w1 = heap w @ [] \<and> cout ?w1 = cout w \<and> list_all is_warning [] \<and>
          (0 < length (r # rest) \<and> cerr ?w1 = cerr w @ [] @ [t_dim_mismatch ix (iq + 0)] \<and>
           length (fst ((r # rest) ! 0)) \<noteq> length (snd ((r # rest) ! 0)))"
      using False by (simp add: r)
    then show ?thesis using f by blast
  next
    case True
    have ok: "list_all (ptr_ok h0) pos" "list_all (ptr_ok h0) neg"
      using Cons.prems(1) r by simp_all
    obtain w1 row new1 warn1 where t: "bsa_loop_t ix iq 0 (zip pos neg) pol w = Some (w1, row)"
        "heap w1 = heap w @ new1" "cout w1 = cout w" "cerr w1 = cerr w @ warn1"
        "list_all is_warning warn1" "row_result h0 (heap w1) pol pos neg row"
      using bsa_loop_t_row [OF ok True Cons.prems(2), of ix iq pol] by blast
    have rs: "\<forall>r\<in>set rest. list_all (ptr_ok h0) (fst r) \<and> list_all (ptr_ok h0) (snd r)"
      using Cons.prems(1) by simp
    have h1: "heap w1 = h0 @ (pre @ new1)" using t(2) Cons.prems(2) by simp
    obtain w2 res new2 warn2 where q: "bsa_loop_q ix (Suc iq) rest pol w1 = Some (w2, res)"
        "heap w2 = heap w1 @ new2" "cout w2 = cout w1" "list_all is_warning warn2"
        "\<forall>plane. res = Completed plane \<longrightarrow>
              cerr w2 = cerr w1 @ warn2 \<and> length plane = length rest \<and>
              (\<forall>j<length rest.
                 row_result h0 (heap w2) pol (fst (rest ! j)) (snd (rest ! j)) (plane ! j))"
        "res = Returned_empty \<longrightarrow>
              (\<exists>j<length rest. cerr w2 = cerr w1 @ warn2 @ [t_dim_mismatch ix (Suc iq + j)] \<and>
                 length (fst (rest ! j)) \<noteq> length (snd (rest ! j)))"
      using Cons.IH [OF rs h1, of "Suc iq"] by blast
    have frame: "heap w2 = heap w @ (new1 @ new2)" "cout w2 = cout w"
      "list_all is_warning (warn1 @ warn2)"
      using t q by simp_all
    show ?thesis
    proof (cases res)
      case Returned_empty
      have f: "bsa_loop_q ix iq (r # rest) pol w = Some (w2, Returned_empty)"
        using True by (simp add: r t(1) q(1) Returned_empty)
      obtain j where j: "j < length rest"
          "cerr w2 = cerr w1 @ warn2 @ [t_dim_mismatch ix (Suc iq + j)]"
          "length (fst (rest ! j)) \<noteq> length (snd (rest ! j))"
        using q(6) Returned_empty by blast
      have "Suc j < length (r # rest) \<and>
            cerr w2 = cerr w @ (warn1 @ warn2) @ [t_dim_mismatch ix (iq + Suc j)] \<and>
            length (fst ((r # rest) ! Suc j)) \<noteq> length (snd ((r # rest) ! Suc j))"
        using j t(4) by simp
      then have "\<exists>j<length (r # rest).
            cerr w2 = cerr w @ (warn1 @ warn2) @ [t_dim_mismatch ix (iq + j)] \<and>
            length (fst ((r # rest) ! j)) \<noteq> length (snd ((r # rest) ! j))"
        by blast
      then show ?thesis using f frame by blast
    next
      case (Completed rows')
      have f: "bsa_loop_q ix iq (r # rest) pol w = Some (w2, Completed (row # rows'))"
        using True by (simp add: r t(1) q(1) Completed)
      have c: "cerr w2 = cerr w1 @ warn2" "length rows' = length rest"
          "\<forall>j<length rest.
             row_result h0 (heap w2) pol (fst (rest ! j)) (snd (rest ! j)) (rows' ! j)"
        using q(5) Completed by blast+
      have first: "row_result h0 (heap w2) pol pos neg row"
        using row_result_mono [OF t(6), of new2] q(2) by simp
      have each: "row_result h0 (heap w2) pol (fst ((r # rest) ! j)) (snd ((r # rest) ! j))
                    ((row # rows') ! j)" if "j < length (r # rest)" for j
      proof (cases j)
        case 0
        then show ?thesis using first r by simp
      next
        case (Suc k)
        then show ?thesis using that c(3) by simp
      qed
      have "cerr w2 = cerr w @ (warn1 @ warn2) \<and> length (row # rows') = length (r # rest)"
        using c t(4) by simp
      then have "\<forall>plane. Completed (row # rows') = Completed plane \<longrightarrow>
              cerr w2 = cerr w @ (warn1 @ warn2) \<and> length plane = length (r # rest) \<and>
              (\<forall>j<length (r # rest).
                 row_result h0 (heap w2) pol (fst ((r # rest) ! j)) (snd ((r # rest) ! j))
                   (plane ! j))"
        using each by simp
      then show ?thesis using f frame by blast
    qed
  qed
qed

lemma bsa_loop_q_plane:
  assumes "list_all (list_all (ptr_ok h0)) pos" and "list_all (list_all (ptr_ok h0)) neg"
    and "length pos = length neg" and "heap w = h0 @ pre"
  shows "\<exists>w' res new warn. bsa_loop_q ix 0 (zip pos neg) pol w = Some (w', res) \<and>
           heap w' = heap w @ new \<and> cout w' = cout w \<and> list_all is_warning warn \<and>
           (\<forall>plane. res = Completed plane \<longrightarrow>
              cerr w' = cerr w @ warn \<and> plane_result h0 (heap w') pol pos neg plane) \<and>
           (res = Returned_empty \<longrightarrow>
              (\<exists>j<length pos. cerr w' = cerr w @ warn @ [t_dim_mismatch ix j] \<and>
                 length (pos ! j) \<noteq> length (neg ! j)))"
proof -
  have ok: "\<forall>r\<in>set (zip pos neg). list_all (ptr_ok h0) (fst r) \<and> list_all (ptr_ok h0) (snd r)"
    using assms(1,2) by (auto simp: list_all_iff dest: set_zip_leftD set_zip_rightD)
  obtain w' res new warn where q: "bsa_loop_q ix 0 (zip pos neg) pol w = Some (w', res)"
      "heap w' = heap w @ new" "cout w' = cout w" "list_all is_warning warn"
      "\<forall>plane. res = Completed plane \<longrightarrow>
              cerr w' = cerr w @ warn \<and> length plane = length (zip pos neg) \<and>
              (\<forall>j<length (zip pos neg).
                 row_result h0 (heap w') pol (fst (zip pos neg ! j)) (snd (zip pos neg ! j))
                   (plane ! j))"
      "res = Returned_empty \<longrightarrow>
              (\<exists>j<length (zip pos neg). cerr w' = cerr w @ warn @ [t_dim_mismatch ix (0 + j)] \<and>
                 length (fst (zip pos neg ! j)) \<noteq> length (snd (zip pos neg ! j)))"
    using bsa_loop_q_char [OF ok assms(4), of ix 0 pol] by blast
  have a: "\<forall>plane. res = Completed plane \<longrightarrow>
              cerr w' = cerr w @ warn \<and> plane_result h0 (heap w') pol pos neg plane"
    using q(5) assms(3) by (simp add: plane_result_def)
  have b: "res = Returned_empty \<longrightarrow>
              (\<exists>j<length pos. cerr w' = cerr w @ warn @ [t_dim_mismatch ix j] \<and>
                 length (pos ! j) \<noteq> length (neg ! j))"
    using q(6) assms(3) by auto
  show ?thesis using q(1-4) a b by blast
qed

lemma bsa_loop_x_char:
  assumes "\<forall>p\<in>set planes. list_all (list_all (ptr_ok h0)) (fst p) \<and>
                           list_all (list_all (ptr_ok h0)) (snd p)"
    and "heap w = h0 @ pre"
  shows "\<exists>w' res new warn. bsa_loop_x ix planes pol w = Some (w', res) \<and>
           heap w' = heap w @ new \<and> cout w' = cout w \<and> list_all is_warning warn \<and>
           (\<forall>g. res = Completed g \<longrightarrow>
              cerr w' = cerr w @ warn \<and> length g = length planes \<and>
              (\<forall>k<length planes.
                 plane_result h0 (heap w') pol (fst (planes ! k)) (snd (planes ! k)) (g ! k))) \<and>
           (res = Returned_empty \<longrightarrow>
              (\<exists>k<length planes.
                 (cerr w' = cerr w @ warn @ [Q2_dim_mismatch (ix + k)] \<and>
                  length (fst (planes ! k)) \<noteq> length (snd (planes ! k))) \<or>
                 (\<exists>j<length (fst (planes ! k)).
                    cerr w' = cerr w @ warn @ [t_dim_mismatch (ix + k) j] \<and>
                    length (fst (planes ! k)) = length (snd (planes ! k)) \<and>
                    length (fst (planes ! k) ! j) \<noteq> length (snd (planes ! k) ! j))))"
  using assms
proof (induction planes arbitrary: w pre ix)
  case Nil
  have "bsa_loop_x ix [] pol w = Some (w, Completed []) \<and> heap w = heap w @ [] \<and>
        cerr w = cerr w @ [] \<and> list_all is_warning []"
    by simp
  then show ?case by fastforce
next
  case (Cons p rest)
  obtain pos neg where p: "p = (pos, neg)" by (cases p) auto
  let ?bad = "\<lambda>w' warn k.
                 (cerr w' = cerr w @ warn @ [Q2_dim_mismatch (ix + k)] \<and>
                  length (fst ((p # rest) ! k)) \<noteq> length (snd ((p # rest) ! k))) \<or>
                 (\<exists>j<length (fst ((p # rest) ! k)).
                    cerr w' = cerr w @ warn @ [t_dim_mismatch (ix + k) j] \<and>
                    length (fst ((p # rest) ! k)) = length (snd ((p # rest) ! k)) \<and>
                    length (fst ((p # rest) ! k) ! j) \<noteq> length (snd ((p # rest) ! k) ! j))"
  show ?case
  proof (cases "length pos = length neg")
    case False
    let ?w1 = "w\<lparr>cerr := cerr w @ [Q2_dim_mismatch ix]\<rparr>"
    have f: "bsa_loop_x ix (p # rest) pol w = Some (?w1, Returned_empty)"
      using False by (simp add: p)
    have "?bad ?w1 [] 0" using False by (simp add: p)
    then have "\<exists>k<length (p # rest). ?bad ?w1 [] k" by blast
    moreover have "heap ?w1 = heap w @ [] \<and> cout ?w1 = cout w \<and> list_all is_warning []"
      by simp
    ultimately show ?thesis using f by blast
  next
    case True
    have ok: "list_all (list_all (ptr_ok h0)) pos" "list_all (list_all (ptr_ok h0)) neg"
      using Cons.prems(1) p by simp_all
    obtain w1 res1 new1 warn1 where q: "bsa_loop_q ix 0 (zip pos neg) pol w = Some (w1, res1)"
        "heap w1 = heap w @ new1" "cout w1 = cout w" "list_all is_warning warn1"
        "\<forall>plane. res1 = Completed plane \<longrightarrow>
              cerr w1 = cerr w @ warn1 \<and> plane_result h0 (heap w1) pol pos neg plane"
        "res1 = Returned_empty \<longrightarrow>
              (\<exists>j<length pos. cerr w1 = cerr w @ warn1 @ [t_dim_mismatch ix j] \<and>
                 length (pos ! j) \<noteq> length (neg ! j))"
      using bsa_loop_q_plane [OF ok True Cons.prems(2), of ix pol] by blast
    show ?thesis
    proof (cases res1)
      case Returned_empty
      have f: "bsa_loop_x ix (p # rest) pol w = Some (w1, Returned_empty)"
        using True by (simp add: p q(1) Returned_empty)
      obtain j where j: "j < length pos" "cerr w1 = cerr w @ warn1 @ [t_dim_mismatch ix j]"
          "length (pos ! j) \<noteq> length (neg ! j)"
        using q(6) Returned_empty by blast
      have "?bad w1 warn1 0" using j True by (auto simp: p)
      then have "\<exists>k<length (p # rest). ?bad w1 warn1 k" by blast
      then show ?thesis using f q(2,3,4) by blast
    next
      case (Completed plane)
      have c1: "cerr w1 = cerr w @ warn1" "plane_result h0 (heap w1) pol pos neg plane"
        using q(5) Completed by blast+
      have rs: "\<forall>p\<in>set rest. list_all (list_all (ptr_ok h0)) (fst p) \<and>
                           list_all (list_all (ptr_ok h0)) (snd p)"
        using Cons.prems(1) by simp
      have h1: "heap w1 = h0 @ (pre @ new1)" using q(2) Cons.prems(2) by simp
      obtain w2 res new2 warn2 where x: "bsa_loop_x (Suc ix) rest pol w1 = Some (w2, res)"
          "heap w2 = heap w1 @ new2" "cout w2 = cout w1" "list_all is_warning warn2"
          "\<forall>g. res = Completed g \<longrightarrow>
              cerr w2 = cerr w1 @ warn2 \<and> length g = length rest \<and>
              (\<forall>k<length rest.
                 plane_result h0 (heap w2) pol (fst (rest ! k)) (snd (rest ! k)) (g ! k))"
          "res = Returned_empty \<longrightarrow>
              (\<exists>k<length rest.
                 (cerr w2 = cerr w1 @ warn2 @ [Q2_dim_mismatch (Suc ix + k)] \<and>
                  length (fst (rest ! k)) \<noteq> length (snd (rest ! k))) \<or>
                 (\<exists>j<length (fst (rest ! k)).
                    cerr w2 = cerr w1 @ warn2 @ [t_dim_mismatch (Suc ix + k) j] \<and>
                    length (fst (rest ! k)) = length (snd (rest ! k)) \<and>
                    length (fst (rest ! k) ! j) \<noteq> length (snd (rest ! k) ! j)))"
        using Cons.IH [OF rs h1, of "Suc ix"] by blast
      have frame: "heap w2 = heap w @ (new1 @ new2)" "cout w2 = cout w"
        "list_all is_warning (warn1 @ warn2)"
        using q x by simp_all
      show ?thesis
      proof (cases res)
        case Returned_empty
        have f: "bsa_loop_x ix (p # rest) pol w = Some (w2, Returned_empty)"
          using True by (simp add: p q(1) \<open>res1 = Completed plane\<close> x(1) Returned_empty)
        obtain k where k: "k < length rest"
            "(cerr w2 = cerr w1 @ warn2 @ [Q2_dim_mismatch (Suc ix + k)] \<and>
                  length (fst (rest ! k)) \<noteq> length (snd (rest ! k))) \<or>
                 (\<exists>j<length (fst (rest ! k)).
                    cerr w2 = cerr w1 @ warn2 @ [t_dim_mismatch (Suc ix + k) j] \<and>
                    length (fst (rest ! k)) = length (snd (rest ! k)) \<and>
                    length (fst (rest ! k) ! j) \<noteq> length (snd (rest ! k) ! j))"
          using x(6) Returned_empty by blast
        have "?bad w2 (warn1 @ warn2) (Suc k)" using k(2) c1(1) by simp
        moreover have "Suc k < length (p # rest)" using k(1) by simp
        ultimately have "\<exists>k<length (p # rest). ?bad w2 (warn1 @ warn2) k" by blast
        then show ?thesis using f frame by blast
      next
        case (Completed g)
        have f: "bsa_loop_x ix (p # rest) pol w = Some (w2, Completed (plane # g))"
          using True by (simp add: p q(1) \<open>res1 = Completed plane\<close> x(1) Completed)
        have c: "cerr w2 = cerr w1 @ warn2" "length g = length rest"
            "\<forall>k<length rest.
               plane_result h0 (heap w2) pol (fst (rest ! k)) (snd (rest ! k)) (g ! k)"
          using x(5) Completed by blast+
        have first: "plane_result h0 (heap w2) pol pos neg plane"
          using plane_result_mono [OF c1(2), of new2] x(2) by simp
        have each: "plane_result h0 (heap w2) pol (fst ((p # rest) ! k)) (snd ((p # rest) ! k))
                    ((plane # g) ! k)" if "k < length (p # rest)" for k
        proof (cases k)
          case 0
          then show ?thesis using first p by simp
        next
          case (Suc k')
          then show ?thesis using that c(3) by simp
        qed
        have "cerr w2 = cerr w @ (warn1 @ warn2) \<and> length (plane # g) = length (p # rest)"
          using c c1(1) by simp
        then have "\<forall>g'. Completed (plane # g) = Completed g' \<longrightarrow>
              cerr w2 = cerr w @ (warn1 @ warn2) \<and> length g' = length (p # rest) \<and>
              (\<forall>k<length (p # rest).
                 plane_result h0 (heap w2) pol (fst ((p # rest) ! k)) (snd ((p # rest) ! k))
                   (g' ! k))"
          using each by simp
        then show ?thesis using f frame by blast
      qed
    qed
  qed
qed

lemma bsa_outcome:
  assumes "grid_ok (heap w) sigma_pos" and "grid_ok (heap w) sigma_neg"
  shows "\<exists>w' g new warn.
           ComputeBeamSpinAsymmetry sigma_pos sigma_neg pol w = Some (w', g) \<and>
           heap w' = heap w @ new \<and> list_all is_warning warn \<and>
           ((grid_result (heap w) (heap w') pol sigma_pos sigma_neg g \<and>
             cerr w' = cerr w @ warn \<and>
             cout w' = cout w @ [''Beam-Spin Asymmetries (3D) computed.'']) \<or>
            (g = [] \<and> cout w' = cout w \<and>
             (\<exists>e. cerr w' = cerr w @ warn @ [e] \<and> reports_mismatch sigma_pos sigma_neg e)))"
proof (cases "length sigma_pos = length sigma_neg")
  case False
  let ?w1 = "w\<lparr>cerr := cerr w @ [xB_dim_mismatch]\<rparr>"
  have f: "ComputeBeamSpinAsymmetry sigma_pos sigma_neg pol w = Some (?w1, [])"
    using False by (simp add: ComputeBeamSpinAsymmetry_def)
  have "heap ?w1 = heap w @ [] \<and> list_all is_warning [] \<and> cout ?w1 = cout w \<and>
        cerr ?w1 = cerr w @ [] @ [xB_dim_mismatch] \<and>
        reports_mismatch sigma_pos sigma_neg xB_dim_mismatch"
    using False by (simp add: reports_mismatch_def)
  then show ?thesis using f by blast
next
  case True
  let ?planes = "zip sigma_pos sigma_neg"
  have ok: "\<forall>p\<in>set ?planes. list_all (list_all (ptr_ok (heap w))) (fst p) \<and>
                           list_all (list_all (ptr_ok (heap w))) (snd p)"
  proof
    fix p assume "p \<in> set ?planes"
    then have "fst p \<in> set sigma_pos" "snd p \<in> set sigma_neg"
      by (metis prod.collapse set_zip_leftD, metis prod.collapse set_zip_rightD)
    then show "list_all (list_all (ptr_ok (heap w))) (fst p) \<and>
               list_all (list_all (ptr_ok (heap w))) (snd p)"
      using assms by (simp add: grid_ok_def list_all_iff)
  qed
  have h: "heap w = heap w @ []" by simp
  have nth: "\<And>k. k < length sigma_pos \<Longrightarrow> ?planes ! k = (sigma_pos ! k, sigma_neg ! k)"
    using True by simp
  have len: "length ?planes = length sigma_pos" using True by simp
  obtain w1 res new warn where x: "bsa_loop_x 0 ?planes pol w = Some (w1, res)"
      "heap w1 = heap w @ new" "cout w1 = cout w" "list_all is_warning warn"
      "\<forall>g. res = Completed g \<longrightarrow>
              cerr w1 = cerr w @ warn \<and> length g = length ?planes \<and>
              (\<forall>k<length ?planes.
                 plane_result (heap w) (heap w1) pol (fst (?planes ! k)) (snd (?planes ! k))
                   (g ! k))"
      "res = Returned_empty \<longrightarrow>
              (\<exists>k<length ?planes.
                 (cerr w1 = cerr w @ warn @ [Q2_dim_mismatch (0 + k)] \<and>
                  length (fst (?planes ! k)) \<noteq> length (snd (?planes ! k))) \<or>
                 (\<exists>j<length (fst (?planes ! k)).
                    cerr w1 = cerr w @ warn @ [t_dim_mismatch (0 + k) j] \<and>
                    length (fst (?planes ! k)) = length (snd (?planes ! k)) \<and>
                    length (fst (?planes ! k) ! j) \<noteq> length (snd (?planes ! k) ! j)))"
    using bsa_loop_x_char [OF ok h, of 0 pol] by blast
  show ?thesis
  proof (cases res)
    case Returned_empty
    have f: "ComputeBeamSpinAsymmetry sigma_pos sigma_neg pol w = Some (w1, [])"
      using True by (simp add: ComputeBeamSpinAsymmetry_def x(1) Returned_empty)
    obtain k where k: "k < length sigma_pos"
        "(cerr w1 = cerr w @ warn @ [Q2_dim_mismatch k] \<and>
            length (sigma_pos ! k) \<noteq> length (sigma_neg ! k)) \<or>
         (\<exists>j<length (sigma_pos ! k).
            cerr w1 = cerr w @ warn @ [t_dim_mismatch k j] \<and>
            length (sigma_pos ! k) = length (sigma_neg ! k) \<and>
            length (sigma_pos ! k ! j) \<noteq> length (sigma_neg ! k ! j))"
      using x(6) Returned_empty len nth by auto
    have "\<exists>e. cerr w1 = cerr w @ warn @ [e] \<and> reports_mismatch sigma_pos sigma_neg e"
    proof (rule disjE [OF k(2)])
      assume a: "cerr w1 = cerr w @ warn @ [Q2_dim_mismatch k] \<and>
            length (sigma_pos ! k) \<noteq> length (sigma_neg ! k)"
      then have "reports_mismatch sigma_pos sigma_neg (Q2_dim_mismatch k)"
        using True k(1) by (simp add: reports_mismatch_def)
      then show ?thesis using a by blast
    next
      assume "\<exists>j<length (sigma_pos ! k).
            cerr w1 = cerr w @ warn @ [t_dim_mismatch k j] \<and>
            length (sigma_pos ! k) = length (sigma_neg ! k) \<and>
            length (sigma_pos ! k ! j) \<noteq> length (sigma_neg ! k ! j)"
      then obtain j where j: "j < length (sigma_pos ! k)"
          "cerr w1 = cerr w @ warn @ [t_dim_mismatch k j]"
          "length (sigma_pos ! k) = length (sigma_neg ! k)"
          "length (sigma_pos ! k ! j) \<noteq> length (sigma_neg ! k ! j)"
        by blast
      have "reports_mismatch sigma_pos sigma_neg (t_dim_mismatch k j)"
        using True k(1) j by (simp add: reports_mismatch_def)
      then show ?thesis using j(2) by blast
    qed
    then show ?thesis using f x(2,3,4) by blast
  next
    case (Completed g)
    let ?w2 = "w1\<lparr>cout := cout w1 @ [''Beam-Spin Asymmetries (3D) computed.'']\<rparr>"
    have f: "ComputeBeamSpinAsymmetry sigma_pos sigma_neg pol w = Some (?w2, g)"
      using True by (simp add: ComputeBeamSpinAsymmetry_def x(1) Completed)
    have c: "cerr w1 = cerr w @ warn" "length g = length sigma_pos"
        "\<forall>k<length sigma_pos.
           plane_result (heap w) (heap w1) pol (sigma_pos ! k) (sigma_neg ! k) (g ! k)"
      using x(5) Completed len nth by auto
    have "grid_result (heap w) (heap ?w2) pol sigma_pos sigma_neg g"
      using c True by (simp add: grid_result_def)
    moreover have "heap ?w2 = heap w @ new \<and> cerr ?w2 = cerr w @ warn \<and>
        cout ?w2 = cout w @ [''Beam-Spin Asymmetries (3D) computed.'']"
      using x(2,3) c(1) by simp
    ultimately show ?thesis using f x(4) by blast
  qed
qed

lemma grid_result_shape:
  assumes "grid_result h0 h' pol pos neg g"
  shows "shape pos = shape neg" and "shape g = shape pos"
proof -
  have l: "length pos = length neg" "length g = length pos"
    using assms by (simp_all add: grid_result_def)
  have p: "plane_result h0 h' pol (pos ! k) (neg ! k) (g ! k)" if "k < length pos" for k
    using assms that by (simp add: grid_result_def)
  have a: "map length (pos ! k) = map length (neg ! k) \<and>
           map length (g ! k) = map length (pos ! k)" if k: "k < length pos" for k
  proof -
    have pl: "length (pos ! k) = length (neg ! k)" "length (g ! k) = length (pos ! k)"
      "\<And>j. j < length (pos ! k) \<Longrightarrow>
            row_result h0 h' pol (pos ! k ! j) (neg ! k ! j) (g ! k ! j)"
      using p [OF k] by (simp_all add: plane_result_def)
    have "map length (pos ! k) = map length (neg ! k)"
      using pl by (intro nth_equalityI) (simp_all add: row_result_def)
    moreover have "map length (g ! k) = map length (pos ! k)"
      using pl by (intro nth_equalityI) (simp_all add: row_result_def)
    ultimately show ?thesis by simp
  qed
  show "shape pos = shape neg"
    unfolding shape_def using l a by (intro nth_equalityI) simp_all
  show "shape g = shape pos"
    unfolding shape_def using l a by (intro nth_equalityI) simp_all
qed

lemma reports_mismatch_shape:
  assumes "reports_mismatch pos neg e"
  shows "shape pos \<noteq> shape neg"
proof
  assume s: "shape pos = shape neg"
  have l: "length pos = length neg" using s by (metis shape_def length_map)
  have r: "map length (pos ! k) = map length (neg ! k)" if "k < length pos" for k
    using s that l by (metis shape_def nth_map)
  have rl: "length (pos ! k) = length (neg ! k)" if "k < length pos" for k
    using r [OF that] by (metis length_map)
  have c: "length (pos ! k ! j) = length (neg ! k ! j)"
    if "k < length pos" "j < length (pos ! k)" for k j
    using r [OF that(1)] rl [OF that(1)] that(2) by (metis nth_map)
  show False
    using assms l rl c by (cases e) (auto simp: reports_mismatch_def)
qed

lemma grid_result_cell:
  assumes "grid_result h0 h' pol pos neg g"
    and "ix < length pos" and "iq < length (pos ! ix)" and "it < length (pos ! ix ! iq)"
  shows "cell_result h0 h' pol (pos ! ix ! iq ! it) (neg ! ix ! iq ! it) (g ! ix ! iq ! it)"
proof -
  have "plane_result h0 h' pol (pos ! ix) (neg ! ix) (g ! ix)"
    using assms(1,2) by (simp add: grid_result_def)
  then have "row_result h0 h' pol (pos ! ix ! iq) (neg ! ix ! iq) (g ! ix ! iq)"
    using assms(3) by (simp add: plane_result_def)
  then show ?thesis using assms(4) by (simp add: row_result_def)
qed

lemma asymmetry_error_nonneg: "0 \<le> asymmetry_error Np Nm Ep Em"
  by (simp add: asymmetry_error_def)

lemma beam_spin_asymmetry_cell:
  assumes "grid_ok (heap w) sigma_pos" and "grid_ok (heap w) sigma_neg"
    and "shape sigma_pos = shape sigma_neg"
    and "ix < length sigma_pos" and "iq < length (sigma_pos ! ix)"
    and "it < length (sigma_pos ! ix ! iq)"
    and "sigma_pos ! ix ! iq ! it = Some ap" and "sigma_neg ! ix ! iq ! it = Some am"
    and "hist_inv (heap w ! ap)" and "1 \<le> b" and "b \<le> GetNbinsX (heap w ! ap)"
  shows "\<exists>w' g a.
           ComputeBeamSpinAsymmetry sigma_pos sigma_neg pol w = Some (w', g) \<and>
           shape g = shape sigma_pos \<and>
           ix < length g \<and> iq < length (g ! ix) \<and> it < length (g ! ix ! iq) \<and>
           g ! ix ! iq ! it = Some a \<and> a < length (heap w') \<and>
           GetBinContent (heap w' ! a) b =
             asymmetry (GetBinContent (heap w ! ap) b) (GetBinContent (heap w ! am) b) / pol \<and>
           GetBinError (heap w' ! a) b =
             \<bar>asymmetry_error (GetBinContent (heap w ! ap) b) (GetBinContent (heap w ! am) b)
                (GetBinError (heap w ! ap) b) (GetBinError (heap w ! am) b) / pol\<bar>"
proof -
  obtain w' g new warn where o:
      "ComputeBeamSpinAsymmetry sigma_pos sigma_neg pol w = Some (w', g)"
      "(grid_result (heap w) (heap w') pol sigma_pos sigma_neg g \<and>
             cerr w' = cerr w @ warn \<and>
             cout w' = cout w @ [''Beam-Spin Asymmetries (3D) computed.'']) \<or>
            (g = [] \<and> cout w' = cout w \<and>
             (\<exists>e. cerr w' = cerr w @ warn @ [e] \<and> reports_mismatch sigma_pos sigma_neg e))"
    using bsa_outcome [OF assms(1,2), of pol] by blast
  have gr: "grid_result (heap w) (heap w') pol sigma_pos sigma_neg g"
    using o(2) reports_mismatch_shape assms(3) by blast
  have l1: "ix < length g" using gr assms(4) by (simp add: grid_result_def)
  have pl: "plane_result (heap w) (heap w') pol (sigma_pos ! ix) (sigma_neg ! ix) (g ! ix)"
    using gr assms(4) by (simp add: grid_result_def)
  then have l2: "iq < length (g ! ix)" using assms(5) by (simp add: plane_result_def)
  have "row_result (heap w) (heap w') pol (sigma_pos ! ix ! iq) (sigma_neg ! ix ! iq)
          (g ! ix ! iq)"
    using pl assms(5) by (simp add: plane_result_def)
  then have l3: "it < length (g ! ix ! iq)" using assms(6) by (simp add: row_result_def)
  have "cell_result (heap w) (heap w') pol (Some ap) (Some am) (g ! ix ! iq ! it)"
    using grid_result_cell [OF gr assms(4-6)] assms(7,8) by simp
  then obtain a where a: "g ! ix ! iq ! it = Some a" "a < length (heap w')"
      "heap w' ! a = bsa_hist (heap w ! ap) (heap w ! am) pol"
    by (auto simp: cell_result_def)
  let ?Np = "GetBinContent (heap w ! ap) b" and ?Nm = "GetBinContent (heap w ! am) b"
  let ?Ep = "GetBinError (heap w ! ap) b" and ?Em = "GetBinError (heap w ! am) b"
  note B = bsa_hist_bins [OF assms(9-11), of "heap w ! am" pol]
  have c: "GetBinContent (heap w' ! a) b = asymmetry ?Np ?Nm / pol"
    using B(3) a(3) by simp
  have e: "GetBinError (heap w' ! a) b = \<bar>asymmetry_error ?Np ?Nm ?Ep ?Em / pol\<bar>"
    by (simp only: a(3) B(4))
  have "ComputeBeamSpinAsymmetry sigma_pos sigma_neg pol w = Some (w', g) \<and>
        shape g = shape sigma_pos \<and>
        ix < length g \<and> iq < length (g ! ix) \<and> it < length (g ! ix ! iq) \<and>
        g ! ix ! iq ! it = Some a \<and> a < length (heap w') \<and>
        GetBinContent (heap w' ! a) b = asymmetry ?Np ?Nm / pol \<and>
        GetBinError (heap w' ! a) b = \<bar>asymmetry_error ?Np ?Nm ?Ep ?Em / pol\<bar>"
    using o(1) grid_result_shape(2) [OF gr] l1 l2 l3 a(1,2) c e by simp
  then show ?thesis
    apply (rule_tac x = w' in exI)
    apply (rule_tac x = g in exI)
    apply (rule_tac x = a in exI)
    apply assumption
    done
qed

text \<open>
  Claim C3, as amended. For two grids of the same shape whose pointers are valid, every
  cell in which both histograms exist, every bin \<open>b\<close> of the histogram of \<open>sigma_pos\<close>
  (\<open>1 \<le> b \<le> GetNbinsX\<close>) and every polarisation \<open>pol\<close> that is not 0: the call returns a
  grid of the same shape whose cell points to a histogram with content \<open>A / pol\<close> and
  error \<open>\<bar>sigma_A / pol\<bar>\<close> in bin \<open>b\<close>, where \<open>A\<close> and \<open>sigma_A\<close> are the asymmetry and
  its uncertainty of the contents and errors of the two input bins. The error is
  \<open>sigma_A / pol\<close> itself when \<open>pol\<close> is positive, and the content is 0 when the two
  contents are equal.
\<close>

theorem beam_spin_asymmetry_bins:
  assumes "grid_ok (heap w) sigma_pos" and "grid_ok (heap w) sigma_neg"
    and "shape sigma_pos = shape sigma_neg"
    and "ix < length sigma_pos" and "iq < length (sigma_pos ! ix)"
    and "it < length (sigma_pos ! ix ! iq)"
    and "sigma_pos ! ix ! iq ! it = Some ap" and "sigma_neg ! ix ! iq ! it = Some am"
    and "hist_inv (heap w ! ap)" and "1 \<le> b" and "b \<le> GetNbinsX (heap w ! ap)"
    and "pol \<noteq> 0"
  shows "\<exists>w' asym_grid a.
           ComputeBeamSpinAsymmetry sigma_pos sigma_neg pol w = Some (w', asym_grid) \<and>
           shape asym_grid = shape sigma_pos \<and>
           asym_grid ! ix ! iq ! it = Some a \<and> a < length (heap w') \<and>
           GetBinContent (heap w' ! a) b =
             asymmetry (GetBinContent (heap w ! ap) b) (GetBinContent (heap w ! am) b) / pol \<and>
           GetBinError (heap w' ! a) b =
             \<bar>asymmetry_error (GetBinContent (heap w ! ap) b) (GetBinContent (heap w ! am) b)
                (GetBinError (heap w ! ap) b) (GetBinError (heap w ! am) b) / pol\<bar> \<and>
           (0 < pol \<longrightarrow>
              GetBinError (heap w' ! a) b =
                asymmetry_error (GetBinContent (heap w ! ap) b) (GetBinContent (heap w ! am) b)
                  (GetBinError (heap w ! ap) b) (GetBinError (heap w ! am) b) / pol) \<and>
           (GetBinContent (heap w ! ap) b = GetBinContent (heap w ! am) b \<longrightarrow>
              GetBinContent (heap w' ! a) b = 0)"
proof -
  let ?Np = "GetBinContent (heap w ! ap) b" and ?Nm = "GetBinContent (heap w ! am) b"
  let ?Ep = "GetBinError (heap w ! ap) b" and ?Em = "GetBinError (heap w ! am) b"
  obtain w' g a where r:
      "ComputeBeamSpinAsymmetry sigma_pos sigma_neg pol w = Some (w', g)"
      "shape g = shape sigma_pos" "g ! ix ! iq ! it = Some a" "a < length (heap w')"
      "GetBinContent (heap w' ! a) b = asymmetry ?Np ?Nm / pol"
      "GetBinError (heap w' ! a) b = \<bar>asymmetry_error ?Np ?Nm ?Ep ?Em / pol\<bar>"
    using beam_spin_asymmetry_cell [OF assms(1-11), of pol] by blast
  have e: "GetBinError (heap w' ! a) b = asymmetry_error ?Np ?Nm ?Ep ?Em / pol" if "0 < pol"
  proof -
    have nn: "0 \<le> asymmetry_error ?Np ?Nm ?Ep ?Em / pol"
      using asymmetry_error_nonneg that by simp
    show ?thesis by (simp only: r(6) abs_of_nonneg [OF nn])
  qed
  have z: "GetBinContent (heap w' ! a) b = 0" if "?Np = ?Nm"
    using r(5) that by (simp add: asymmetry_def)
  have "ComputeBeamSpinAsymmetry sigma_pos sigma_neg pol w = Some (w', g) \<and>
        shape g = shape sigma_pos \<and> g ! ix ! iq ! it = Some a \<and> a < length (heap w') \<and>
        GetBinContent (heap w' ! a) b = asymmetry ?Np ?Nm / pol \<and>
        GetBinError (heap w' ! a) b = \<bar>asymmetry_error ?Np ?Nm ?Ep ?Em / pol\<bar> \<and>
        (0 < pol \<longrightarrow>
           GetBinError (heap w' ! a) b = asymmetry_error ?Np ?Nm ?Ep ?Em / pol) \<and>
        (?Np = ?Nm \<longrightarrow> GetBinContent (heap w' ! a) b = 0)"
    using r e z by simp
  then show ?thesis
    apply (rule_tac x = w' in exI)
    apply (rule_tac x = g in exI)
    apply (rule_tac x = a in exI)
    apply assumption
    done
qed

lemma example_world_facts:
  "grid_ok (heap example_world) [[[Some 0]]]"
  "grid_ok (heap example_world) [[[Some 0, Some 1]]]"
  "hist_inv (heap example_world ! 0)"
  "GetNbinsX (heap example_world ! 0) = 2"
  "GetBinContent (heap example_world ! 0) 1 = 1"
  "GetBinError (heap example_world ! 0) 1 = 1"
  by (simp_all add: example_world_def grid_ok_def ptr_ok_def hist_inv_def GetNbinsX_def
      Fill_def TH1D_new_def TAxis_FindBin_def GetBinContent_def GetBinError_def Let_def)

lemma asymmetry_error_ones: "asymmetry_error 1 1 1 1 = sqrt 2 / 2"
  by (simp add: asymmetry_error_def)

theorem beam_spin_asymmetry_bins_witness:
  "grid_ok (heap example_world) [[[Some 0]]] \<and>
   shape [[[Some (0::nat)]]] = shape [[[Some (0::nat)]]] \<and>
   hist_inv (heap example_world ! 0) \<and> 1 \<le> GetNbinsX (heap example_world ! 0) \<and>
   (1 / 2 :: real) \<noteq> 0 \<and>
   (\<exists>w' asym_grid a.
      ComputeBeamSpinAsymmetry [[[Some 0]]] [[[Some 0]]] (1 / 2) example_world
        = Some (w', asym_grid) \<and>
      asym_grid ! 0 ! 0 ! 0 = Some a \<and> a < length (heap w') \<and>
      GetBinContent (heap w' ! a) 1 = 0 \<and>
      GetBinError (heap w' ! a) 1 = asymmetry_error 1 1 1 1 / (1 / 2))"
proof -
  have i: "(0::nat) < length [[[Some (0::nat)]]]" "(0::nat) < length ([[[Some (0::nat)]]] ! 0)"
      "(0::nat) < length ([[[Some (0::nat)]]] ! 0 ! 0)"
      "[[[Some (0::nat)]]] ! 0 ! 0 ! 0 = Some 0"
    by simp_all
  have b: "(1::nat) \<le> 1" "1 \<le> GetNbinsX (heap example_world ! 0)" "(1 / 2 :: real) \<noteq> 0"
    by (simp_all add: example_world_facts)
  have p: "(0::real) < 1 / 2" by simp
  have s: "shape [[[Some (0::nat)]]] = shape [[[Some (0::nat)]]]" by simp
  from beam_spin_asymmetry_bins [OF example_world_facts(1) example_world_facts(1) s i(1-3) i(4)
      i(4) example_world_facts(3) b(1) b(2) b(3)]
  obtain w' g a where r:
      "ComputeBeamSpinAsymmetry [[[Some 0]]] [[[Some 0]]] (1 / 2) example_world = Some (w', g)"
      "g ! 0 ! 0 ! 0 = Some a" "a < length (heap w')"
      "GetBinContent (heap w' ! a) 1 =
         asymmetry (GetBinContent (heap example_world ! 0) 1)
           (GetBinContent (heap example_world ! 0) 1) / (1 / 2)"
      "(0::real) < 1 / 2 \<longrightarrow> GetBinError (heap w' ! a) 1 =
         asymmetry_error (GetBinContent (heap example_world ! 0) 1)
           (GetBinContent (heap example_world ! 0) 1) (GetBinError (heap example_world ! 0) 1)
           (GetBinError (heap example_world ! 0) 1) / (1 / 2)"
    by blast
  have r5: "GetBinError (heap w' ! a) 1 =
         asymmetry_error (GetBinContent (heap example_world ! 0) 1)
           (GetBinContent (heap example_world ! 0) 1) (GetBinError (heap example_world ! 0) 1)
           (GetBinError (heap example_world ! 0) 1) / (1 / 2)"
    using r(5) p by blast
  have z: "asymmetry 1 1 / (1 / 2) = 0" by (simp add: asymmetry_def)
  have c: "GetBinContent (heap w' ! a) 1 = 0"
    by (simp only: r(4) example_world_facts(5) z)
  have e: "GetBinError (heap w' ! a) 1 = asymmetry_error 1 1 1 1 / (1 / 2)"
    by (simp only: r5 example_world_facts(5,6))
  show ?thesis
    using example_world_facts(1,3) s b(2,3) r(1,2,3) c e by blast
qed

text \<open>
  The same histogram, with content 1 and error 1 in bin 1, for both helicities and the
  polarisation \<open>-1\<close>: the uncertainty of the asymmetry is \<open>sqrt 2 / 2\<close>, so that
  \<open>sigma_A / pol\<close> is \<open>- (sqrt 2 / 2)\<close>, and the error that the output bin holds is
  \<open>sqrt 2 / 2\<close>.
\<close>

theorem negative_polarisation_counterexample:
  "asym_bin_error (ComputeBeamSpinAsymmetry [[[Some 0]]] [[[Some 0]]] (- 1) example_world)
     0 0 0 1 = Some (sqrt 2 / 2) \<and>
   asymmetry_error (GetBinContent (heap example_world ! 0) 1)
     (GetBinContent (heap example_world ! 0) 1) (GetBinError (heap example_world ! 0) 1)
     (GetBinError (heap example_world ! 0) 1) / (- 1) = - (sqrt 2 / 2) \<and>
   sqrt 2 / 2 \<noteq> - (sqrt 2 / 2)"
proof -
  have i: "(0::nat) < length [[[Some (0::nat)]]]" "(0::nat) < length ([[[Some (0::nat)]]] ! 0)"
      "(0::nat) < length ([[[Some (0::nat)]]] ! 0 ! 0)"
      "[[[Some (0::nat)]]] ! 0 ! 0 ! 0 = Some 0"
    by simp_all
  have b: "(1::nat) \<le> 1" "1 \<le> GetNbinsX (heap example_world ! 0)"
    by (simp_all add: example_world_facts)
  have s: "shape [[[Some (0::nat)]]] = shape [[[Some (0::nat)]]]" by simp
  from beam_spin_asymmetry_cell [OF example_world_facts(1) example_world_facts(1) s i(1-3) i(4)
      i(4) example_world_facts(3) b(1) b(2), of "- 1"]
  obtain w' g a where r:
      "ComputeBeamSpinAsymmetry [[[Some 0]]] [[[Some 0]]] (- 1) example_world = Some (w', g)"
      "0 < length g" "0 < length (g ! 0)" "0 < length (g ! 0 ! 0)"
      "g ! 0 ! 0 ! 0 = Some a" "a < length (heap w')"
      "GetBinError (heap w' ! a) 1 =
         \<bar>asymmetry_error (GetBinContent (heap example_world ! 0) 1)
           (GetBinContent (heap example_world ! 0) 1) (GetBinError (heap example_world ! 0) 1)
           (GetBinError (heap example_world ! 0) 1) / (- 1)\<bar>"
    by blast
  have v: "asymmetry_error (GetBinContent (heap example_world ! 0) 1)
     (GetBinContent (heap example_world ! 0) 1) (GetBinError (heap example_world ! 0) 1)
     (GetBinError (heap example_world ! 0) 1) = sqrt 2 / 2"
    by (simp only: example_world_facts(5,6) asymmetry_error_ones)
  have e: "GetBinError (heap w' ! a) 1 = sqrt 2 / 2"
    unfolding r(7) v by simp
  have acc: "asym_bin_error (Some (w', g)) 0 0 0 1 = Some (GetBinError (heap w' ! a) 1)"
    using r(2-6) by (simp add: asym_bin_error_def)
  have 1: "asym_bin_error (ComputeBeamSpinAsymmetry [[[Some 0]]] [[[Some 0]]] (- 1)
             example_world) 0 0 0 1 = Some (sqrt 2 / 2)"
    by (simp only: r(1) acc e)
  have 2: "asymmetry_error (GetBinContent (heap example_world ! 0) 1)
     (GetBinContent (heap example_world ! 0) 1) (GetBinError (heap example_world ! 0) 1)
     (GetBinError (heap example_world ! 0) 1) / (- 1) = - (sqrt 2 / 2)"
    unfolding v by simp
  have 3: "sqrt 2 / 2 \<noteq> - (sqrt 2 / 2)" by simp
  show ?thesis using 1 2 3 by blast
qed

text \<open>
  Claim C6. For two grids whose sizes differ in any of the three dimensions, and whose
  pointers are valid: the call returns the empty grid, and the last line on \<open>cerr\<close> is an
  error that names a dimension, and the indices, at which the two sizes differ; before it
  there are only warnings about null histograms, and nothing is written on \<open>cout\<close>.
\<close>

theorem shape_mismatch_returns_empty:
  assumes "grid_ok (heap w) sigma_pos" and "grid_ok (heap w) sigma_neg"
    and "shape sigma_pos \<noteq> shape sigma_neg"
  shows "\<exists>w' warn e.
           ComputeBeamSpinAsymmetry sigma_pos sigma_neg pol w = Some (w', []) \<and>
           cerr w' = cerr w @ warn @ [e] \<and> list_all is_warning warn \<and>
           reports_mismatch sigma_pos sigma_neg e \<and> cout w' = cout w"
proof -
  obtain w' g new warn where o:
      "ComputeBeamSpinAsymmetry sigma_pos sigma_neg pol w = Some (w', g)"
      "list_all is_warning warn"
      "(grid_result (heap w) (heap w') pol sigma_pos sigma_neg g \<and>
             cerr w' = cerr w @ warn \<and>
             cout w' = cout w @ [''Beam-Spin Asymmetries (3D) computed.'']) \<or>
            (g = [] \<and> cout w' = cout w \<and>
             (\<exists>e. cerr w' = cerr w @ warn @ [e] \<and> reports_mismatch sigma_pos sigma_neg e))"
    using bsa_outcome [OF assms(1,2), of pol] by blast
  have "\<not> grid_result (heap w) (heap w') pol sigma_pos sigma_neg g"
    using grid_result_shape(1) assms(3) by blast
  then obtain e where e: "g = []" "cout w' = cout w" "cerr w' = cerr w @ warn @ [e]"
      "reports_mismatch sigma_pos sigma_neg e"
    using o(3) by blast
  show ?thesis using o(1,2) e by blast
qed

theorem shape_mismatch_returns_empty_witness:
  "grid_ok (heap example_world) [[[Some 0]]] \<and>
   grid_ok (heap example_world) [[[Some 0, Some 1]]] \<and>
   shape [[[Some (0::nat)]]] \<noteq> shape [[[Some (0::nat), Some 1]]] \<and>
   (\<exists>w' warn e.
      ComputeBeamSpinAsymmetry [[[Some 0]]] [[[Some 0, Some 1]]] 1 example_world
        = Some (w', []) \<and>
      cerr w' = cerr example_world @ warn @ [e] \<and> list_all is_warning warn \<and>
      reports_mismatch [[[Some 0]]] [[[Some 0, Some 1]]] e \<and> cout w' = cout example_world)"
proof -
  have s: "shape [[[Some (0::nat)]]] \<noteq> shape [[[Some (0::nat), Some 1]]]"
    by (simp add: shape_def)
  show ?thesis
    using shape_mismatch_returns_empty [OF example_world_facts(1) example_world_facts(2) s, of 1]
      example_world_facts(1,2) s
    by blast
qed

text \<open>
  Claim C10. For two grids whose pointers are valid the call returns, and every histogram
  object that was in the store before the call is in the store after it with the same
  state, so with the same content and error in every bin: the store has only grown. Every
  pointer of the returned grid that is not null points to an object that was not in the
  store before the call.
\<close>

theorem asymmetry_leaves_inputs_unchanged:
  assumes "grid_ok (heap w) sigma_pos" and "grid_ok (heap w) sigma_neg"
  shows "\<exists>w' asym_grid.
           ComputeBeamSpinAsymmetry sigma_pos sigma_neg pol w = Some (w', asym_grid) \<and>
           length (heap w) \<le> length (heap w') \<and>
           (\<forall>a<length (heap w). heap w' ! a = heap w ! a) \<and>
           (\<forall>a<length (heap w). \<forall>b.
              GetBinContent (heap w' ! a) b = GetBinContent (heap w ! a) b \<and>
              GetBinError (heap w' ! a) b = GetBinError (heap w ! a) b) \<and>
           (\<forall>ix iq it a. ix < length asym_grid \<and> iq < length (asym_grid ! ix) \<and>
              it < length (asym_grid ! ix ! iq) \<and> asym_grid ! ix ! iq ! it = Some a \<longrightarrow>
              length (heap w) \<le> a \<and> a < length (heap w'))"
proof -
  obtain w' g new warn where o:
      "ComputeBeamSpinAsymmetry sigma_pos sigma_neg pol w = Some (w', g)"
      "heap w' = heap w @ new"
      "(grid_result (heap w) (heap w') pol sigma_pos sigma_neg g \<and>
             cerr w' = cerr w @ warn \<and>
             cout w' = cout w @ [''Beam-Spin Asymmetries (3D) computed.'']) \<or>
            (g = [] \<and> cout w' = cout w \<and>
             (\<exists>e. cerr w' = cerr w @ warn @ [e] \<and> reports_mismatch sigma_pos sigma_neg e))"
    using bsa_outcome [OF assms(1,2), of pol] by blast
  have l: "length (heap w) \<le> length (heap w')" using o(2) by simp
  have same: "\<forall>a<length (heap w). heap w' ! a = heap w ! a"
    using o(2) by (simp add: nth_append)
  then have bins: "\<forall>a<length (heap w). \<forall>b.
              GetBinContent (heap w' ! a) b = GetBinContent (heap w ! a) b \<and>
              GetBinError (heap w' ! a) b = GetBinError (heap w ! a) b"
    by simp
  have fresh: "length (heap w) \<le> a \<and> a < length (heap w')"
    if c: "ix < length g \<and> iq < length (g ! ix) \<and> it < length (g ! ix ! iq) \<and>
           g ! ix ! iq ! it = Some a" for ix iq it a
  proof -
    have ne: "g \<noteq> []" using c by auto
    then have gr: "grid_result (heap w) (heap w') pol sigma_pos sigma_neg g" using o(3) by blast
    have lg: "length g = length sigma_pos" using gr by (simp add: grid_result_def)
    have i1: "ix < length sigma_pos" using c lg by simp
    have pl: "plane_result (heap w) (heap w') pol (sigma_pos ! ix) (sigma_neg ! ix) (g ! ix)"
      using gr i1 by (simp add: grid_result_def)
    then have i2: "iq < length (sigma_pos ! ix)" using c by (simp add: plane_result_def)
    have "row_result (heap w) (heap w') pol (sigma_pos ! ix ! iq) (sigma_neg ! ix ! iq)
            (g ! ix ! iq)"
      using pl i2 by (simp add: plane_result_def)
    then have i3: "it < length (sigma_pos ! ix ! iq)" using c by (simp add: row_result_def)
    have "cell_result (heap w) (heap w') pol (sigma_pos ! ix ! iq ! it)
            (sigma_neg ! ix ! iq ! it) (g ! ix ! iq ! it)"
      by (rule grid_result_cell [OF gr i1 i2 i3])
    then show ?thesis
      using c by (auto simp: cell_result_def split: option.splits)
  qed
  have "ComputeBeamSpinAsymmetry sigma_pos sigma_neg pol w = Some (w', g) \<and>
           length (heap w) \<le> length (heap w') \<and>
           (\<forall>a<length (heap w). heap w' ! a = heap w ! a) \<and>
           (\<forall>a<length (heap w). \<forall>b.
              GetBinContent (heap w' ! a) b = GetBinContent (heap w ! a) b \<and>
              GetBinError (heap w' ! a) b = GetBinError (heap w ! a) b) \<and>
           (\<forall>ix iq it a. ix < length g \<and> iq < length (g ! ix) \<and>
              it < length (g ! ix ! iq) \<and> g ! ix ! iq ! it = Some a \<longrightarrow>
              length (heap w) \<le> a \<and> a < length (heap w'))"
    using o(1) l same bins fresh by blast
  then show ?thesis
    apply (rule_tac x = w' in exI)
    apply (rule_tac x = g in exI)
    apply assumption
    done
qed

theorem asymmetry_leaves_inputs_unchanged_witness:
  "grid_ok (heap example_world) [[[Some 0]]] \<and>
   (\<exists>w' asym_grid.
      ComputeBeamSpinAsymmetry [[[Some 0]]] [[[Some 0]]] 1 example_world = Some (w', asym_grid) \<and>
      heap w' ! 0 = heap example_world ! 0 \<and> heap w' ! 1 = heap example_world ! 1 \<and>
      GetBinContent (heap w' ! 0) 1 = 1 \<and> GetBinError (heap w' ! 0) 1 = 1)"
proof -
  from asymmetry_leaves_inputs_unchanged [OF example_world_facts(1) example_world_facts(1), of 1]
  obtain w' g where r:
      "ComputeBeamSpinAsymmetry [[[Some 0]]] [[[Some 0]]] 1 example_world = Some (w', g)"
      "\<forall>a<length (heap example_world). heap w' ! a = heap example_world ! a"
    by blast
  have l: "0 < length (heap example_world)" "1 < length (heap example_world)"
    by (simp_all add: example_world_def)
  have h: "heap w' ! 0 = heap example_world ! 0" "heap w' ! 1 = heap example_world ! 1"
    using r(2) l by blast+
  have "GetBinContent (heap w' ! 0) 1 = 1" "GetBinError (heap w' ! 0) 1 = 1"
    by (simp_all only: h example_world_facts(5,6))
  then show ?thesis using example_world_facts(1) r(1) h by blast
qed

end
